(* ===== verification/Rust_Prelude.thy ===== *)
theory Rust_Prelude
  imports Main "HOL-Library.Word" "HOL-Library.AList" "HOL-Library.Code_Target_Nat"
begin

text \<open>
  What the components share: the machine integers and byte strings of the Rust code, hash maps as
  association lists, fallible state-changing code as a pair of an optional error and the state it
  leaves, and the lemmas on them that the component proofs use.

  A byte is a \<^typ>\<open>char\<close> (256 values), so a byte string is a \<^typ>\<open>string\<close> and the literals of the source
  keep their form. \<open>usize\<close> is 64 bits on the one supported target (x86-64); it is a \<^typ>\<open>nat\<close>, and
  the overflow checks the source makes are written out against \<open>2 ^ 64\<close>. Fixed-width integers that
  travel on the wire or index a table are words of their width.
\<close>

unbundle bit_operations_syntax

named_theorems rust_simps \<open>unfolding equations of the shared combinators\<close>

section \<open>Machine integers\<close>

type_synonym byte = char
type_synonym bytes = string
type_synonym u8 = "8 word"
type_synonym u16 = "16 word"
type_synonym u32 = "32 word"
type_synonym u64 = "64 word"
type_synonym fd = nat

text \<open>\<open>usize::checked_add\<close>.\<close>

definition usize_checked_add :: "nat \<Rightarrow> nat \<Rightarrow> nat option" where
  "usize_checked_add a b = (if a + b < 2 ^ 64 then Some (a + b) else None)"

lemma usize_checked_add_Some [simp]:
  "usize_checked_add a b = Some c \<longleftrightarrow> a + b < 2 ^ 64 \<and> c = a + b"
  by (auto simp: usize_checked_add_def)

lemma unat_of_nat_small: "n < 2 ^ LENGTH('a) \<Longrightarrow> unat (of_nat n :: 'a::len word) = n"
  by (simp add: unat_of_nat take_bit_nat_eq_self)

text \<open>
  \<open>u32::from_ne_bytes\<close> and \<open>to_ne_bytes\<close>: host order, which is little-endian on x86-64.
\<close>

definition u32_from_ne :: "byte \<Rightarrow> byte \<Rightarrow> byte \<Rightarrow> byte \<Rightarrow> u32" where
  "u32_from_ne a b c d =
     of_nat (of_char a + 256 * of_char b + 65536 * of_char c + 16777216 * of_char d)"

definition u32_to_ne :: "u32 \<Rightarrow> bytes" where
  "u32_to_ne w = (let n = unat w in
     [char_of n, char_of (n div 256), char_of (n div 65536), char_of (n div 16777216)])"

lemma length_u32_to_ne [simp]: "length (u32_to_ne w) = 4"
  by (simp add: u32_to_ne_def Let_def)

lemma of_char_less_256 [simp]: "(of_char c :: nat) < 256"
proof -
  have "(of_char (char_of (of_char c :: nat)) :: nat) < 256"
    by (simp only: of_char_of)
  then show ?thesis by simp
qed

lemma char_of_eqI: "n mod 256 = of_char a \<Longrightarrow> char_of (n :: nat) = a"
  by (metis char_of_char char_of_mod_256)

lemma base256_digits:
  fixes n :: nat
  assumes "n < 2 ^ 32"
  shows "n mod 256 + 256 * (n div 256 mod 256) + 65536 * (n div 65536 mod 256)
           + 16777216 * (n div 16777216 mod 256) = n"
proof -
  have "n = 256 * (n div 256) + n mod 256" by simp
  moreover have "n div 256 = 256 * (n div 65536) + n div 256 mod 256"
    using div_mult2_eq [of n 256 256] mult_div_mod_eq [of 256 "n div 256"] by simp
  moreover have "n div 65536 = 256 * (n div 16777216) + n div 65536 mod 256"
    using div_mult2_eq [of n 65536 256] mult_div_mod_eq [of 256 "n div 65536"] by simp
  moreover have "n div 16777216 mod 256 = n div 16777216"
    using assms by (simp add: less_mult_imp_div_less)
  ultimately show ?thesis by linarith
qed

lemma base256_undigits:
  fixes a b c d :: nat
  assumes "a < 256" "b < 256" "c < 256" "d < 256"
  defines "n \<equiv> a + 256 * b + 65536 * c + 16777216 * d"
  shows "n mod 256 = a" "n div 256 mod 256 = b" "n div 65536 mod 256 = c"
    "n div 16777216 mod 256 = d" "n < 2 ^ 32"
proof -
  have n1: "n = a + 256 * (b + 256 * (c + 256 * d))" by (simp add: n_def algebra_simps)
  have d1: "n div 256 = b + 256 * (c + 256 * d)" using assms(1) by (simp add: n1)
  have d2: "n div 65536 = c + 256 * d"
    using div_mult2_eq [of n 256 256] assms(2) by (simp add: d1)
  have d3: "n div 16777216 = d"
    using div_mult2_eq [of n 65536 256] assms(3) by (simp add: d2)
  show "n mod 256 = a" using assms(1) unfolding n1 mod_mult_self2 by simp
  show "n div 256 mod 256 = b" using assms(2) unfolding d1 mod_mult_self2 by simp
  show "n div 65536 mod 256 = c" using assms(3) unfolding d2 mod_mult_self2 by simp
  show "n div 16777216 mod 256 = d" using assms(4) by (simp add: d3)
  show "n < 2 ^ 32" using assms(1-4) by (simp add: n_def)
qed

lemma u32_from_to_ne:
  "u32_to_ne w = [a, b, c, d] \<Longrightarrow> u32_from_ne a b c d = w"
proof -
  assume bs: "u32_to_ne w = [a, b, c, d]"
  have lt: "unat w < 2 ^ 32" using unsigned_less [of w] by simp
  have "of_char a + 256 * of_char b + 65536 * of_char c + 16777216 * of_char d = unat w"
    using bs base256_digits [OF lt] unfolding u32_to_ne_def Let_def list.inject
    by (metis of_char_of)
  then show ?thesis by (simp add: u32_from_ne_def)
qed

lemma u32_to_from_ne: "u32_to_ne (u32_from_ne a b c d) = [a, b, c, d]"
proof -
  define n :: nat where
    "n = of_char a + 256 * of_char b + 65536 * of_char c + 16777216 * of_char d"
  note n = base256_undigits [OF of_char_less_256 of_char_less_256 of_char_less_256
      of_char_less_256, of a b c d, folded n_def]
  have un: "unat (u32_from_ne a b c d) = n"
    using n(5) by (simp add: u32_from_ne_def n_def [symmetric] unat_of_nat take_bit_nat_eq_self)
  have "char_of n = a" "char_of (n div 256) = b"
      "char_of (n div 65536) = c" "char_of (n div 16777216) = d"
    by (rule char_of_eqI, rule n)+
  then show ?thesis by (simp add: u32_to_ne_def un Let_def)
qed

section \<open>Hash maps\<close>

text \<open>
  A \<open>HashMap\<close> is an association list with distinct keys; the list order stands for the table's
  iteration order, which the source's results must not depend on. \<^const>\<open>map_of\<close> is \<open>get\<close>,
  \<^const>\<open>AList.update\<close> is \<open>insert\<close>, \<^const>\<open>AList.delete\<close> is \<open>remove\<close>, \<^const>\<open>length\<close> is \<open>len\<close>.
\<close>

type_synonym ('k, 'v) hmap = "('k \<times> 'v) list"

abbreviation hm_get :: "('k, 'v) hmap \<Rightarrow> 'k \<Rightarrow> 'v option" where
  "hm_get m k \<equiv> map_of m k"

abbreviation hm_contains :: "('k, 'v) hmap \<Rightarrow> 'k \<Rightarrow> bool" where
  "hm_contains m k \<equiv> map_of m k \<noteq> None"

abbreviation hm_insert :: "'k \<Rightarrow> 'v \<Rightarrow> ('k, 'v) hmap \<Rightarrow> ('k, 'v) hmap" where
  "hm_insert k v m \<equiv> AList.update k v m"

abbreviation hm_remove :: "'k \<Rightarrow> ('k, 'v) hmap \<Rightarrow> ('k, 'v) hmap" where
  "hm_remove k m \<equiv> AList.delete k m"

abbreviation hm_ok :: "('k, 'v) hmap \<Rightarrow> bool" where
  "hm_ok m \<equiv> distinct (map fst m)"

lemma hm_get_insert [simp]: "hm_get (hm_insert k v m) k' = (if k' = k then Some v else hm_get m k')"
  by (simp add: update_conv')

lemma hm_get_remove [simp]: "hm_get (hm_remove k m) k' = (if k' = k then None else hm_get m k')"
  by (simp add: delete_conv')

lemma hm_ok_insert [simp]: "hm_ok (hm_insert k v m) \<longleftrightarrow> hm_ok m"
  by (auto simp: update_keys)

lemma hm_ok_remove [simp]: "hm_ok m \<Longrightarrow> hm_ok (hm_remove k m)"
  by (simp add: distinct_delete)

lemma hm_len_remove: "hm_ok m \<Longrightarrow> hm_get m k = Some v \<Longrightarrow> length m = Suc (length (hm_remove k m))"
  by (induction m) (auto simp: delete_id image_iff split: if_splits)

lemma hm_len_insert_new: "hm_get m k = None \<Longrightarrow> length (hm_insert k v m) = Suc (length m)"
  by (induction m) (auto split: if_splits)

lemma hm_len_insert_old: "hm_get m k = Some w \<Longrightarrow> length (hm_insert k v m) = length m"
  by (induction m) (auto split: if_splits)

text \<open>Sums over a map's values, for the charges kept per entry.\<close>

definition hm_sum :: "('v \<Rightarrow> nat) \<Rightarrow> ('k, 'v) hmap \<Rightarrow> nat" where
  "hm_sum f m = (\<Sum>kv \<leftarrow> m. f (snd kv))"

lemma hm_sum_Nil [simp]: "hm_sum f [] = 0"
  by (simp add: hm_sum_def)

lemma hm_sum_Cons [simp]: "hm_sum f (kv # m) = f (snd kv) + hm_sum f m"
  by (simp add: hm_sum_def)

lemma hm_sum_remove: "hm_ok m \<Longrightarrow> hm_get m k = Some v \<Longrightarrow> hm_sum f m = f v + hm_sum f (hm_remove k m)"
  by (induction m) (auto simp: delete_id image_iff split: if_splits)

lemma hm_sum_remove_none: "hm_get m k = None \<Longrightarrow> hm_sum f (hm_remove k m) = hm_sum f m"
  by (induction m) (auto split: if_splits)

lemma hm_sum_insert_new: "hm_get m k = None \<Longrightarrow> hm_sum f (hm_insert k v m) = f v + hm_sum f m"
  by (induction m) (auto split: if_splits)

lemma hm_sum_insert_old: "hm_get m k = Some w \<Longrightarrow> hm_sum f (hm_insert k v m) + f w = f v + hm_sum f m"
  by (induction m) (auto split: if_splits)

lemma hm_sum_ge: "hm_get m k = Some v \<Longrightarrow> f v \<le> hm_sum f m"
  by (induction m) (auto split: if_splits)

lemma not_Some_pair [simp]: "(\<forall>a b. x \<noteq> Some (a, b)) \<longleftrightarrow> x = None"
  by (cases x) auto

section \<open>Fallible state-changing code\<close>

text \<open>
  A method \<open>fn f(&mut self) -> Result<(), E>\<close> is a function to \<open>E option \<times> state\<close>: the error, if
  one ended it, and the state it leaves either way, as a mutation made before an early return
  stays. \<open>andthen\<close> is the \<open>?\<close> operator in a sequence of statements.
\<close>

type_synonym ('e, 's) eff = "'e option \<times> 's"

definition andthen :: "('e, 's) eff \<Rightarrow> ('s \<Rightarrow> ('e, 's) eff) \<Rightarrow> ('e, 's) eff" where
  "andthen r f = (case fst r of None \<Rightarrow> f (snd r) | Some e \<Rightarrow> r)"

lemma andthen_None [simp, rust_simps]: "andthen (None, s) f = f s"
  by (simp add: andthen_def)

lemma andthen_Some [simp, rust_simps]: "andthen (Some e, s) f = (Some e, s)"
  by (simp add: andthen_def)

lemma andthen_ok_iff:
  "andthen r f = (None, t) \<longleftrightarrow> (\<exists>s. r = (None, s) \<and> f s = (None, t))"
  by (cases r) (auto simp: andthen_def split: option.splits)

lemma andthen_assoc: "andthen (andthen r f) g = andthen r (\<lambda>s. andthen (f s) g)"
  by (cases r) (auto simp: andthen_def split: option.splits)

text \<open>A pure \<open>Result\<close> used with \<open>?\<close> inside such a method.\<close>

definition try_val :: "'e + 'a \<Rightarrow> 's \<Rightarrow> ('a \<Rightarrow> ('e, 's) eff) \<Rightarrow> ('e, 's) eff" where
  "try_val r s f = (case r of Inl e \<Rightarrow> (Some e, s) | Inr v \<Rightarrow> f v)"

lemma try_val_Inl [simp, rust_simps]: "try_val (Inl e) s f = (Some e, s)"
  by (simp add: try_val_def)

lemma try_val_Inr [simp, rust_simps]: "try_val (Inr v) s f = f v"
  by (simp add: try_val_def)

lemma try_val_ok_iff: "try_val r s f = (None, t) \<longleftrightarrow> (\<exists>v. r = Inr v \<and> f v = (None, t))"
  by (cases r) auto

text \<open>The \<open>?\<close> operator between pure \<open>Result\<close>s, and \<open>ok_or\<close>.\<close>

definition bind_res :: "'e + 'a \<Rightarrow> ('a \<Rightarrow> 'e + 'b) \<Rightarrow> 'e + 'b" where
  "bind_res r f = (case r of Inl e \<Rightarrow> Inl e | Inr v \<Rightarrow> f v)"

lemma bind_res_Inl [simp, rust_simps]: "bind_res (Inl e) f = Inl e"
  by (simp add: bind_res_def)

lemma bind_res_Inr [simp, rust_simps]: "bind_res (Inr v) f = f v"
  by (simp add: bind_res_def)

lemma bind_res_eq_Inr: "bind_res r f = Inr w \<longleftrightarrow> (\<exists>v. r = Inr v \<and> f v = Inr w)"
  by (cases r) auto

definition ok_or :: "'a option \<Rightarrow> 'e \<Rightarrow> 'e + 'a" where
  "ok_or x e = (case x of None \<Rightarrow> Inl e | Some v \<Rightarrow> Inr v)"

lemma ok_or_simps [simp, rust_simps]: "ok_or None e = Inl e" "ok_or (Some v) e = Inr v"
  by (simp_all add: ok_or_def)

lemma ok_or_eq_Inr: "ok_or x e = Inr v \<longleftrightarrow> x = Some v"
  by (cases x) auto

end
