(* ===== verification/Rust_Str.thy ===== *)
theory Rust_Str
  imports Rust_Prelude
begin

text \<open>
  The parts of Rust's \<open>str\<close> the sources use, on byte strings: UTF-8 validity and decoding
  (\<open>from_utf8\<close>, \<open>chars\<close>, \<open>is_char_boundary\<close>), the splitting and trimming methods, and the parsing
  and printing of unsigned decimals. A Rust \<open>&str\<close> is the \<^typ>\<open>string\<close> of its UTF-8 bytes, so \<open>len\<close>
  is \<^const>\<open>length\<close>; \<open>uchars\<close> cuts it into the encodings of its characters.
\<close>

section \<open>UTF-8\<close>

definition byte_in :: "nat \<Rightarrow> nat \<Rightarrow> byte \<Rightarrow> bool" where
  "byte_in lo hi b \<longleftrightarrow> lo \<le> of_char b \<and> of_char b \<le> hi"

definition is_cont :: "byte \<Rightarrow> bool" where
  "is_cont b = byte_in 0x80 0xBF b"

text \<open>The width of the well-formed character at the front (Unicode table 3-7), 0 if there is none.\<close>

definition utf8_width :: "bytes \<Rightarrow> nat" where
  "utf8_width s = (case s of [] \<Rightarrow> 0 | b # r \<Rightarrow> (let x = of_char b :: nat in
     if x < 0x80 then 1
     else if x < 0xC2 then 0
     else if x < 0xE0 then
       (case r of c # _ \<Rightarrow> if is_cont c then 2 else 0 | [] \<Rightarrow> 0)
     else if x < 0xF0 then
       (case r of c # d # _ \<Rightarrow>
          if byte_in (if x = 0xE0 then 0xA0 else 0x80) (if x = 0xED then 0x9F else 0xBF) c
             \<and> is_cont d then 3 else 0
        | _ \<Rightarrow> 0)
     else if x < 0xF5 then
       (case r of c # d # e # _ \<Rightarrow>
          if byte_in (if x = 0xF0 then 0x90 else 0x80) (if x = 0xF4 then 0x8F else 0xBF) c
             \<and> is_cont d \<and> is_cont e then 4 else 0
        | _ \<Rightarrow> 0)
     else 0))"

lemma utf8_width_le: "utf8_width s \<le> length s"
  by (auto simp: utf8_width_def Let_def split: list.splits)

lemma utf8_width_ascii [simp]: "of_char b < (0x80 :: nat) \<Longrightarrow> utf8_width (b # r) = 1"
  by (simp add: utf8_width_def)

text \<open>The width is decided by the character alone, whatever follows it.\<close>

lemma utf8_width_append: "utf8_width s \<noteq> 0 \<Longrightarrow> utf8_width (s @ t) = utf8_width s"
proof -
  assume w: "utf8_width s \<noteq> 0"
  consider "s = []" | b where "s = [b]" | b c where "s = [b, c]" | b c d where "s = [b, c, d]"
    | b c d e r where "s = b # c # d # e # r"
    by (metis list.exhaust)
  then show ?thesis
    using w by cases (simp_all add: utf8_width_def Let_def split: if_split_asm)
qed

function from_utf8_ok :: "bytes \<Rightarrow> bool" where
  "from_utf8_ok s = (if s = [] then True else if utf8_width s = 0 then False
     else from_utf8_ok (drop (utf8_width s) s))"
  by pat_completeness auto
termination
  by (relation "measure length") auto

declare from_utf8_ok.simps [simp del]

lemma from_utf8_ok_Nil [simp]: "from_utf8_ok []"
  by (simp add: from_utf8_ok.simps)

lemma from_utf8_ok_Cons [simp]:
  "from_utf8_ok (b # r) \<longleftrightarrow>
     utf8_width (b # r) \<noteq> 0 \<and> from_utf8_ok (drop (utf8_width (b # r)) (b # r))"
  by (subst from_utf8_ok.simps) simp

text \<open>\<open>str::chars\<close>, each character as its bytes; a byte that begins none stands alone.\<close>

function uchars :: "bytes \<Rightarrow> bytes list" where
  "uchars s = (if s = [] then []
     else (let w = max 1 (utf8_width s) in take w s # uchars (drop w s)))"
  by pat_completeness auto
termination
  by (relation "measure length") auto

declare uchars.simps [simp del]

lemma uchars_Nil [simp]: "uchars [] = []"
  by (simp add: uchars.simps)

lemma uchars_Cons [simp]:
  "uchars (b # r) = (let w = max 1 (utf8_width (b # r)) in take w (b # r) # uchars (drop w (b # r)))"
  by (subst uchars.simps) simp

lemma concat_uchars [simp]: "concat (uchars s) = s"
proof (induction s rule: uchars.induct)
  case (1 s)
  show ?case
  proof (cases s)
    case Nil
    then show ?thesis by simp
  next
    case (Cons b r)
    with "1.IH" have "concat (uchars (drop (max 1 (utf8_width s)) s)) = drop (max 1 (utf8_width s)) s"
      by simp
    then show ?thesis by (simp only: uchars.simps [of s] Let_def) (simp add: Cons)
  qed
qed

lemma uchars_nonempty: "c \<in> set (uchars s) \<Longrightarrow> c \<noteq> []"
proof (induction s rule: uchars.induct)
  case (1 s)
  then show ?case
    by (cases s) (auto simp: uchars.simps [of s] Let_def split: if_splits)
qed

text \<open>A string of ASCII bytes is valid and its characters are its bytes.\<close>

definition ascii :: "bytes \<Rightarrow> bool" where
  "ascii s = list_all (\<lambda>b. of_char b < (0x80 :: nat)) s"

lemma ascii_simps [simp]:
  "ascii []" "ascii (b # s) \<longleftrightarrow> of_char b < (0x80 :: nat) \<and> ascii s"
  "ascii (s @ t) \<longleftrightarrow> ascii s \<and> ascii t"
  by (simp_all add: ascii_def)

lemma ascii_utf8_ok: "ascii s \<Longrightarrow> from_utf8_ok s"
  by (induction s) auto

lemma ascii_uchars: "ascii s \<Longrightarrow> uchars s = map (\<lambda>c. [c]) s"
  by (induction s) (auto simp: Let_def)

text \<open>Valid strings concatenate, and a valid prefix leaves a valid rest.\<close>

lemma from_utf8_ok_append: "from_utf8_ok s \<Longrightarrow> from_utf8_ok (s @ t) = from_utf8_ok t"
proof (induction s rule: from_utf8_ok.induct)
  case (1 s)
  show ?case
  proof (cases s)
    case Nil
    then show ?thesis by simp
  next
    case (Cons b r)
    with "1.prems" have w: "utf8_width s \<noteq> 0" and d: "from_utf8_ok (drop (utf8_width s) s)"
      by auto
    from w d have "from_utf8_ok (drop (utf8_width s) s @ t) = from_utf8_ok t"
      using "1.IH" Cons by simp
    moreover have "utf8_width (s @ t) = utf8_width s"
      using w by (rule utf8_width_append)
    moreover have "drop (utf8_width s) (s @ t) = drop (utf8_width s) s @ t"
      using utf8_width_le [of s] by simp
    ultimately show ?thesis
      using w by (subst from_utf8_ok.simps) (auto simp: Cons)
  qed
qed

text \<open>A character's code point.\<close>

definition ucode :: "bytes \<Rightarrow> nat" where
  "ucode c = (case map of_char c of
       [a] \<Rightarrow> a
     | [a, b] \<Rightarrow> (a mod 32) * 64 + b mod 64
     | [a, b, d] \<Rightarrow> (a mod 16) * 4096 + (b mod 64) * 64 + d mod 64
     | [a, b, d, e] \<Rightarrow> (a mod 8) * 262144 + (b mod 64) * 4096 + (d mod 64) * 64 + e mod 64
     | _ \<Rightarrow> 0)"

text \<open>\<open>char::is_control\<close> (category Cc) and \<open>char::is_whitespace\<close> (property White_Space).\<close>

definition is_control :: "bytes \<Rightarrow> bool" where
  "is_control c \<longleftrightarrow> (let u = ucode c in u < 0x20 \<or> (0x7F \<le> u \<and> u < 0xA0))"

definition is_whitespace :: "bytes \<Rightarrow> bool" where
  "is_whitespace c \<longleftrightarrow> (let u = ucode c in
     (9 \<le> u \<and> u \<le> 13) \<or> u = 0x20 \<or> u = 0x85 \<or> u = 0xA0 \<or> u = 0x1680
     \<or> (0x2000 \<le> u \<and> u \<le> 0x200A) \<or> u = 0x2028 \<or> u = 0x2029 \<or> u = 0x202F \<or> u = 0x205F
     \<or> u = 0x3000)"

definition is_char_boundary :: "bytes \<Rightarrow> nat \<Rightarrow> bool" where
  "is_char_boundary s i \<longleftrightarrow>
     i = 0 \<or> i = length s \<or> (i < length s \<and> \<not> is_cont (s ! i))"

text \<open>One well-formed character, and strings as lists of them.\<close>

definition one_char :: "bytes \<Rightarrow> bool" where
  "one_char c \<longleftrightarrow> c \<noteq> [] \<and> utf8_width c = length c"

lemma one_char_ascii: "of_char b < (0x80 :: nat) \<Longrightarrow> one_char [b]"
  by (simp add: one_char_def)

lemma utf8_width_take: "utf8_width (take (utf8_width s) s) = utf8_width s"
proof -
  consider "s = []" | b where "s = [b]" | b c where "s = [b, c]" | b c d where "s = [b, c, d]"
    | b c d e r where "s = b # c # d # e # r"
    by (metis list.exhaust)
  then show ?thesis
    by cases (simp_all add: utf8_width_def Let_def)
qed

lemma one_char_append: "one_char c \<Longrightarrow> utf8_width (c @ t) = length c"
  using utf8_width_append [of c t] by (simp add: one_char_def)

lemma uchars_one_append: "one_char c \<Longrightarrow> uchars (c @ t) = c # uchars t"
proof -
  assume c: "one_char c"
  then have "c \<noteq> []" by (simp add: one_char_def)
  then show ?thesis
    by (subst uchars.simps) (simp add: one_char_append [OF c] max_def Suc_le_eq)
qed

lemma from_utf8_ok_one_append: "one_char c \<Longrightarrow> from_utf8_ok (c @ t) = from_utf8_ok t"
proof -
  assume c: "one_char c"
  then have "c \<noteq> []" by (simp add: one_char_def)
  then show ?thesis
    by (subst from_utf8_ok.simps) (simp add: one_char_append [OF c])
qed

lemma uchars_concat: "list_all one_char cs \<Longrightarrow> uchars (concat cs) = cs"
  by (induction cs) (simp_all add: uchars_one_append)

lemma from_utf8_ok_concat: "list_all one_char cs \<Longrightarrow> from_utf8_ok (concat cs)"
  by (induction cs) (simp_all add: from_utf8_ok_one_append)

lemma uchars_one_char: "from_utf8_ok s \<Longrightarrow> list_all one_char (uchars s)"
proof (induction s rule: from_utf8_ok.induct)
  case (1 s)
  show ?case
  proof (cases "s = []")
    case False
    then have w: "utf8_width s \<noteq> 0" "from_utf8_ok (drop (utf8_width s) s)"
      using "1.prems" by (auto simp: from_utf8_ok.simps [of s] split: if_splits)
    then have "one_char (take (utf8_width s) s)"
      using False utf8_width_le [of s] by (simp add: one_char_def utf8_width_take)
    moreover have "list_all one_char (uchars (drop (utf8_width s) s))"
      using "1.IH" [OF False w] .
    moreover have "uchars s = take (utf8_width s) s # uchars (drop (utf8_width s) s)"
      using False w(1) by (subst uchars.simps) (simp add: max_def Suc_le_eq Let_def)
    ultimately show ?thesis by simp
  qed simp
qed

lemma uchars_append: "from_utf8_ok s \<Longrightarrow> uchars (s @ t) = uchars s @ uchars t"
proof -
  have "list_all one_char cs \<Longrightarrow> uchars (concat cs @ t) = cs @ uchars t" for cs
    by (induction cs) (simp_all add: uchars_one_append)
  from this [OF uchars_one_char] show "from_utf8_ok s \<Longrightarrow> ?thesis" by simp
qed

lemma one_char_cont:
  assumes c: "one_char c" and i: "0 < i" "i < length c"
  shows "is_cont (c ! i)"
proof -
  note one_char_simps = one_char_def utf8_width_def Let_def
  consider "c = []" | b where "c = [b]" | b d where "c = [b, d]" | b d e where "c = [b, d, e]"
    | b d e f r where "c = b # d # e # f # r"
    by (metis list.exhaust)
  then show ?thesis
  proof cases
    case (3 b d)
    with i have "i = 1" by simp
    then show ?thesis using c unfolding 3 by (simp add: one_char_simps split: if_split_asm)
  next
    case (4 b d e)
    with i consider "i = 1" | "i = 2" by fastforce
    then show ?thesis
      by cases (use c in \<open>simp_all add: 4 one_char_simps is_cont_def byte_in_def split: if_split_asm\<close>)
  next
    case (5 b d e f r)
    have "r = []" using c unfolding 5 by (simp add: one_char_simps split: if_split_asm)
    with i 5 consider "i = 1" | "i = 2" | "i = 3" by fastforce
    then show ?thesis
      by cases (use c \<open>r = []\<close> in \<open>simp_all add: 5 one_char_simps is_cont_def byte_in_def split: if_split_asm\<close>)
  qed (use i in simp_all)
qed

text \<open>A cut at a character boundary leaves a valid string.\<close>

lemma concat_take_boundary:
  "list_all one_char cs \<Longrightarrow> is_char_boundary (concat cs) i \<Longrightarrow> i \<le> length (concat cs) \<Longrightarrow>
    \<exists>k. take i (concat cs) = concat (take k cs)"
proof (induction cs arbitrary: i)
  case (Cons c cs)
  then have c: "one_char c" by simp
  consider "i = 0" | "0 < i" "i < length c" | "length c \<le> i" by linarith
  then show ?case
  proof cases
    case 2
    with one_char_cont [OF c] Cons.prems(2) have False
      by (auto simp: is_char_boundary_def nth_append)
    then show ?thesis ..
  next
    case 3
    have "is_char_boundary (concat cs) (i - length c)"
      using Cons.prems(2) 3 by (auto simp: is_char_boundary_def nth_append)
    moreover have "i - length c \<le> length (concat cs)" using Cons.prems(3) 3 by auto
    ultimately obtain k where "take (i - length c) (concat cs) = concat (take k cs)"
      using Cons.IH Cons.prems(1) by auto
    with 3 show ?thesis by (intro exI [of _ "Suc k"]) simp
  qed (auto intro: exI [of _ 0])
qed simp

lemma take_boundary:
  assumes "from_utf8_ok s" "is_char_boundary s i" "i \<le> length s"
  shows "\<exists>k. take i s = concat (take k (uchars s))"
  using concat_take_boundary [OF uchars_one_char [OF assms(1)], of i] assms(2,3) by simp

lemma list_all_take: "list_all P xs \<Longrightarrow> list_all P (take k xs)"
  by (metis append_take_drop_id list_all_append)

section \<open>ASCII classes\<close>

definition is_ascii_digit :: "byte \<Rightarrow> bool" where
  "is_ascii_digit b = byte_in 0x30 0x39 b"

definition is_ascii_lowercase :: "byte \<Rightarrow> bool" where
  "is_ascii_lowercase b = byte_in 0x61 0x7A b"

definition is_ascii_uppercase :: "byte \<Rightarrow> bool" where
  "is_ascii_uppercase b = byte_in 0x41 0x5A b"

definition is_ascii_alphanumeric :: "byte \<Rightarrow> bool" where
  "is_ascii_alphanumeric b \<longleftrightarrow> is_ascii_digit b \<or> is_ascii_lowercase b \<or> is_ascii_uppercase b"

definition is_ascii_hexdigit :: "byte \<Rightarrow> bool" where
  "is_ascii_hexdigit b \<longleftrightarrow> is_ascii_digit b \<or> byte_in 0x61 0x66 b \<or> byte_in 0x41 0x46 b"

definition is_ascii_graphic :: "byte \<Rightarrow> bool" where
  "is_ascii_graphic b = byte_in 0x21 0x7E b"

definition to_ascii_lowercase :: "bytes \<Rightarrow> bytes" where
  "to_ascii_lowercase s = map (\<lambda>b. if is_ascii_uppercase b then char_of (of_char b + 32 :: nat) else b) s"

lemmas ascii_class_defs = is_ascii_digit_def is_ascii_lowercase_def is_ascii_uppercase_def
  is_ascii_alphanumeric_def is_ascii_hexdigit_def is_ascii_graphic_def byte_in_def

text \<open>\<open>chars().all\<close> with a class of ASCII characters: no other character is in it.\<close>

definition all_chars :: "(byte \<Rightarrow> bool) \<Rightarrow> bytes \<Rightarrow> bool" where
  "all_chars P s = list_all (\<lambda>c. case c of [b] \<Rightarrow> P b | _ \<Rightarrow> False) (uchars s)"

lemma list_all_chars: "list_all (\<lambda>c. case c of [b] \<Rightarrow> P b | _ \<Rightarrow> False) cs \<Longrightarrow> list_all P (concat cs)"
  by (induction cs) (auto split: list.splits)

lemma all_chars_bytes: "all_chars P s \<Longrightarrow> list_all P s"
  using list_all_chars [of P "uchars s"] by (simp only: all_chars_def concat_uchars)

section \<open>Splitting and trimming\<close>

definition strip_prefix :: "bytes \<Rightarrow> bytes \<Rightarrow> bytes option" where
  "strip_prefix p s = (if take (length p) s = p then Some (drop (length p) s) else None)"

definition strip_suffix :: "bytes \<Rightarrow> bytes \<Rightarrow> bytes option" where
  "strip_suffix p s = (if length p \<le> length s \<and> drop (length s - length p) s = p
     then Some (take (length s - length p) s) else None)"

lemma strip_prefix_Some: "strip_prefix p s = Some t \<longleftrightarrow> s = p @ t"
proof
  assume "strip_prefix p s = Some t"
  then have "take (length p) s = p" and "drop (length p) s = t"
    by (auto simp: strip_prefix_def split: if_splits)
  then show "s = p @ t" using append_take_drop_id [of "length p" s] by simp
qed (simp add: strip_prefix_def)

lemma strip_suffix_Some: "strip_suffix p s = Some t \<longleftrightarrow> s = t @ p"
proof
  assume "strip_suffix p s = Some t"
  then have "drop (length s - length p) s = p" and "take (length s - length p) s = t"
    by (auto simp: strip_suffix_def split: if_splits)
  then show "s = t @ p" using append_take_drop_id [of "length s - length p" s] by simp
qed (simp add: strip_suffix_def)

definition trim_start :: "bytes \<Rightarrow> bytes" where
  "trim_start s = concat (dropWhile is_whitespace (uchars s))"

definition trim :: "bytes \<Rightarrow> bytes" where
  "trim s = concat (rev (dropWhile is_whitespace (rev (dropWhile is_whitespace (uchars s)))))"

fun split_ws_from :: "bytes list \<Rightarrow> bytes \<Rightarrow> bytes list" where
  "split_ws_from [] cur = (if cur = [] then [] else [cur])"
| "split_ws_from (c # cs) cur =
     (if is_whitespace c then (if cur = [] then split_ws_from cs [] else cur # split_ws_from cs [])
      else split_ws_from cs (cur @ c))"

definition split_whitespace :: "bytes \<Rightarrow> bytes list" where
  "split_whitespace s = split_ws_from (uchars s) []"

lemma split_ws_from_nonempty: "w \<in> set (split_ws_from cs cur) \<Longrightarrow> w \<noteq> []"
  by (induction cs cur rule: split_ws_from.induct) (auto split: if_splits)

lemma split_whitespace_nonempty: "w \<in> set (split_whitespace s) \<Longrightarrow> w \<noteq> []"
  by (simp add: split_whitespace_def split_ws_from_nonempty)

text \<open>\<open>str::lines\<close>: a line ends at a newline, and a carriage return before it goes too.\<close>

definition strip_cr :: "bytes \<Rightarrow> bytes" where
  "strip_cr l = (case strip_suffix [CHR 0x0D] l of Some t \<Rightarrow> t | None \<Rightarrow> l)"

fun lines_from :: "bytes \<Rightarrow> bytes \<Rightarrow> bytes list" where
  "lines_from [] cur = (if cur = [] then [] else [cur])"
| "lines_from (c # cs) cur =
     (if c = CHR 0x0A then strip_cr cur # lines_from cs [] else lines_from cs (cur @ [c]))"

definition lines :: "bytes \<Rightarrow> bytes list" where
  "lines s = lines_from s []"

text \<open>\<open>str::split\<close> and \<open>split_once\<close> on one ASCII character.\<close>

fun split_on_from :: "byte \<Rightarrow> bytes \<Rightarrow> bytes \<Rightarrow> bytes list" where
  "split_on_from d [] cur = [cur]"
| "split_on_from d (c # cs) cur =
     (if c = d then cur # split_on_from d cs [] else split_on_from d cs (cur @ [c]))"

definition split_on :: "byte \<Rightarrow> bytes \<Rightarrow> bytes list" where
  "split_on d s = split_on_from d s []"

definition split_once :: "byte \<Rightarrow> bytes \<Rightarrow> (bytes \<times> bytes) option" where
  "split_once d s = (if d \<in> set s
     then Some (takeWhile (\<lambda>c. c \<noteq> d) s, drop 1 (dropWhile (\<lambda>c. c \<noteq> d) s)) else None)"

lemma split_once_Some:
  "split_once d s = Some (a, b) \<longleftrightarrow> s = a @ d # b \<and> d \<notin> set a"
proof
  assume "split_once d s = Some (a, b)"
  then have in_s: "d \<in> set s" and a: "a = takeWhile (\<lambda>c. c \<noteq> d) s"
      and b: "b = drop 1 (dropWhile (\<lambda>c. c \<noteq> d) s)"
    by (auto simp: split_once_def split: if_splits)
  from in_s have "\<exists>r. dropWhile (\<lambda>c. c \<noteq> d) s = d # r"
    by (induction s) auto
  then obtain r where "dropWhile (\<lambda>c. c \<noteq> d) s = d # r" ..
  with a b have "s = a @ d # b"
    using takeWhile_dropWhile_id [of "\<lambda>c. c \<noteq> d" s] by simp
  moreover have "d \<notin> set a" using a by (auto dest: set_takeWhileD)
  ultimately show "s = a @ d # b \<and> d \<notin> set a" by simp
next
  assume "s = a @ d # b \<and> d \<notin> set a"
  then have s: "s = a @ d # b" and "d \<notin> set a" by auto
  then have "\<forall>x \<in> set a. x \<noteq> d" by auto
  then show "split_once d s = Some (a, b)"
    unfolding s by (simp add: split_once_def takeWhile_append2 dropWhile_append2)
qed

section \<open>Unsigned decimals\<close>

definition digit_val :: "byte \<Rightarrow> nat" where
  "digit_val b = of_char b - 0x30"

definition digits_val :: "bytes \<Rightarrow> nat" where
  "digits_val ds = foldl (\<lambda>n d. 10 * n + digit_val d) 0 ds"

text \<open>
  \<open>str::parse\<close> at an unsigned type of the given width: an optional \<open>+\<close>, then digits, none other,
  and no overflow.
\<close>

definition parse_uint :: "nat \<Rightarrow> bytes \<Rightarrow> nat option" where
  "parse_uint bits s =
     (let ds = (case s of c # r \<Rightarrow> if c = CHR ''+'' then r else s | [] \<Rightarrow> s) in
      if ds = [] \<or> \<not> list_all is_ascii_digit ds then None
      else if digits_val ds < 2 ^ bits then Some (digits_val ds) else None)"

text \<open>\<open>parse::<i32>\<close>: an optional sign, then digits, in range.\<close>

definition parse_i32 :: "string \<Rightarrow> int option" where
  "parse_i32 s =
     (let (neg, ds) = (case s of c # r \<Rightarrow> if c = CHR ''-'' then (True, r) else if c = CHR ''+'' then (False, r) else (False, s)
                       | [] \<Rightarrow> (False, [])) in
      if ds = [] \<or> \<not> list_all is_ascii_digit ds then None
      else let v = (if neg then - int (digits_val ds) else int (digits_val ds)) in
           if - (2 ^ 31) \<le> v \<and> v < 2 ^ 31 then Some v else None)"

lemma parse_uint_less: "parse_uint bits s = Some n \<Longrightarrow> n < 2 ^ bits"
  by (auto simp: parse_uint_def Let_def split: if_splits)

text \<open>\<open>format!("{}")\<close> of an unsigned integer.\<close>

definition digit_char :: "nat \<Rightarrow> byte" where
  "digit_char d = char_of (0x30 + d)"

function nat_to_string :: "nat \<Rightarrow> bytes" where
  "nat_to_string n = (if n < 10 then [digit_char n] else nat_to_string (n div 10) @ [digit_char (n mod 10)])"
  by pat_completeness auto
termination
  by (relation "measure (\<lambda>n. n)") auto

declare nat_to_string.simps [simp del]

lemma digit_char_digit: "d < 10 \<Longrightarrow> is_ascii_digit (digit_char d) \<and> digit_val (digit_char d) = d"
  by (simp add: digit_char_def is_ascii_digit_def byte_in_def digit_val_def)

lemma nat_to_string_digits: "nat_to_string n \<noteq> [] \<and> list_all is_ascii_digit (nat_to_string n)"
proof (induction n rule: nat_to_string.induct)
  case (1 n)
  then show ?case
    by (cases "n < 10") (simp_all add: nat_to_string.simps [of n] digit_char_digit)
qed

lemma digits_val_nat_to_string: "digits_val (nat_to_string n) = n"
proof (induction n rule: nat_to_string.induct)
  case (1 n)
  then show ?case
    by (cases "n < 10") (simp_all add: nat_to_string.simps [of n] digits_val_def digit_char_digit)
qed

lemma parse_nat_to_string:
  assumes "n < 2 ^ bits"
  shows "parse_uint bits (nat_to_string n) = Some n"
proof -
  obtain c r where cr: "nat_to_string n = c # r"
    using nat_to_string_digits [of n] by (cases "nat_to_string n") auto
  then have "is_ascii_digit c" using nat_to_string_digits [of n] by simp
  then have "c \<noteq> CHR ''+''" by (auto simp: is_ascii_digit_def byte_in_def)
  then show ?thesis
    using assms nat_to_string_digits [of n] digits_val_nat_to_string [of n]
    by (simp add: parse_uint_def cr)
qed

end
