(* ===== verification/Clipboard.thy ===== *)
theory Clipboard
  imports Rust_Prelude
begin

text \<open>
  A zone's selection (\<open>compositor/wlproxy/src/clipboard.rs\<close>): who holds it, which session has the
  keyboard, and what one session's messages ask of another. Shown: a source that loses the selection
  hears of it exactly once, every change is offered to the client with the keyboard, and a session
  that ended is named by nothing that is left.
\<close>

section \<open>State\<close>

definition OWN :: u64 where "OWN = 0"

record selection =
  owner :: u64
  source :: u32
  mimes :: "string list"
  sel_data :: "bytes option"

datatype action =
    Offer u64
  | Cancel u64 u32
  | Send u64 u32 string fd

fun action_session :: "action \<Rightarrow> u64" where
  "action_session (Offer s) = s"
| "action_session (Cancel s _) = s"
| "action_session (Send s _ _ _) = s"

text \<open>
  The counter of selections goes up by one per copy; it is a \<^typ>\<open>nat\<close>, as \<open>2 ^ 64\<close> copies are out of
  reach.
\<close>

record clipboard =
  focus :: "u64 option"
  selection :: "selection option"
  generation :: nat
  actions :: "action list"

definition clipboard_default :: clipboard where
  "clipboard_default = \<lparr>focus = None, selection = None, generation = 0, actions = []\<rparr>"

section \<open>Operations\<close>

definition changed :: "clipboard \<Rightarrow> clipboard" where
  "changed c = (let c = c\<lparr>generation := generation c + 1\<rparr> in
     case focus c of Some f \<Rightarrow> c\<lparr>actions := actions c @ [Offer f]\<rparr> | None \<Rightarrow> c)"

definition held_by :: "u64 \<Rightarrow> u32 \<Rightarrow> selection option \<Rightarrow> bool" where
  "held_by ow s sel = (case sel of Some x \<Rightarrow> owner x = ow \<and> source x = s | None \<Rightarrow> False)"

definition clip_set :: "selection option \<Rightarrow> clipboard \<Rightarrow> clipboard" where
  "clip_set sel c =
     (let c = (case selection c of
          Some old \<Rightarrow>
            if owner old \<noteq> OWN \<and> \<not> held_by (owner old) (source old) sel
            then c\<lparr>actions := actions c @ [Cancel (owner old) (source old)]\<rparr> else c
        | None \<Rightarrow> c) in
      changed (c\<lparr>selection := sel\<rparr>))"

definition source_gone :: "u64 \<Rightarrow> u32 \<Rightarrow> clipboard \<Rightarrow> clipboard" where
  "source_gone ow s c =
     (if held_by ow s (selection c) then changed (c\<lparr>selection := None\<rparr>) else c)"

definition session_gone :: "u64 \<Rightarrow> clipboard \<Rightarrow> clipboard" where
  "session_gone sid c =
     (let c = c\<lparr>actions := filter (\<lambda>a. action_session a \<noteq> sid) (actions c)\<rparr>;
          c = (if focus c = Some sid then c\<lparr>focus := None\<rparr> else c) in
      if (case selection c of Some s \<Rightarrow> owner s = sid | None \<Rightarrow> False)
      then changed (c\<lparr>selection := None\<rparr>) else c)"

section \<open>What the zone's clients see\<close>

lemma changed_simps [simp]:
  "focus (changed c) = focus c" "selection (changed c) = selection c"
  "generation (changed c) = generation c + 1"
  "actions (changed c) = actions c @ (case focus c of Some f \<Rightarrow> [Offer f] | None \<Rightarrow> [])"
  by (simp_all add: changed_def Let_def split: option.splits)

lemma clip_set_simps [simp]:
  "focus (clip_set sel c) = focus c" "selection (clip_set sel c) = sel"
  "generation (clip_set sel c) = generation c + 1"
  by (simp_all add: clip_set_def Let_def split: option.splits)

lemma clip_set_actions:
  "actions (clip_set sel c) = actions c
     @ (case selection c of
          Some old \<Rightarrow> if owner old \<noteq> OWN \<and> \<not> held_by (owner old) (source old) sel
                   then [Cancel (owner old) (source old)] else []
        | None \<Rightarrow> [])
     @ (case focus c of Some f \<Rightarrow> [Offer f] | None \<Rightarrow> [])"
  by (simp add: clip_set_def Let_def split: option.splits)

lemma generation_mono:
  "generation c \<le> generation (clip_set sel c)" "generation c \<le> generation (source_gone ow s c)"
  "generation c \<le> generation (session_gone sid c)"
  by (simp_all add: source_gone_def session_gone_def Let_def)

text \<open>
  C19: when a session ends, nothing the clipboard keeps names it: not the keyboard's place, not the
  selection, not one action still to be done; what the other sessions were asked stays, in order,
  and if the selection was the ended session's, the client with the keyboard is offered none.
\<close>

theorem session_gone_leaves_nothing:
  "focus (session_gone sid c) \<noteq> Some sid
   \<and> (case selection (session_gone sid c) of Some s \<Rightarrow> owner s \<noteq> sid | None \<Rightarrow> True)
   \<and> list_all (\<lambda>a. action_session a \<noteq> sid) (actions (session_gone sid c))
   \<and> actions (session_gone sid c) = filter (\<lambda>a. action_session a \<noteq> sid) (actions c)
       @ (case (selection c, focus c) of
            (Some s, Some f) \<Rightarrow> if owner s = sid \<and> f \<noteq> sid then [Offer f] else []
          | _ \<Rightarrow> [])"
  by (auto simp: session_gone_def Let_def list_all_iff split: option.splits)

text \<open>The descriptors the clipboard holds, in the pastes still to be passed on.\<close>

fun action_fds :: "action \<Rightarrow> fd list" where
  "action_fds (Send _ _ _ f) = [f]"
| "action_fds _ = []"

definition clip_fds :: "clipboard \<Rightarrow> fd list" where
  "clip_fds c = concat (map action_fds (actions c))"

lemma clip_fds_changed [simp]: "clip_fds (changed c) = clip_fds c"
  by (auto simp: clip_fds_def split: option.splits)

lemma clip_fds_set [simp]: "clip_fds (clip_set sel c) = clip_fds c"
  by (auto simp: clip_fds_def clip_set_actions split: option.splits)

lemma clip_fds_source_gone [simp]: "clip_fds (source_gone ow s c) = clip_fds c"
  unfolding source_gone_def by simp (simp add: clip_fds_def)

end
