(* ===== verification/Wire.thy ===== *)
theory Wire
  imports Rust_Str
begin

text \<open>
  The Wayland wire format of \<open>compositor/wlproxy/src/wire.rs\<close>: the message header, the sequential
  reader over a message body (\<open>ArgReader\<close>), and the builder of the messages the proxy writes itself
  (\<open>MessageWriter\<close>). The lemmas show that the reader never passes the end of its body, that a
  header that parses has a legal size, and that reading gives back what was written.
\<close>

section \<open>Constants, errors and the header\<close>

definition HEADER_LEN :: nat where "HEADER_LEN = 8"
definition MAX_MESSAGE_LEN :: nat where "MAX_MESSAGE_LEN = 4096"
definition SERVER_ID_BASE :: u32 where "SERVER_ID_BASE = 0xFF000000"

datatype wire_error =
    Truncated
  | BadSize u16
  | ArgOverrun
  | SecondNewId
  | UnterminatedString
  | NullString
  | NotUtf8
  | InteriorNul

text \<open>The error's \<open>Display\<close>, which a refused client is shown.\<close>

fun wire_error_fmt :: "wire_error \<Rightarrow> bytes" where
  "wire_error_fmt Truncated = ''message shorter than a header''"
| "wire_error_fmt (BadSize n) =
     ''illegal message size '' @ nat_to_string (unat n) @ '' (must be >= '' @ nat_to_string HEADER_LEN
       @ '', 4-byte aligned, and <= '' @ nat_to_string MAX_MESSAGE_LEN @ '')''"
| "wire_error_fmt ArgOverrun = ''argument runs past the end of the message''"
| "wire_error_fmt SecondNewId = ''message creates a second object''"
| "wire_error_fmt UnterminatedString = ''string is not NUL-terminated''"
| "wire_error_fmt NullString = ''null string where the signature requires one''"
| "wire_error_fmt NotUtf8 = ''string is not valid UTF-8''"
| "wire_error_fmt InteriorNul = ''string contains an interior NUL''"

record header =
  hd_object :: u32
  hd_opcode :: u16
  hd_size :: u16

definition header_parse :: "bytes \<Rightarrow> wire_error + header" where
  "header_parse buf =
     (if length buf < HEADER_LEN then Inl Truncated
      else
        let object = u32_from_ne (buf ! 0) (buf ! 1) (buf ! 2) (buf ! 3);
            word1 = u32_from_ne (buf ! 4) (buf ! 5) (buf ! 6) (buf ! 7);
            opcode = ucast (word1 AND 0xFFFF);
            size = ucast (drop_bit 16 word1)
        in if unat size < HEADER_LEN \<or> unat size mod 4 \<noteq> 0 \<or> MAX_MESSAGE_LEN < unat size
           then Inl (BadSize size)
           else Inr \<lparr>hd_object = object, hd_opcode = opcode, hd_size = size\<rparr>)"

definition header_encode :: "header \<Rightarrow> bytes" where
  "header_encode h =
     u32_to_ne (hd_object h) @ u32_to_ne (push_bit 16 (ucast (hd_size h)) OR ucast (hd_opcode h))"

section \<open>Reading arguments\<close>

record arg_reader =
  ar_body :: bytes
  ar_pos :: nat

definition ar_new :: "bytes \<Rightarrow> arg_reader" where
  "ar_new body = \<lparr>ar_body = body, ar_pos = 0\<rparr>"

definition ar_remaining :: "arg_reader \<Rightarrow> nat" where
  "ar_remaining r = length (ar_body r) - ar_pos r"

definition ar_is_empty :: "arg_reader \<Rightarrow> bool" where
  "ar_is_empty r = (ar_remaining r = 0)"

definition ar_take :: "nat \<Rightarrow> arg_reader \<Rightarrow> wire_error + (bytes \<times> arg_reader)" where
  "ar_take n r =
     bind_res (ok_or (usize_checked_add (ar_pos r) n) ArgOverrun) (\<lambda>end.
       if length (ar_body r) < end then Inl ArgOverrun
       else Inr (take n (drop (ar_pos r) (ar_body r)), r\<lparr>ar_pos := end\<rparr>))"

definition ar_u32 :: "arg_reader \<Rightarrow> wire_error + (u32 \<times> arg_reader)" where
  "ar_u32 r = bind_res (ar_take 4 r) (\<lambda>(w, r').
     Inr (u32_from_ne (w ! 0) (w ! 1) (w ! 2) (w ! 3), r'))"

definition pad4 :: "nat \<Rightarrow> nat option" where
  "pad4 n = map_option (\<lambda>x. x - x mod 4) (usize_checked_add n 3)"

text \<open>\<open>None\<close> is the protocol's null string (declared length 0).\<close>

definition ar_string :: "arg_reader \<Rightarrow> wire_error + (bytes option \<times> arg_reader)" where
  "ar_string r = bind_res (ar_u32 r) (\<lambda>(len, r1).
     let declared = unat len in
     if declared = 0 then Inr (None, r1)
     else bind_res (ok_or (pad4 declared) ArgOverrun) (\<lambda>padded.
       bind_res (ar_take padded r1) (\<lambda>(raw, r2).
         let body = take declared raw;
             text = take (declared - 1) body in
         if body = [] \<or> last body \<noteq> CHR 0x00 then Inl UnterminatedString
         else if CHR 0x00 \<in> set text then Inl InteriorNul
         else if \<not> from_utf8_ok text then Inl NotUtf8
         else Inr (Some text, r2))))"

definition ar_array :: "arg_reader \<Rightarrow> wire_error + (bytes \<times> arg_reader)" where
  "ar_array r = bind_res (ar_u32 r) (\<lambda>(len, r1).
     bind_res (ok_or (pad4 (unat len)) ArgOverrun) (\<lambda>padded.
       bind_res (ar_take padded r1) (\<lambda>(raw, r2). Inr (take (unat len) raw, r2))))"

section \<open>Writing messages\<close>

record message_writer =
  mw_object :: u32
  mw_opcode :: u16
  mw_body :: bytes

definition mw_new :: "u32 \<Rightarrow> u16 \<Rightarrow> message_writer" where
  "mw_new object opcode = \<lparr>mw_object = object, mw_opcode = opcode, mw_body = []\<rparr>"

definition mw_u32 :: "u32 \<Rightarrow> message_writer \<Rightarrow> message_writer" where
  "mw_u32 v w = w\<lparr>mw_body := mw_body w @ u32_to_ne v\<rparr>"

text \<open>The padding loop of \<open>MessageWriter::string\<close>.\<close>

function pad_body :: "bytes \<Rightarrow> bytes" where
  "pad_body b = (if length b mod 4 = 0 then b else pad_body (b @ [CHR 0x00]))"
  by pat_completeness auto
termination
proof (relation "measure (\<lambda>b. (4 - length b mod 4) mod 4)")
  fix b :: bytes
  assume "length b mod 4 \<noteq> 0"
  moreover have "length b mod 4 < 4" by simp
  ultimately consider "length b mod 4 = 1" | "length b mod 4 = 2" | "length b mod 4 = 3"
    by linarith
  then have "(4 - Suc (length b) mod 4) mod 4 < (4 - length b mod 4) mod 4"
    by cases (simp_all add: mod_Suc)
  then show "(b @ [CHR 0x00], b) \<in> measure (\<lambda>b. (4 - length b mod 4) mod 4)"
    by simp
qed simp

declare pad_body.simps [simp del]

definition mw_string :: "bytes \<Rightarrow> message_writer \<Rightarrow> message_writer" where
  "mw_string s w =
     w\<lparr>mw_body := pad_body (mw_body w @ u32_to_ne (of_nat (length s + 1)) @ s @ [CHR 0x00])\<rparr>"

definition mw_finish :: "message_writer \<Rightarrow> bytes option" where
  "mw_finish w =
     (let size = HEADER_LEN + length (mw_body w) in
      if MAX_MESSAGE_LEN < size \<or> 65535 < size then None
      else Some (header_encode \<lparr>hd_object = mw_object w, hd_opcode = mw_opcode w, hd_size = of_nat size\<rparr>
                   @ mw_body w))"

section \<open>The header\<close>

text \<open>The legal sizes, the check \<open>Header::parse\<close> makes.\<close>

definition size_ok :: "nat \<Rightarrow> bool" where
  "size_ok n \<longleftrightarrow> HEADER_LEN \<le> n \<and> n mod 4 = 0 \<and> n \<le> MAX_MESSAGE_LEN"

lemma word1_split:
  fixes op :: u16 and sz :: u16
  defines "w \<equiv> (push_bit 16 (ucast sz) OR ucast op :: u32)"
  shows "ucast (w AND 0xFFFF) = op" "ucast (drop_bit 16 w) = sz"
proof -
  have mask: "(0xFFFF :: u32) = mask 16" by (simp add: mask_eq_exp_minus_1)
  show "ucast (w AND 0xFFFF) = op"
    unfolding w_def mask
    by (rule bit_word_eqI) (auto simp: bit_simps)
  show "ucast (drop_bit 16 w) = sz"
    unfolding w_def
    by (rule bit_word_eqI) (auto simp: bit_simps dest: bit_imp_le_length)
qed

lemma word1_join:
  fixes w :: u32
  shows "push_bit 16 (ucast (ucast (drop_bit 16 w) :: u16)) OR ucast (ucast (w AND 0xFFFF) :: u16) = w"
proof -
  have mask: "(0xFFFF :: u32) = mask 16" by (simp add: mask_eq_exp_minus_1)
  show ?thesis
    unfolding mask
    by (rule bit_word_eqI) (auto simp: bit_simps not_less)
qed

lemma u32_at_front:
  "u32_from_ne ((u32_to_ne v @ t) ! 0) ((u32_to_ne v @ t) ! 1) ((u32_to_ne v @ t) ! 2)
     ((u32_to_ne v @ t) ! 3) = v"
proof -
  obtain a b c d where bs: "u32_to_ne v = [a, b, c, d]"
    by (simp add: u32_to_ne_def Let_def)
  then show ?thesis by (simp add: u32_from_to_ne numeral_eq_Suc)
qed

lemma length_header_encode [simp]: "length (header_encode h) = HEADER_LEN"
  by (simp add: header_encode_def HEADER_LEN_def)

lemma header_parse_encode:
  assumes "size_ok (unat (hd_size h))"
  shows "header_parse (header_encode h @ t) = Inr h"
proof -
  define w where "w = (push_bit 16 (ucast (hd_size h)) OR ucast (hd_opcode h) :: u32)"
  define buf where "buf = header_encode h @ t"
  have buf: "buf = u32_to_ne (hd_object h) @ u32_to_ne w @ t"
    by (simp add: buf_def header_encode_def w_def)
  have obj: "u32_from_ne (buf ! 0) (buf ! 1) (buf ! 2) (buf ! 3) = hd_object h"
    unfolding buf by (rule u32_at_front)
  have nth: "buf ! (4 + k) = (u32_to_ne w @ t) ! k" for k
    unfolding buf by (simp add: nth_append)
  have wrd: "u32_from_ne (buf ! 4) (buf ! 5) (buf ! 6) (buf ! 7) = w"
    using u32_at_front [of w t] nth [of 0] nth [of 1] nth [of 2] nth [of 3] by simp
  have "\<not> length buf < HEADER_LEN" by (simp add: buf_def)
  then show ?thesis
    using assms word1_split [of "hd_size h" "hd_opcode h"]
    unfolding header_parse_def buf_def [symmetric]
    by (simp add: obj [unfolded One_nat_def] wrd Let_def size_ok_def w_def [symmetric])
qed

lemma header_parse_size:
  "header_parse buf = Inr h \<Longrightarrow> size_ok (unat (hd_size h)) \<and> HEADER_LEN \<le> length buf"
  by (auto simp: header_parse_def size_ok_def Let_def split: if_splits)

lemma list8: "8 \<le> length xs \<Longrightarrow> take 8 xs =
  [xs ! 0, xs ! 1, xs ! 2, xs ! 3, xs ! 4, xs ! 5, xs ! 6, xs ! 7]"
proof -
  assume "8 \<le> length xs"
  then obtain a b c d e f g h r where "xs = a # b # c # d # e # f # g # h # r"
    by (auto simp: numeral_eq_Suc Suc_le_length_iff)
  then show ?thesis by simp
qed

lemma header_encode_parse:
  assumes "header_parse buf = Inr h"
  shows "header_encode h = take HEADER_LEN buf"
proof -
  have len: "8 \<le> length buf" using header_parse_size [OF assms] by (simp add: HEADER_LEN_def)
  have obj: "u32_to_ne (hd_object h) = [buf ! 0, buf ! 1, buf ! 2, buf ! 3]"
    using assms by (auto simp: header_parse_def Let_def u32_to_from_ne split: if_splits)
  have "u32_to_ne (push_bit 16 (ucast (hd_size h)) OR ucast (hd_opcode h))
          = [buf ! 4, buf ! 5, buf ! 6, buf ! 7]"
    using assms by (auto simp: header_parse_def Let_def word1_join u32_to_from_ne split: if_splits)
  with obj show ?thesis
    using list8 [OF len] by (simp add: header_encode_def HEADER_LEN_def)
qed

section \<open>The reader stays inside its body\<close>

text \<open>
  What every reader method keeps: the position lies in the body. A slice is at most \<open>isize::MAX\<close>
  bytes, so no position the reader reaches wraps.
\<close>

definition ar_ok :: "arg_reader \<Rightarrow> bool" where
  "ar_ok r \<longleftrightarrow> ar_pos r \<le> length (ar_body r) \<and> length (ar_body r) < 2 ^ 63"

lemma ar_ok_new [simp]: "ar_ok (ar_new body) \<longleftrightarrow> length body < 2 ^ 63"
  by (simp add: ar_ok_def ar_new_def)

lemma ar_take_eq:
  assumes "ar_ok r"
  shows "ar_take n r =
    (if n \<le> ar_remaining r
     then Inr (take n (drop (ar_pos r) (ar_body r)), r\<lparr>ar_pos := ar_pos r + n\<rparr>)
     else Inl ArgOverrun)"
proof (cases "n \<le> ar_remaining r")
  case True
  with assms have "ar_pos r + n < 2 ^ 64" "\<not> length (ar_body r) < ar_pos r + n"
    by (auto simp: ar_ok_def ar_remaining_def)
  then show ?thesis using True by (simp add: ar_take_def usize_checked_add_def)
next
  case False
  with assms have "length (ar_body r) < ar_pos r + n"
    by (auto simp: ar_ok_def ar_remaining_def)
  then show ?thesis
    using False by (auto simp: ar_take_def usize_checked_add_def)
qed

text \<open>
  \<open>starts r p\<close>: the unread bytes begin with \<open>p\<close>; \<open>adv r n\<close>: the reader \<open>n\<close> bytes on. Each method is
  characterised by what the unread bytes begin with.
\<close>

definition starts :: "arg_reader \<Rightarrow> bytes \<Rightarrow> bool" where
  "starts r p \<longleftrightarrow> (\<exists>post. drop (ar_pos r) (ar_body r) = p @ post)"

definition adv :: "arg_reader \<Rightarrow> nat \<Rightarrow> arg_reader" where
  "adv r n = r\<lparr>ar_pos := ar_pos r + n\<rparr>"

lemma starts_length: "starts r p \<Longrightarrow> length p \<le> ar_remaining r"
  unfolding starts_def ar_remaining_def by (metis length_append length_drop le_add1)

lemma starts_take: "starts r p \<Longrightarrow> take (length p) (drop (ar_pos r) (ar_body r)) = p"
  by (auto simp: starts_def)

lemma ar_ok_adv: "ar_ok r \<Longrightarrow> starts r p \<Longrightarrow> ar_ok (adv r (length p))"
  using starts_length [of r p] by (auto simp: ar_ok_def adv_def ar_remaining_def)

lemma starts_append: "starts r (p @ q) \<longleftrightarrow> starts r p \<and> starts (adv r (length p)) q"
proof
  assume "starts r (p @ q)"
  then obtain post where "drop (ar_pos r) (ar_body r) = p @ q @ post" by (auto simp: starts_def)
  moreover from this have "drop (ar_pos r + length p) (ar_body r) = q @ post"
    by (metis add.commute append_eq_conv_conj drop_drop)
  ultimately show "starts r p \<and> starts (adv r (length p)) q" by (auto simp: starts_def adv_def)
next
  assume "starts r p \<and> starts (adv r (length p)) q"
  then obtain s t where s: "drop (ar_pos r) (ar_body r) = p @ s"
      and t: "drop (ar_pos r + length p) (ar_body r) = q @ t"
    by (auto simp: starts_def adv_def)
  from s t have "s = q @ t" by (metis add.commute append_eq_conv_conj drop_drop)
  with s show "starts r (p @ q)" by (simp add: starts_def)
qed

lemma adv_adv [simp]: "adv (adv r m) n = adv r (m + n)"
  by (simp add: adv_def add.assoc)

lemma ar_body_adv [simp]: "ar_body (adv r n) = ar_body r" "ar_pos (adv r n) = ar_pos r + n"
  by (simp_all add: adv_def)

lemma ar_take_iff:
  assumes "ar_ok r"
  shows "ar_take n r = Inr (w, r') \<longleftrightarrow> starts r w \<and> length w = n \<and> r' = adv r n"
proof
  assume "ar_take n r = Inr (w, r')"
  then have "n \<le> ar_remaining r" "w = take n (drop (ar_pos r) (ar_body r))" "r' = adv r n"
    using ar_take_eq [OF assms, of n] by (auto simp: adv_def split: if_splits)
  then show "starts r w \<and> length w = n \<and> r' = adv r n"
    by (metis append_take_drop_id ar_remaining_def length_drop length_take min.absorb2 starts_def)
next
  assume "starts r w \<and> length w = n \<and> r' = adv r n"
  then show "ar_take n r = Inr (w, r')"
    using starts_length [of r w] starts_take [of r w] ar_take_eq [OF assms, of n]
    by (auto simp: adv_def)
qed

lemma ar_u32_iff:
  assumes "ar_ok r"
  shows "ar_u32 r = Inr (v, r') \<longleftrightarrow> starts r (u32_to_ne v) \<and> r' = adv r 4"
proof
  assume "ar_u32 r = Inr (v, r')"
  then obtain w where w: "ar_take 4 r = Inr (w, r')" and v: "v = u32_from_ne (w ! 0) (w ! 1) (w ! 2) (w ! 3)"
    by (auto simp: ar_u32_def bind_res_eq_Inr)
  then have "starts r w" "length w = 4" "r' = adv r 4" by (auto simp: ar_take_iff [OF assms])
  moreover from \<open>length w = 4\<close> obtain a b c d where "w = [a, b, c, d]"
    by (auto simp: numeral_eq_Suc length_Suc_conv)
  ultimately show "starts r (u32_to_ne v) \<and> r' = adv r 4"
    using v by (simp add: u32_to_from_ne)
next
  assume "starts r (u32_to_ne v) \<and> r' = adv r 4"
  then have "ar_take 4 r = Inr (u32_to_ne v, r')" by (simp add: ar_take_iff [OF assms])
  then show "ar_u32 r = Inr (v, r')"
    using u32_at_front [of v "[]"] by (simp add: ar_u32_def)
qed

text \<open>The encodings of a string and of an array: the length word, the bytes, the padding.\<close>

definition string_bytes :: "bytes \<Rightarrow> bytes \<Rightarrow> bool" where
  "string_bytes s p \<longleftrightarrow> CHR 0x00 \<notin> set s \<and> from_utf8_ok s \<and> length s + 1 < 2 ^ 32 \<and>
     (\<exists>pad. p = u32_to_ne (of_nat (length s + 1)) @ (s @ [CHR 0x00] @ pad)
        \<and> pad4 (length s + 1) = Some (length (s @ [CHR 0x00] @ pad)))"

definition array_bytes :: "bytes \<Rightarrow> bytes \<Rightarrow> bool" where
  "array_bytes a p \<longleftrightarrow> length a < 2 ^ 32 \<and>
     (\<exists>pad. p = u32_to_ne (of_nat (length a)) @ (a @ pad) \<and> pad4 (length a) = Some (length (a @ pad)))"

lemma pad4_ge: "pad4 n = Some p \<Longrightarrow> n \<le> p"
proof -
  assume "pad4 n = Some p"
  then have "p = n + 3 - (n + 3) mod 4" by (auto simp: pad4_def)
  moreover have "(n + 3) mod 4 \<le> 3" using mod_less_divisor [of 4 "n + 3"] by linarith
  ultimately show ?thesis by linarith
qed

lemma unat_u32_less: "unat (w :: u32) < 2 ^ 32"
  using unsigned_less [of w] by simp

lemma ar_string_null_iff:
  assumes "ar_ok r"
  shows "ar_string r = Inr (None, r') \<longleftrightarrow> starts r (u32_to_ne 0) \<and> r' = adv r 4"
  by (auto simp: ar_string_def bind_res_eq_Inr ar_u32_iff [OF assms] Let_def unat_eq_zero
      split: if_splits)

lemma ar_string_iff:
  assumes ok: "ar_ok r"
  shows "ar_string r = Inr (Some s, r') \<longleftrightarrow>
    (\<exists>p. string_bytes s p \<and> starts r p \<and> r' = adv r (length p))"
proof
  assume "ar_string r = Inr (Some s, r')"
  then obtain len padded raw where
      len: "ar_u32 r = Inr (len, adv r 4)" "starts r (u32_to_ne len)" "unat len \<noteq> 0"
      and pad: "pad4 (unat len) = Some padded"
      and raw: "ar_take padded (adv r 4) = Inr (raw, r')"
      and body: "take (unat len) raw \<noteq> []" "last (take (unat len) raw) = CHR 0x00"
      and s: "s = take (unat len - 1) (take (unat len) raw)" "CHR 0x00 \<notin> set s" "from_utf8_ok s"
    by (auto simp: ar_string_def bind_res_eq_Inr ar_u32_iff [OF ok] ok_or_eq_Inr Let_def
        split: if_splits)
  have ok4: "ar_ok (adv r 4)" using ar_ok_adv [OF ok len(2)] by simp
  have raw': "starts (adv r 4) raw" "length raw = padded" "r' = adv (adv r 4) padded"
    using raw by (auto simp: ar_take_iff [OF ok4])
  have le: "unat len \<le> length raw" using pad4_ge [OF pad] raw'(2) by simp
  then have blen: "length (take (unat len) raw) = unat len" by simp
  have "take (unat len) raw = s @ [CHR 0x00]"
    using body blen s(1) len(3) by (metis append_butlast_last_id butlast_conv_take)
  then have split: "raw = s @ [CHR 0x00] @ drop (unat len) raw"
    using append_take_drop_id [of "unat len" raw] by simp
  have ls: "length s + 1 = unat len" using s(1) blen len(3) by simp
  have "string_bytes s (u32_to_ne len @ raw)"
    unfolding string_bytes_def
    unfolding ls using s(2,3) unat_u32_less [of len] split pad raw'(2)
    by (intro conjI exI [of _ "drop (unat len) raw"]) simp_all
  moreover have "starts r (u32_to_ne len @ raw)"
    using len(2) raw'(1) by (simp add: starts_append)
  moreover have "r' = adv r (length (u32_to_ne len @ raw))"
    using raw' by simp
  ultimately show "\<exists>p. string_bytes s p \<and> starts r p \<and> r' = adv r (length p)" by blast
next
  assume "\<exists>p. string_bytes s p \<and> starts r p \<and> r' = adv r (length p)"
  then obtain p where p: "string_bytes s p" "starts r p" "r' = adv r (length p)" by blast
  then obtain pad where pp: "p = u32_to_ne (of_nat (length s + 1)) @ (s @ [CHR 0x00] @ pad)"
      and p4: "pad4 (length s + 1) = Some (length (s @ [CHR 0x00] @ pad))"
      and s: "CHR 0x00 \<notin> set s" "from_utf8_ok s" "length s + 1 < 2 ^ 32"
    by (auto simp: string_bytes_def)
  let ?raw = "s @ [CHR 0x00] @ pad"
  have st: "starts r (u32_to_ne (of_nat (length s + 1)))" "starts (adv r 4) ?raw"
    using p(2) unfolding pp starts_append by simp_all
  have ok4: "ar_ok (adv r 4)" using ar_ok_adv [OF ok st(1)] by simp
  have u: "ar_u32 r = Inr (of_nat (length s + 1), adv r 4)"
    using st(1) by (simp only: ar_u32_iff [OF ok])
  have un: "unat (of_nat (length s + 1) :: u32) = length s + 1"
    by (rule unat_of_nat_small) (use s(3) in simp)
  have t: "ar_take (length ?raw) (adv r 4) = Inr (?raw, r')"
    using st(2) p(3) by (simp add: ar_take_iff [OF ok4] pp)
  show "ar_string r = Inr (Some s, r')"
    using s by (simp only: ar_string_def u bind_res_Inr case_prod_conv un p4 ok_or_simps Let_def t) simp
qed

lemma ar_array_iff:
  assumes ok: "ar_ok r"
  shows "ar_array r = Inr (a, r') \<longleftrightarrow>
    (\<exists>p. array_bytes a p \<and> starts r p \<and> r' = adv r (length p))"
proof
  assume "ar_array r = Inr (a, r')"
  then obtain len padded raw where
      len: "starts r (u32_to_ne len)"
      and pad: "pad4 (unat len) = Some padded"
      and raw: "ar_take padded (adv r 4) = Inr (raw, r')" and a: "a = take (unat len) raw"
    by (auto simp: ar_array_def bind_res_eq_Inr ar_u32_iff [OF ok] ok_or_eq_Inr)
  have ok4: "ar_ok (adv r 4)" using ar_ok_adv [OF ok len] by simp
  have raw': "starts (adv r 4) raw" "length raw = padded" "r' = adv (adv r 4) padded"
    using raw by (auto simp: ar_take_iff [OF ok4])
  have la: "length a = unat len" using a pad4_ge [OF pad] raw'(2) by simp
  have "array_bytes a (u32_to_ne len @ raw)"
    unfolding array_bytes_def
    using la unat_u32_less [of len] pad raw'(2) a
    by (auto intro!: exI [of _ "drop (unat len) raw"])
  moreover have "starts r (u32_to_ne len @ raw)"
    using len raw'(1) by (simp add: starts_append)
  ultimately show "\<exists>p. array_bytes a p \<and> starts r p \<and> r' = adv r (length p)"
    using raw' by (intro exI [of _ "u32_to_ne len @ raw"]) simp
next
  assume "\<exists>p. array_bytes a p \<and> starts r p \<and> r' = adv r (length p)"
  then obtain p pad where p: "starts r p" "r' = adv r (length p)"
      and pp: "p = u32_to_ne (of_nat (length a)) @ (a @ pad)"
      and p4: "pad4 (length a) = Some (length (a @ pad))" and la: "length a < 2 ^ 32"
    by (auto simp: array_bytes_def)
  have st: "starts r (u32_to_ne (of_nat (length a)))" "starts (adv r 4) (a @ pad)"
    using p(1) unfolding pp starts_append by simp_all
  have ok4: "ar_ok (adv r 4)" using ar_ok_adv [OF ok st(1)] by simp
  have u: "ar_u32 r = Inr (of_nat (length a), adv r 4)"
    using st(1) by (simp only: ar_u32_iff [OF ok])
  have un: "unat (of_nat (length a) :: u32) = length a"
    by (rule unat_of_nat_small) (use la in simp)
  have t: "ar_take (length (a @ pad)) (adv r 4) = Inr (a @ pad, r')"
    using st(2) p(2) by (simp add: ar_take_iff [OF ok4] pp)
  show "ar_array r = Inr (a, r')"
    by (simp only: ar_array_def u bind_res_Inr case_prod_conv un p4 ok_or_simps t) simp
qed

text \<open>The contract of a reader method, as the decoder of a message relies on it.\<close>

locale bounded_read =
  fixes get :: "arg_reader \<Rightarrow> wire_error + ('a \<times> arg_reader)"
  assumes keeps: "ar_ok r \<Longrightarrow> get r = Inr (v, r') \<Longrightarrow>
    ar_ok r' \<and> ar_body r' = ar_body r \<and> ar_pos r \<le> ar_pos r'"
begin

lemma remaining_le: "ar_ok r \<Longrightarrow> get r = Inr (v, r') \<Longrightarrow> ar_remaining r' \<le> ar_remaining r"
  using keeps [of r v r'] by (auto simp: ar_remaining_def)

lemma offset_mono:
  "ar_ok r \<Longrightarrow> get r = Inr (v, r') \<Longrightarrow>
     length (ar_body r) - ar_remaining r \<le> length (ar_body r') - ar_remaining r'"
  using keeps [of r v r'] by (auto simp: ar_remaining_def ar_ok_def)

end

text \<open>Reading twice is again such a method.\<close>

lemma bounded_read_bind:
  assumes "bounded_read g" and "\<And>v. bounded_read (h v)"
  shows "bounded_read (\<lambda>r. bind_res (g r) (\<lambda>(v, r'). h v r'))"
proof
  fix r v r'
  assume ok: "ar_ok r" and eq: "bind_res (g r) (\<lambda>(v, r'). h v r') = Inr (v, r')"
  from eq obtain u r1 where g: "g r = Inr (u, r1)" and h: "h u r1 = Inr (v, r')"
    by (auto simp: bind_res_eq_Inr)
  from bounded_read.keeps [OF assms(1) ok g] have r1: "ar_ok r1" "ar_body r1 = ar_body r"
      "ar_pos r \<le> ar_pos r1" by auto
  from bounded_read.keeps [OF assms(2) r1(1) h] r1
  show "ar_ok r' \<and> ar_body r' = ar_body r \<and> ar_pos r \<le> ar_pos r'" by auto
qed

lemma bounded_read_bind_val:
  assumes "\<And>v. bounded_read (h v)"
  shows "bounded_read (\<lambda>r. bind_res x (\<lambda>v. h v r))"
proof
  fix r v r'
  assume "ar_ok r" and "bind_res x (\<lambda>v. h v r) = Inr (v, r')"
  then show "ar_ok r' \<and> ar_body r' = ar_body r \<and> ar_pos r \<le> ar_pos r'"
    using bounded_read.keeps [OF assms] by (auto simp: bind_res_eq_Inr)
qed

interpretation rd_take: bounded_read "ar_take n" for n
  by unfold_locales (auto simp: ar_take_eq ar_ok_def ar_remaining_def split: if_splits)

lemma bounded_read_return: "bounded_read (\<lambda>r. Inr (v, r))"
  by unfold_locales auto

lemma bounded_read_fail: "bounded_read (\<lambda>r. Inl e)"
  by unfold_locales auto

interpretation rd_u32: bounded_read ar_u32
  unfolding ar_u32_def
  by (rule bounded_read_bind [OF rd_take.bounded_read_axioms bounded_read_return])

interpretation rd_array: bounded_read ar_array
  unfolding ar_array_def
  by (intro bounded_read_bind [OF rd_u32.bounded_read_axioms] bounded_read_bind_val
      bounded_read_bind [OF rd_take.bounded_read_axioms bounded_read_return])

lemma bounded_read_if: "bounded_read f \<Longrightarrow> bounded_read g \<Longrightarrow> bounded_read (\<lambda>r. if b then f r else g r)"
  by (cases b) simp_all

interpretation rd_string: bounded_read ar_string
  unfolding ar_string_def Let_def
  by (intro bounded_read_bind [OF rd_u32.bounded_read_axioms] bounded_read_if bounded_read_return
      bounded_read_bind_val bounded_read_bind [OF rd_take.bounded_read_axioms] bounded_read_fail)

section \<open>Reading back what was written\<close>

definition mw_aligned :: "message_writer \<Rightarrow> bool" where
  "mw_aligned w \<longleftrightarrow> length (mw_body w) mod 4 = 0"

lemma pad_amount: "n + (4 - n mod 4) mod 4 = n + 3 - (n + 3) mod 4" for n :: nat
proof -
  obtain q m where n: "n = m + 4 * q" and "m < 4"
    using mod_mult_div_eq [of n 4] mod_less_divisor [of 4 n] by (metis zero_less_numeral)
  from \<open>m < 4\<close> consider "m = 0" | "m = 1" | "m = 2" | "m = 3" by linarith
  then show ?thesis
  proof cases
    case 1 then show ?thesis by (simp add: n)
  next
    case 2
    have "(4 + 4 * q) mod 4 = 0" by simp
    with 2 show ?thesis by (simp add: n mod_mult_self2)
  next
    case 3
    have "(5 + 4 * q) mod 4 = 5 mod 4" by (rule mod_mult_self2)
    moreover have "(2 + 4 * q) mod 4 = 2 mod 4" by (rule mod_mult_self2)
    ultimately show ?thesis using 3 by (simp add: n)
  next
    case 4
    have "(6 + 4 * q) mod 4 = 6 mod 4" by (rule mod_mult_self2)
    moreover have "(3 + 4 * q) mod 4 = 3 mod 4" by (rule mod_mult_self2)
    ultimately show ?thesis using 4 by (simp add: n)
  qed
qed

lemma pad4_Some: "pad4 n = Some p \<longleftrightarrow> n + 3 < 2 ^ 64 \<and> p = n + (4 - n mod 4) mod 4"
  by (auto simp: pad4_def pad_amount)

lemma pad_round: "(n + (4 - n mod 4) mod 4) mod 4 = 0" for n :: nat
  unfolding pad_amount by (simp add: minus_mod_eq_mult_div)

lemma pad4_bounds: "pad4 n = Some p \<Longrightarrow> n \<le> p \<and> p < n + 4 \<and> p mod 4 = 0"
  using pad_round [of n] by (auto simp: pad4_Some)

lemma pad_body_eq: "pad_body b = b @ replicate ((4 - length b mod 4) mod 4) (CHR 0x00)"
proof (induction b rule: pad_body.induct)
  case (1 b)
  show ?case
  proof (cases "length b mod 4 = 0")
    case True
    then show ?thesis by (simp add: pad_body.simps [of b])
  next
    case False
    moreover have "length b mod 4 < 4" by simp
    ultimately consider "length b mod 4 = 1" | "length b mod 4 = 2" | "length b mod 4 = 3"
      by linarith
    then have "(4 - length b mod 4) mod 4 = Suc ((4 - Suc (length b) mod 4) mod 4)"
      by cases (simp_all add: mod_Suc)
    with "1.IH" [OF False] show ?thesis
      using False by (simp add: pad_body.simps [of b] append_Cons [symmetric] del: append_Cons)
  qed
qed

text \<open>
  A kind of argument the proxy writes and reads: what the writer appends, and that the reader
  takes exactly that.
\<close>

locale wire_codec = bounded_read get
  for get :: "arg_reader \<Rightarrow> wire_error + ('a \<times> arg_reader)" +
  fixes put :: "'a \<Rightarrow> message_writer \<Rightarrow> message_writer"
    and enc :: "'a \<Rightarrow> bytes"
    and writable :: "'a \<Rightarrow> bool"
  assumes put_eq: "mw_aligned w \<Longrightarrow> put v w = w\<lparr>mw_body := mw_body w @ enc v\<rparr>"
    and enc_aligned: "length (enc v) mod 4 = 0"
    and get_enc: "ar_ok r \<Longrightarrow> writable v \<Longrightarrow> starts r (enc v) \<Longrightarrow>
      get r = Inr (v, adv r (length (enc v)))"
begin

lemma put_aligned: "mw_aligned w \<Longrightarrow> mw_aligned (put v w)"
  using put_eq [of w v] enc_aligned [of v] by (auto simp: mw_aligned_def mod_add_eq [symmetric])

lemma get_put:
  assumes "mw_aligned w" and "writable v" and "length (mw_body (put v w) @ post) < 2 ^ 63"
  shows "get \<lparr>ar_body = mw_body (put v w) @ post, ar_pos = length (mw_body w)\<rparr>
    = Inr (v, \<lparr>ar_body = mw_body (put v w) @ post, ar_pos = length (mw_body (put v w))\<rparr>)"
  using assms by (subst get_enc) (auto simp: put_eq ar_ok_def starts_def adv_def)

end

interpretation u32_codec: wire_codec ar_u32 mw_u32 u32_to_ne "\<lambda>_. True"
  by unfold_locales (simp_all add: mw_u32_def ar_u32_iff)

definition string_enc :: "bytes \<Rightarrow> bytes" where
  "string_enc s = pad_body (u32_to_ne (of_nat (length s + 1)) @ s @ [CHR 0x00])"

definition string_writable :: "bytes \<Rightarrow> bool" where
  "string_writable s \<longleftrightarrow> CHR 0x00 \<notin> set s \<and> from_utf8_ok s \<and> length s + 1 < 2 ^ 32"

lemma pad_body_aligned: "length (pad_body b) mod 4 = 0"
  using pad_round [of "length b"] by (simp add: pad_body_eq)

lemma pad_body_append: "length a mod 4 = 0 \<Longrightarrow> pad_body (a @ b) = a @ pad_body b"
  by (simp add: pad_body_eq mod_add_eq [symmetric])

text \<open>A string read where the protocol allows no null.\<close>

definition ar_string_nn :: "arg_reader \<Rightarrow> wire_error + (bytes \<times> arg_reader)" where
  "ar_string_nn r = bind_res (ar_string r) (\<lambda>(s, r'). bind_res (ok_or s NullString) (\<lambda>t. Inr (t, r')))"

interpretation rd_string_nn: bounded_read ar_string_nn
  unfolding ar_string_nn_def
  by (intro bounded_read_bind [OF rd_string.bounded_read_axioms] bounded_read_bind_val
      bounded_read_return)

lemma string_bytes_enc: "string_writable s \<Longrightarrow> string_bytes s (string_enc s)"
proof -
  assume w: "string_writable s"
  define n where "n = (4 - (length s + 1) mod 4) mod 4"
  have "string_enc s = u32_to_ne (of_nat (length s + 1)) @ pad_body (s @ [CHR 0x00])"
    unfolding string_enc_def by (rule pad_body_append) simp
  also have "\<dots> = u32_to_ne (of_nat (length s + 1)) @ (s @ [CHR 0x00] @ replicate n (CHR 0x00))"
    by (simp add: pad_body_eq n_def)
  finally show ?thesis
    using w unfolding string_bytes_def string_writable_def
    by (auto simp: pad4_Some n_def)
qed

interpretation string_codec: wire_codec ar_string_nn mw_string string_enc string_writable
proof unfold_locales
  fix w :: message_writer and v :: bytes
  assume "mw_aligned w"
  then show "mw_string v w = w\<lparr>mw_body := mw_body w @ string_enc v\<rparr>"
    by (simp add: mw_string_def string_enc_def mw_aligned_def pad_body_append)
next
  fix v :: bytes
  show "length (string_enc v) mod 4 = 0"
    by (simp add: string_enc_def pad_body_aligned)
next
  fix v :: bytes and r :: arg_reader
  assume "ar_ok r" "string_writable v" "starts r (string_enc v)"
  then have "ar_string r = Inr (Some v, adv r (length (string_enc v)))"
    using string_bytes_enc [of v] by (auto simp: ar_string_iff)
  then show "ar_string_nn r = Inr (v, adv r (length (string_enc v)))"
    by (simp add: ar_string_nn_def)
qed

section \<open>Finished messages\<close>

lemma mw_aligned_new [simp]: "mw_aligned (mw_new object opcode)"
  by (simp add: mw_aligned_def mw_new_def)

lemma mw_finish_Some:
  "mw_finish w = Some m \<longleftrightarrow> HEADER_LEN + length (mw_body w) \<le> MAX_MESSAGE_LEN \<and>
     m = header_encode \<lparr>hd_object = mw_object w, hd_opcode = mw_opcode w,
           hd_size = of_nat (HEADER_LEN + length (mw_body w))\<rparr> @ mw_body w"
  by (auto simp: mw_finish_def Let_def MAX_MESSAGE_LEN_def)

lemma mw_string_len: "length (mw_body (mw_string s w)) \<le> length (mw_body w) + length s + 8"
proof -
  have "length (pad_body b) \<le> length b + 3" for b
    using mod_less_divisor [of 4 "4 - length b mod 4"] by (simp add: pad_body_eq)
  from this [of "mw_body w @ u32_to_ne (of_nat (length s + 1)) @ s @ [CHR 0x00]"] show ?thesis
    by (simp add: mw_string_def)
qed

lemma mw_finish_length: "mw_finish w = Some m \<Longrightarrow> length m = HEADER_LEN + length (mw_body w)"
  by (auto simp: mw_finish_Some)

text \<open>
  A header that \<open>Header::parse\<close> accepts has a legal size, and encoding it gives back the eight
  bytes it was read from.
\<close>

theorem header_roundtrip:
  assumes "header_parse buf = Inr h"
  shows "header_encode h = take HEADER_LEN buf \<and> size_ok (unat (hd_size h))"
  using header_encode_parse [OF assms] header_parse_size [OF assms] by simp

theorem header_roundtrip_witness:
  "header_encode \<lparr>hd_object = 1, hd_opcode = 1, hd_size = 12\<rparr>
     = take HEADER_LEN [CHR 0x01, CHR 0x00, CHR 0x00, CHR 0x00, CHR 0x01, CHR 0x00, CHR 0x0C, CHR 0x00]
   \<and> size_ok (unat (12 :: u16))"
  using header_roundtrip [of "[CHR 0x01, CHR 0x00, CHR 0x00, CHR 0x00, CHR 0x01, CHR 0x00, CHR 0x0C, CHR 0x00]"
      "\<lparr>hd_object = 1, hd_opcode = 1, hd_size = 12\<rparr>"]
  by (simp add: header_parse_def HEADER_LEN_def MAX_MESSAGE_LEN_def u32_from_ne_def)

text \<open>
  A message the proxy builds parses back: an aligned writer that finishes yields a message of a
  legal size whose header carries the writer's object, opcode and the message's own length.
\<close>

theorem finished_message_parses:
  assumes "mw_aligned w" and "mw_finish w = Some m"
  shows "header_parse (m @ rest) = Inr \<lparr>hd_object = mw_object w, hd_opcode = mw_opcode w,
           hd_size = of_nat (length m)\<rparr>
         \<and> size_ok (length m) \<and> drop HEADER_LEN m = mw_body w"
proof -
  have m: "HEADER_LEN + length (mw_body w) \<le> MAX_MESSAGE_LEN"
      "m = header_encode \<lparr>hd_object = mw_object w, hd_opcode = mw_opcode w,
             hd_size = of_nat (HEADER_LEN + length (mw_body w))\<rparr> @ mw_body w"
    using assms(2) by (simp_all add: mw_finish_Some)
  have len: "length m = HEADER_LEN + length (mw_body w)" using m(2) by simp
  have ok: "size_ok (length m)"
    using assms(1) m(1) len by (auto simp: size_ok_def mw_aligned_def HEADER_LEN_def)
  have "unat (of_nat (length m) :: u16) = length m"
    by (rule unat_of_nat_small) (use m(1) len in \<open>simp add: MAX_MESSAGE_LEN_def\<close>)
  then have "header_parse (m @ rest) = Inr \<lparr>hd_object = mw_object w, hd_opcode = mw_opcode w,
           hd_size = of_nat (length m)\<rparr>"
    using header_parse_encode [of "\<lparr>hd_object = mw_object w, hd_opcode = mw_opcode w,
        hd_size = of_nat (length m)\<rparr>" "mw_body w @ rest"] ok m(2) len by simp
  with ok m(2) show ?thesis by simp
qed

theorem finished_message_parses_witness:
  "header_parse (header_encode \<lparr>hd_object = 1, hd_opcode = 1, hd_size = 12\<rparr> @ u32_to_ne 7)
     = Inr \<lparr>hd_object = 1, hd_opcode = 1, hd_size = 12\<rparr> \<and> size_ok 12"
proof -
  have a: "mw_aligned (mw_u32 7 (mw_new 1 1))"
    by (rule u32_codec.put_aligned) simp
  have f: "mw_finish (mw_u32 7 (mw_new 1 1))
      = Some (header_encode \<lparr>hd_object = 1, hd_opcode = 1, hd_size = 12\<rparr> @ u32_to_ne 7)"
    by (simp add: mw_finish_def mw_u32_def mw_new_def HEADER_LEN_def MAX_MESSAGE_LEN_def)
  show ?thesis
    using finished_message_parses [OF a f, of "[]"] by (simp add: HEADER_LEN_def mw_u32_def mw_new_def)
qed

end
