(* ===== verification/Protocol.thy ===== *)
theory Protocol
  imports Wire
begin

text \<open>
  Message signatures and the decoder of \<open>compositor/wlproxy/src/protocol.rs\<close>. The decoder is shown
  to accept exactly the bodies that are the concatenation of one well-formed encoding per argument,
  to their exact end, when the signature creates at most one object.
\<close>

section \<open>Signatures\<close>

datatype arg =
    Arg_Int
  | Arg_Uint
  | Arg_Fixed
  | Arg_String bool
  | Arg_Object bool
  | Arg_NewId "string option"
  | Arg_Array
  | Arg_Fd

record message =
  m_name :: string
  m_args :: "arg list"
  m_fds :: nat
  m_since :: u32

record interface =
  i_name :: string
  i_version :: u32
  i_requests :: "message list"
  i_events :: "message list"

abbreviation Msg :: "string \<Rightarrow> arg list \<Rightarrow> nat \<Rightarrow> u32 \<Rightarrow> message" where
  "Msg name args fds since \<equiv> \<lparr>m_name = name, m_args = args, m_fds = fds, m_since = since\<rparr>"

abbreviation Iface :: "string \<Rightarrow> u32 \<Rightarrow> message list \<Rightarrow> message list \<Rightarrow> interface" where
  "Iface name version requests events \<equiv>
     \<lparr>i_name = name, i_version = version, i_requests = requests, i_events = events\<rparr>"

definition fd_count :: "message \<Rightarrow> nat" where
  "fd_count m = m_fds m"

section \<open>Decoding\<close>

record decoded =
  new_object :: "(u32 \<times> bytes) option"
  d_strings :: "(nat \<times> bytes) list"
  bind_version :: "u32 option"

definition decoded_default :: decoded where
  "decoded_default = \<lparr>new_object = None, d_strings = [], bind_version = None\<rparr>"

definition created :: "u32 \<Rightarrow> bytes \<Rightarrow> decoded \<Rightarrow> wire_error + decoded" where
  "created oid name d =
     (if new_object d \<noteq> None then Inl SecondNewId else Inr (d\<lparr>new_object := Some (oid, name)\<rparr>))"

fun decode_arg :: "arg \<Rightarrow> arg_reader \<Rightarrow> decoded \<Rightarrow> wire_error + (decoded \<times> arg_reader)" where
  "decode_arg Arg_Int r d = bind_res (ar_u32 r) (\<lambda>(_, r'). Inr (d, r'))"
| "decode_arg Arg_Uint r d = bind_res (ar_u32 r) (\<lambda>(_, r'). Inr (d, r'))"
| "decode_arg Arg_Fixed r d = bind_res (ar_u32 r) (\<lambda>(_, r'). Inr (d, r'))"
| "decode_arg (Arg_Object _) r d = bind_res (ar_u32 r) (\<lambda>(_, r'). Inr (d, r'))"
| "decode_arg (Arg_String nullable) r d =
     (let at = length (ar_body r) - ar_remaining r in
      bind_res (ar_string r) (\<lambda>(s, r').
        case s of Some t \<Rightarrow> Inr (d\<lparr>d_strings := d_strings d @ [(at, t)]\<rparr>, r')
        | None \<Rightarrow> if nullable then Inr (d, r') else Inl NullString))"
| "decode_arg Arg_Array r d = bind_res (ar_array r) (\<lambda>(_, r'). Inr (d, r'))"
| "decode_arg (Arg_NewId (Some name)) r d =
     bind_res (ar_u32 r) (\<lambda>(id, r'). bind_res (created id name d) (\<lambda>d'. Inr (d', r')))"
| "decode_arg (Arg_NewId None) r d =
     bind_res (ar_string_nn r) (\<lambda>(name, r1).
       bind_res (ar_u32 r1) (\<lambda>(version, r2).
         bind_res (ar_u32 r2) (\<lambda>(id, r3).
           bind_res (created id name (d\<lparr>bind_version := Some version\<rparr>)) (\<lambda>d'. Inr (d', r3)))))"
| "decode_arg Arg_Fd r d = Inr (d, r)"

fun decode_args :: "arg list \<Rightarrow> arg_reader \<Rightarrow> decoded \<Rightarrow> wire_error + (decoded \<times> arg_reader)" where
  "decode_args [] r d = Inr (d, r)"
| "decode_args (a # as) r d = bind_res (decode_arg a r d) (\<lambda>(d', r'). decode_args as r' d')"

definition decode :: "message \<Rightarrow> bytes \<Rightarrow> wire_error + decoded" where
  "decode msg body =
     bind_res (decode_args (m_args msg) (ar_new body) decoded_default) (\<lambda>(d, r).
       if \<not> ar_is_empty r then Inl ArgOverrun else Inr d)"

section \<open>The bodies the decoder accepts\<close>

text \<open>
  The wire format of one argument: its bytes \<open>p\<close> at offset \<open>at\<close> of the body, and what they add to
  what the message was found to carry.
\<close>

inductive arg_reads :: "arg \<Rightarrow> nat \<Rightarrow> bytes \<Rightarrow> decoded \<Rightarrow> decoded \<Rightarrow> bool" where
  word: "a \<in> {Arg_Int, Arg_Uint, Arg_Fixed} \<union> range Arg_Object \<Longrightarrow> arg_reads a at (u32_to_ne v) d d"
| str: "string_bytes t p \<Longrightarrow>
    arg_reads (Arg_String n) at p d (d\<lparr>d_strings := d_strings d @ [(at, t)]\<rparr>)"
| null: "arg_reads (Arg_String True) at (u32_to_ne 0) d d"
| arr: "array_bytes b p \<Longrightarrow> arg_reads Arg_Array at p d d"
| new: "new_object d = None \<Longrightarrow>
    arg_reads (Arg_NewId (Some name)) at (u32_to_ne oid) d (d\<lparr>new_object := Some (oid, name)\<rparr>)"
| bind: "string_bytes name p \<Longrightarrow> new_object d = None \<Longrightarrow>
    arg_reads (Arg_NewId None) at (p @ u32_to_ne version @ u32_to_ne oid) d
      (d\<lparr>bind_version := Some version, new_object := Some (oid, name)\<rparr>)"
| fd: "arg_reads Arg_Fd at [] d d"

inductive args_read :: "arg list \<Rightarrow> nat \<Rightarrow> bytes \<Rightarrow> decoded \<Rightarrow> decoded \<Rightarrow> bool" where
  nil: "args_read [] at [] d d"
| cons: "arg_reads a at p d d1 \<Longrightarrow> args_read as (at + length p) q d1 d2 \<Longrightarrow>
    args_read (a # as) at (p @ q) d d2"

inductive_simps arg_reads_simps:
  "arg_reads Arg_Int at p d d'" "arg_reads Arg_Uint at p d d'" "arg_reads Arg_Fixed at p d d'"
  "arg_reads (Arg_Object n) at p d d'" "arg_reads (Arg_String n) at p d d'"
  "arg_reads Arg_Array at p d d'" "arg_reads (Arg_NewId (Some name)) at p d d'"
  "arg_reads (Arg_NewId None) at p d d'" "arg_reads Arg_Fd at p d d'"

inductive_simps args_read_simps: "args_read [] at p d d'" "args_read (a # as) at p d d'"

lemma created_eq_Inr:
  "created oid name d = Inr d' \<longleftrightarrow> new_object d = None \<and> d' = d\<lparr>new_object := Some (oid, name)\<rparr>"
  by (cases "new_object d") (auto simp: created_def)

lemma ar_string_nn_iff:
  assumes "ar_ok r"
  shows "ar_string_nn r = Inr (s, r') \<longleftrightarrow> (\<exists>p. string_bytes s p \<and> starts r p \<and> r' = adv r (length p))"
proof -
  have "ar_string_nn r = Inr (s, r') \<longleftrightarrow> ar_string r = Inr (Some s, r')"
    by (auto simp: ar_string_nn_def bind_res_eq_Inr ok_or_eq_Inr)
  then show ?thesis by (simp add: ar_string_iff [OF assms])
qed

lemma bind_header_iff:
  assumes ok: "ar_ok r"
  shows "(\<exists>p. string_bytes name p \<and> starts r p \<and>
       ar_u32 (adv r (length p)) = Inr (version, r2) \<and> ar_u32 r2 = Inr (oid, r3))
    \<longleftrightarrow> (\<exists>p. string_bytes name p \<and> starts r (p @ u32_to_ne version @ u32_to_ne oid) \<and>
       r2 = adv r (length p + 4) \<and> r3 = adv r (length p + 8))"
proof -
  have "ar_u32 (adv r (length p)) = Inr (version, r2) \<and> ar_u32 r2 = Inr (oid, r3) \<longleftrightarrow>
      starts (adv r (length p)) (u32_to_ne version @ u32_to_ne oid) \<and>
      r2 = adv r (length p + 4) \<and> r3 = adv r (length p + 8)" if "starts r p" for p
  proof -
    have ok1: "ar_ok (adv r (length p))" using ar_ok_adv [OF ok that] .
    have ok2: "starts (adv r (length p)) (u32_to_ne version) \<Longrightarrow> ar_ok (adv r (length p + 4))"
      using ar_ok_adv [OF ok1, of "u32_to_ne version"] by simp
    show ?thesis using ok2 by (auto simp: ar_u32_iff ok1 starts_append add.assoc)
  qed
  then show ?thesis by (auto simp: starts_append)
qed

lemma ar_at_pos: "ar_ok r \<Longrightarrow> length (ar_body r) - ar_remaining r = ar_pos r"
  by (auto simp: ar_ok_def ar_remaining_def)

lemma decode_arg_iff:
  assumes ok: "ar_ok r"
  shows "decode_arg a r d = Inr (d', r') \<longleftrightarrow>
    (\<exists>p. arg_reads a (ar_pos r) p d d' \<and> starts r p \<and> r' = adv r (length p))"
proof (cases a)
  case (Arg_String nullable)
  have "decode_arg a r d = Inr (d', r') \<longleftrightarrow>
      (\<exists>t. ar_string r = Inr (Some t, r') \<and> d' = d\<lparr>d_strings := d_strings d @ [(ar_pos r, t)]\<rparr>) \<or>
      (ar_string r = Inr (None, r') \<and> nullable \<and> d' = d)"
    by (auto simp: Arg_String bind_res_eq_Inr Let_def ar_at_pos [OF ok] split: option.splits if_splits)
  then show ?thesis
    unfolding ar_string_iff [OF ok] ar_string_null_iff [OF ok] Arg_String arg_reads_simps by auto
next
  case (Arg_NewId n)
  show ?thesis
  proof (cases n)
    case None
    have "decode_arg a r d = Inr (d', r') \<longleftrightarrow> (\<exists>name version r2 oid.
        (\<exists>p. string_bytes name p \<and> starts r p \<and>
           ar_u32 (adv r (length p)) = Inr (version, r2) \<and> ar_u32 r2 = Inr (oid, r')) \<and>
        new_object d = None \<and> d' = d\<lparr>bind_version := Some version, new_object := Some (oid, name)\<rparr>)"
      by (simp add: Arg_NewId None bind_res_eq_Inr created_eq_Inr ar_string_nn_iff [OF ok]) metis
    also have "\<dots> \<longleftrightarrow> (\<exists>name q version oid. string_bytes name q \<and> new_object d = None \<and>
        d' = d\<lparr>bind_version := Some version, new_object := Some (oid, name)\<rparr> \<and>
        starts r (q @ u32_to_ne version @ u32_to_ne oid) \<and> r' = adv r (length q + 8))"
      unfolding bind_header_iff [OF ok] by blast
    also have "\<dots> \<longleftrightarrow> (\<exists>p. arg_reads a (ar_pos r) p d d' \<and> starts r p \<and> r' = adv r (length p))"
      unfolding Arg_NewId None arg_reads_simps
      by (intro iffI; elim exE conjE; simp del: append_assoc) (fastforce simp del: append_assoc)+
    finally show ?thesis .
  next
    case (Some name)
    then show ?thesis
      by (auto simp: Arg_NewId bind_res_eq_Inr created_eq_Inr arg_reads_simps ar_u32_iff [OF ok])
  qed
qed (auto simp: bind_res_eq_Inr arg_reads_simps ar_u32_iff [OF ok] ar_array_iff [OF ok] adv_def starts_def)

lemma decode_args_iff:
  "ar_ok r \<Longrightarrow> decode_args as r d = Inr (d', r') \<longleftrightarrow>
    (\<exists>p. args_read as (ar_pos r) p d d' \<and> starts r p \<and> r' = adv r (length p))"
proof (induction as arbitrary: r d)
  case Nil
  then show ?case by (auto simp: args_read_simps starts_def adv_def)
next
  case (Cons a as)
  have IH: "decode_args as (adv r (length p)) d1 = Inr (d', r') \<longleftrightarrow>
      (\<exists>q. args_read as (ar_pos r + length p) q d1 d' \<and> starts (adv r (length p)) q \<and>
         r' = adv r (length p + length q))" if "starts r p" for p d1
    using Cons.IH [OF ar_ok_adv [OF Cons.prems that]] by simp
  have "decode_args (a # as) r d = Inr (d', r') \<longleftrightarrow>
      (\<exists>p d1. arg_reads a (ar_pos r) p d d1 \<and> starts r p \<and>
         decode_args as (adv r (length p)) d1 = Inr (d', r'))"
    by (auto simp: bind_res_eq_Inr decode_arg_iff [OF Cons.prems])
  also have "\<dots> \<longleftrightarrow> (\<exists>p d1. arg_reads a (ar_pos r) p d d1 \<and> starts r p \<and>
      (\<exists>q. args_read as (ar_pos r + length p) q d1 d' \<and> starts (adv r (length p)) q \<and>
         r' = adv r (length p + length q)))"
    by (intro ex_cong1 conj_cong refl) (rule IH)
  also have "\<dots> \<longleftrightarrow> (\<exists>p. args_read (a # as) (ar_pos r) p d d' \<and> starts r p \<and> r' = adv r (length p))"
    (is "?l \<longleftrightarrow> ?r")
  proof
    assume ?l
    then show ?r using args_read.cons by (fastforce simp: starts_append)
  next
    assume ?r
    then show ?l unfolding args_read_simps by (elim exE conjE) (force simp: starts_append)
  qed
  finally show ?case .
qed

lemma decode_args_read:
  assumes "length body < 2 ^ 63"
  shows "decode msg body = Inr d \<longleftrightarrow> args_read (m_args msg) 0 body decoded_default d"
proof -
  have ok: "ar_ok (ar_new body)" using assms by (simp add: ar_ok_def ar_new_def)
  have "decode msg body = Inr d \<longleftrightarrow> (\<exists>p. args_read (m_args msg) 0 p decoded_default d \<and>
      starts (ar_new body) p \<and> ar_is_empty (adv (ar_new body) (length p)))"
    by (auto simp: decode_def bind_res_eq_Inr decode_args_iff [OF ok]) (auto simp: ar_new_def)
  also have "\<dots> \<longleftrightarrow> args_read (m_args msg) 0 body decoded_default d"
    by (auto simp: starts_def ar_new_def ar_is_empty_def ar_remaining_def adv_def)
  finally show ?thesis .
qed

text \<open>
  C20: \<open>decode\<close> accepts a body, and reports exactly what it carries, if and only if the body is one
  well-formed encoding per argument of the signature, in order and to the body's exact end, with at
  most one new object: the strings with the offsets of their length words, the object with its
  interface, and the version a bind asks for.
\<close>

theorem decode_iff_args_read:
  assumes "length body < 2 ^ 63"
  shows "decode msg body = Inr d \<longleftrightarrow> args_read (m_args msg) 0 body decoded_default d"
  by (rule decode_args_read [OF assms])

theorem decode_iff_args_read_witness:
  "decode (Msg ''bind'' [Arg_Uint, Arg_NewId None] 0 1)
     (u32_to_ne 7 @ u32_to_ne 4 @ ''abc'' @ [CHR 0x00] @ u32_to_ne 2 @ u32_to_ne 9)
   = Inr \<lparr>new_object = Some (9, ''abc''), d_strings = [], bind_version = Some 2\<rparr>"
proof -
  have s: "string_bytes ''abc'' (u32_to_ne 4 @ ''abc'' @ [CHR 0x00])"
    by (simp add: string_bytes_def pad4_Some)
  have "args_read [Arg_Uint, Arg_NewId None] 0
      (u32_to_ne 7 @ ((u32_to_ne 4 @ ''abc'' @ [CHR 0x00]) @ u32_to_ne 2 @ u32_to_ne 9) @ [])
      decoded_default (decoded_default\<lparr>bind_version := Some 2, new_object := Some (9, ''abc'')\<rparr>)"
    by (rule args_read.cons [OF arg_reads.word args_read.cons [OF arg_reads.bind [OF s] args_read.nil]])
      (simp_all add: decoded_default_def)
  then show ?thesis
    by (subst decode_iff_args_read) (simp_all add: decoded_default_def)
qed

end
