(* ===== verification/Protocol_Tables.thy ===== *)
theory Protocol_Tables
  imports Protocol
begin

text \<open>
  The signature tables of \<open>compositor/wlproxy/src/protocol_tables.rs\<close>, one definition per interface,
  in the file's order: each request and event with its arguments in wire order, the number of
  descriptors it carries and the version it appeared in. Then \<open>protocol::find\<close> over them, and what
  the session relies on: the descriptor counts agree with the signatures, no message creates two
  objects, and the names are distinct.
\<close>

definition if_wl_display :: interface where
  "if_wl_display = Iface ''wl_display'' 1
    [
     Msg ''sync'' [Arg_NewId (Some ''wl_callback'')] 0 1,
     Msg ''get_registry'' [Arg_NewId (Some ''wl_registry'')] 0 1]
    [
     Msg ''error'' [Arg_Object False, Arg_Uint, Arg_String False] 0 1,
     Msg ''delete_id'' [Arg_Uint] 0 1]"

definition if_wl_registry :: interface where
  "if_wl_registry = Iface ''wl_registry'' 1
    [
     Msg ''bind'' [Arg_Uint, Arg_NewId None] 0 1]
    [
     Msg ''global'' [Arg_Uint, Arg_String False, Arg_Uint] 0 1,
     Msg ''global_remove'' [Arg_Uint] 0 1]"

definition if_wl_callback :: interface where
  "if_wl_callback = Iface ''wl_callback'' 1
    []
    [
     Msg ''done'' [Arg_Uint] 0 1]"

definition if_wl_compositor :: interface where
  "if_wl_compositor = Iface ''wl_compositor'' 7
    [
     Msg ''create_surface'' [Arg_NewId (Some ''wl_surface'')] 0 1,
     Msg ''create_region'' [Arg_NewId (Some ''wl_region'')] 0 1,
     Msg ''release'' [] 0 7]
    []"

definition if_wl_shm_pool :: interface where
  "if_wl_shm_pool = Iface ''wl_shm_pool'' 3
    [
     Msg ''create_buffer'' [Arg_NewId (Some ''wl_buffer''), Arg_Int, Arg_Int, Arg_Int, Arg_Int, Arg_Uint] 0 1,
     Msg ''destroy'' [] 0 1,
     Msg ''resize'' [Arg_Int] 0 1]
    []"

definition if_wl_shm :: interface where
  "if_wl_shm = Iface ''wl_shm'' 3
    [
     Msg ''create_pool'' [Arg_NewId (Some ''wl_shm_pool''), Arg_Fd, Arg_Int] 1 1,
     Msg ''release'' [] 0 2]
    [
     Msg ''format'' [Arg_Uint] 0 1]"

definition if_wl_buffer :: interface where
  "if_wl_buffer = Iface ''wl_buffer'' 1
    [
     Msg ''destroy'' [] 0 1]
    [
     Msg ''release'' [] 0 1]"

definition if_wl_data_offer :: interface where
  "if_wl_data_offer = Iface ''wl_data_offer'' 4
    [
     Msg ''accept'' [Arg_Uint, Arg_String True] 0 1,
     Msg ''receive'' [Arg_String False, Arg_Fd] 1 1,
     Msg ''destroy'' [] 0 1,
     Msg ''finish'' [] 0 3,
     Msg ''set_actions'' [Arg_Uint, Arg_Uint] 0 3]
    [
     Msg ''offer'' [Arg_String False] 0 1,
     Msg ''source_actions'' [Arg_Uint] 0 3,
     Msg ''action'' [Arg_Uint] 0 3]"

definition if_wl_data_source :: interface where
  "if_wl_data_source = Iface ''wl_data_source'' 4
    [
     Msg ''offer'' [Arg_String False] 0 1,
     Msg ''destroy'' [] 0 1,
     Msg ''set_actions'' [Arg_Uint] 0 3]
    [
     Msg ''target'' [Arg_String True] 0 1,
     Msg ''send'' [Arg_String False, Arg_Fd] 1 1,
     Msg ''cancelled'' [] 0 1,
     Msg ''dnd_drop_performed'' [] 0 3,
     Msg ''dnd_finished'' [] 0 3,
     Msg ''action'' [Arg_Uint] 0 3]"

definition if_wl_data_device :: interface where
  "if_wl_data_device = Iface ''wl_data_device'' 4
    [
     Msg ''start_drag'' [Arg_Object True, Arg_Object False, Arg_Object True, Arg_Uint] 0 1,
     Msg ''set_selection'' [Arg_Object True, Arg_Uint] 0 1,
     Msg ''release'' [] 0 2]
    [
     Msg ''data_offer'' [Arg_NewId (Some ''wl_data_offer'')] 0 1,
     Msg ''enter'' [Arg_Uint, Arg_Object False, Arg_Fixed, Arg_Fixed, Arg_Object True] 0 1,
     Msg ''leave'' [] 0 1,
     Msg ''motion'' [Arg_Uint, Arg_Fixed, Arg_Fixed] 0 1,
     Msg ''drop'' [] 0 1,
     Msg ''selection'' [Arg_Object True] 0 1]"

definition if_wl_data_device_manager :: interface where
  "if_wl_data_device_manager = Iface ''wl_data_device_manager'' 4
    [
     Msg ''create_data_source'' [Arg_NewId (Some ''wl_data_source'')] 0 1,
     Msg ''get_data_device'' [Arg_NewId (Some ''wl_data_device''), Arg_Object False] 0 1,
     Msg ''release'' [] 0 4]
    []"

definition if_wl_shell :: interface where
  "if_wl_shell = Iface ''wl_shell'' 1
    [
     Msg ''get_shell_surface'' [Arg_NewId (Some ''wl_shell_surface''), Arg_Object False] 0 1]
    []"

definition if_wl_shell_surface :: interface where
  "if_wl_shell_surface = Iface ''wl_shell_surface'' 1
    [
     Msg ''pong'' [Arg_Uint] 0 1,
     Msg ''move'' [Arg_Object False, Arg_Uint] 0 1,
     Msg ''resize'' [Arg_Object False, Arg_Uint, Arg_Uint] 0 1,
     Msg ''set_toplevel'' [] 0 1,
     Msg ''set_transient'' [Arg_Object False, Arg_Int, Arg_Int, Arg_Uint] 0 1,
     Msg ''set_fullscreen'' [Arg_Uint, Arg_Uint, Arg_Object True] 0 1,
     Msg ''set_popup'' [Arg_Object False, Arg_Uint, Arg_Object False, Arg_Int, Arg_Int, Arg_Uint] 0 1,
     Msg ''set_maximized'' [Arg_Object True] 0 1,
     Msg ''set_title'' [Arg_String False] 0 1,
     Msg ''set_class'' [Arg_String False] 0 1]
    [
     Msg ''ping'' [Arg_Uint] 0 1,
     Msg ''configure'' [Arg_Uint, Arg_Int, Arg_Int] 0 1,
     Msg ''popup_done'' [] 0 1]"

definition if_wl_surface :: interface where
  "if_wl_surface = Iface ''wl_surface'' 7
    [
     Msg ''destroy'' [] 0 1,
     Msg ''attach'' [Arg_Object True, Arg_Int, Arg_Int] 0 1,
     Msg ''damage'' [Arg_Int, Arg_Int, Arg_Int, Arg_Int] 0 1,
     Msg ''frame'' [Arg_NewId (Some ''wl_callback'')] 0 1,
     Msg ''set_opaque_region'' [Arg_Object True] 0 1,
     Msg ''set_input_region'' [Arg_Object True] 0 1,
     Msg ''commit'' [] 0 1,
     Msg ''set_buffer_transform'' [Arg_Int] 0 2,
     Msg ''set_buffer_scale'' [Arg_Int] 0 3,
     Msg ''damage_buffer'' [Arg_Int, Arg_Int, Arg_Int, Arg_Int] 0 4,
     Msg ''offset'' [Arg_Int, Arg_Int] 0 5,
     Msg ''get_release'' [Arg_NewId (Some ''wl_callback'')] 0 7]
    [
     Msg ''enter'' [Arg_Object False] 0 1,
     Msg ''leave'' [Arg_Object False] 0 1,
     Msg ''preferred_buffer_scale'' [Arg_Int] 0 6,
     Msg ''preferred_buffer_transform'' [Arg_Uint] 0 6]"

definition if_wl_seat :: interface where
  "if_wl_seat = Iface ''wl_seat'' 11
    [
     Msg ''get_pointer'' [Arg_NewId (Some ''wl_pointer'')] 0 1,
     Msg ''get_keyboard'' [Arg_NewId (Some ''wl_keyboard'')] 0 1,
     Msg ''get_touch'' [Arg_NewId (Some ''wl_touch'')] 0 1,
     Msg ''release'' [] 0 5]
    [
     Msg ''capabilities'' [Arg_Uint] 0 1,
     Msg ''name'' [Arg_String False] 0 2]"

definition if_wl_pointer :: interface where
  "if_wl_pointer = Iface ''wl_pointer'' 11
    [
     Msg ''set_cursor'' [Arg_Uint, Arg_Object True, Arg_Int, Arg_Int] 0 1,
     Msg ''release'' [] 0 3]
    [
     Msg ''enter'' [Arg_Uint, Arg_Object False, Arg_Fixed, Arg_Fixed] 0 1,
     Msg ''leave'' [Arg_Uint, Arg_Object False] 0 1,
     Msg ''motion'' [Arg_Uint, Arg_Fixed, Arg_Fixed] 0 1,
     Msg ''button'' [Arg_Uint, Arg_Uint, Arg_Uint, Arg_Uint] 0 1,
     Msg ''axis'' [Arg_Uint, Arg_Uint, Arg_Fixed] 0 1,
     Msg ''frame'' [] 0 5,
     Msg ''axis_source'' [Arg_Uint] 0 5,
     Msg ''axis_stop'' [Arg_Uint, Arg_Uint] 0 5,
     Msg ''axis_discrete'' [Arg_Uint, Arg_Int] 0 5,
     Msg ''axis_value120'' [Arg_Uint, Arg_Int] 0 8,
     Msg ''axis_relative_direction'' [Arg_Uint, Arg_Uint] 0 9,
     Msg ''warp'' [Arg_Fixed, Arg_Fixed] 0 11]"

definition if_wl_keyboard :: interface where
  "if_wl_keyboard = Iface ''wl_keyboard'' 11
    [
     Msg ''release'' [] 0 3]
    [
     Msg ''keymap'' [Arg_Uint, Arg_Fd, Arg_Uint] 1 1,
     Msg ''enter'' [Arg_Uint, Arg_Object False, Arg_Array] 0 1,
     Msg ''leave'' [Arg_Uint, Arg_Object False] 0 1,
     Msg ''key'' [Arg_Uint, Arg_Uint, Arg_Uint, Arg_Uint] 0 1,
     Msg ''modifiers'' [Arg_Uint, Arg_Uint, Arg_Uint, Arg_Uint, Arg_Uint] 0 1,
     Msg ''repeat_info'' [Arg_Int, Arg_Int] 0 4]"

definition if_wl_touch :: interface where
  "if_wl_touch = Iface ''wl_touch'' 11
    [
     Msg ''release'' [] 0 3]
    [
     Msg ''down'' [Arg_Uint, Arg_Uint, Arg_Object False, Arg_Int, Arg_Fixed, Arg_Fixed] 0 1,
     Msg ''up'' [Arg_Uint, Arg_Uint, Arg_Int] 0 1,
     Msg ''motion'' [Arg_Uint, Arg_Int, Arg_Fixed, Arg_Fixed] 0 1,
     Msg ''frame'' [] 0 1,
     Msg ''cancel'' [] 0 1,
     Msg ''shape'' [Arg_Int, Arg_Fixed, Arg_Fixed] 0 6,
     Msg ''orientation'' [Arg_Int, Arg_Fixed] 0 6]"

definition if_wl_output :: interface where
  "if_wl_output = Iface ''wl_output'' 4
    [
     Msg ''release'' [] 0 3]
    [
     Msg ''geometry'' [Arg_Int, Arg_Int, Arg_Int, Arg_Int, Arg_Int, Arg_String False, Arg_String False, Arg_Int] 0 1,
     Msg ''mode'' [Arg_Uint, Arg_Int, Arg_Int, Arg_Int] 0 1,
     Msg ''done'' [] 0 2,
     Msg ''scale'' [Arg_Int] 0 2,
     Msg ''name'' [Arg_String False] 0 4,
     Msg ''description'' [Arg_String False] 0 4]"

definition if_wl_region :: interface where
  "if_wl_region = Iface ''wl_region'' 7
    [
     Msg ''destroy'' [] 0 1,
     Msg ''add'' [Arg_Int, Arg_Int, Arg_Int, Arg_Int] 0 1,
     Msg ''subtract'' [Arg_Int, Arg_Int, Arg_Int, Arg_Int] 0 1]
    []"

definition if_wl_subcompositor :: interface where
  "if_wl_subcompositor = Iface ''wl_subcompositor'' 1
    [
     Msg ''destroy'' [] 0 1,
     Msg ''get_subsurface'' [Arg_NewId (Some ''wl_subsurface''), Arg_Object False, Arg_Object False] 0 1]
    []"

definition if_wl_subsurface :: interface where
  "if_wl_subsurface = Iface ''wl_subsurface'' 1
    [
     Msg ''destroy'' [] 0 1,
     Msg ''set_position'' [Arg_Int, Arg_Int] 0 1,
     Msg ''place_above'' [Arg_Object False] 0 1,
     Msg ''place_below'' [Arg_Object False] 0 1,
     Msg ''set_sync'' [] 0 1,
     Msg ''set_desync'' [] 0 1]
    []"

definition if_wl_fixes :: interface where
  "if_wl_fixes = Iface ''wl_fixes'' 2
    [
     Msg ''destroy'' [] 0 1,
     Msg ''destroy_registry'' [Arg_Object False] 0 1,
     Msg ''ack_global_remove'' [Arg_Object False, Arg_Uint] 0 2]
    []"

definition if_xdg_wm_base :: interface where
  "if_xdg_wm_base = Iface ''xdg_wm_base'' 7
    [
     Msg ''destroy'' [] 0 1,
     Msg ''create_positioner'' [Arg_NewId (Some ''xdg_positioner'')] 0 1,
     Msg ''get_xdg_surface'' [Arg_NewId (Some ''xdg_surface''), Arg_Object False] 0 1,
     Msg ''pong'' [Arg_Uint] 0 1]
    [
     Msg ''ping'' [Arg_Uint] 0 1]"

definition if_xdg_positioner :: interface where
  "if_xdg_positioner = Iface ''xdg_positioner'' 7
    [
     Msg ''destroy'' [] 0 1,
     Msg ''set_size'' [Arg_Int, Arg_Int] 0 1,
     Msg ''set_anchor_rect'' [Arg_Int, Arg_Int, Arg_Int, Arg_Int] 0 1,
     Msg ''set_anchor'' [Arg_Uint] 0 1,
     Msg ''set_gravity'' [Arg_Uint] 0 1,
     Msg ''set_constraint_adjustment'' [Arg_Uint] 0 1,
     Msg ''set_offset'' [Arg_Int, Arg_Int] 0 1,
     Msg ''set_reactive'' [] 0 3,
     Msg ''set_parent_size'' [Arg_Int, Arg_Int] 0 3,
     Msg ''set_parent_configure'' [Arg_Uint] 0 3]
    []"

definition if_xdg_surface :: interface where
  "if_xdg_surface = Iface ''xdg_surface'' 7
    [
     Msg ''destroy'' [] 0 1,
     Msg ''get_toplevel'' [Arg_NewId (Some ''xdg_toplevel'')] 0 1,
     Msg ''get_popup'' [Arg_NewId (Some ''xdg_popup''), Arg_Object True, Arg_Object False] 0 1,
     Msg ''set_window_geometry'' [Arg_Int, Arg_Int, Arg_Int, Arg_Int] 0 1,
     Msg ''ack_configure'' [Arg_Uint] 0 1]
    [
     Msg ''configure'' [Arg_Uint] 0 1]"

definition if_xdg_toplevel :: interface where
  "if_xdg_toplevel = Iface ''xdg_toplevel'' 7
    [
     Msg ''destroy'' [] 0 1,
     Msg ''set_parent'' [Arg_Object True] 0 1,
     Msg ''set_title'' [Arg_String False] 0 1,
     Msg ''set_app_id'' [Arg_String False] 0 1,
     Msg ''show_window_menu'' [Arg_Object False, Arg_Uint, Arg_Int, Arg_Int] 0 1,
     Msg ''move'' [Arg_Object False, Arg_Uint] 0 1,
     Msg ''resize'' [Arg_Object False, Arg_Uint, Arg_Uint] 0 1,
     Msg ''set_max_size'' [Arg_Int, Arg_Int] 0 1,
     Msg ''set_min_size'' [Arg_Int, Arg_Int] 0 1,
     Msg ''set_maximized'' [] 0 1,
     Msg ''unset_maximized'' [] 0 1,
     Msg ''set_fullscreen'' [Arg_Object True] 0 1,
     Msg ''unset_fullscreen'' [] 0 1,
     Msg ''set_minimized'' [] 0 1]
    [
     Msg ''configure'' [Arg_Int, Arg_Int, Arg_Array] 0 1,
     Msg ''close'' [] 0 1,
     Msg ''configure_bounds'' [Arg_Int, Arg_Int] 0 4,
     Msg ''wm_capabilities'' [Arg_Array] 0 5]"

definition if_xdg_popup :: interface where
  "if_xdg_popup = Iface ''xdg_popup'' 7
    [
     Msg ''destroy'' [] 0 1,
     Msg ''grab'' [Arg_Object False, Arg_Uint] 0 1,
     Msg ''reposition'' [Arg_Object False, Arg_Uint] 0 3]
    [
     Msg ''configure'' [Arg_Int, Arg_Int, Arg_Int, Arg_Int] 0 1,
     Msg ''popup_done'' [] 0 1,
     Msg ''repositioned'' [Arg_Uint] 0 3]"

definition if_zxdg_decoration_manager_v1 :: interface where
  "if_zxdg_decoration_manager_v1 = Iface ''zxdg_decoration_manager_v1'' 2
    [
     Msg ''destroy'' [] 0 1,
     Msg ''get_toplevel_decoration'' [Arg_NewId (Some ''zxdg_toplevel_decoration_v1''), Arg_Object False] 0 1]
    []"

definition if_zxdg_toplevel_decoration_v1 :: interface where
  "if_zxdg_toplevel_decoration_v1 = Iface ''zxdg_toplevel_decoration_v1'' 2
    [
     Msg ''destroy'' [] 0 1,
     Msg ''set_mode'' [Arg_Uint] 0 1,
     Msg ''unset_mode'' [] 0 1]
    [
     Msg ''configure'' [Arg_Uint] 0 1]"

definition if_wp_viewporter :: interface where
  "if_wp_viewporter = Iface ''wp_viewporter'' 1
    [
     Msg ''destroy'' [] 0 1,
     Msg ''get_viewport'' [Arg_NewId (Some ''wp_viewport''), Arg_Object False] 0 1]
    []"

definition if_wp_viewport :: interface where
  "if_wp_viewport = Iface ''wp_viewport'' 1
    [
     Msg ''destroy'' [] 0 1,
     Msg ''set_source'' [Arg_Fixed, Arg_Fixed, Arg_Fixed, Arg_Fixed] 0 1,
     Msg ''set_destination'' [Arg_Int, Arg_Int] 0 1]
    []"

definition if_wp_cursor_shape_manager_v1 :: interface where
  "if_wp_cursor_shape_manager_v1 = Iface ''wp_cursor_shape_manager_v1'' 2
    [
     Msg ''destroy'' [] 0 1,
     Msg ''get_pointer'' [Arg_NewId (Some ''wp_cursor_shape_device_v1''), Arg_Object False] 0 1,
     Msg ''get_tablet_tool_v2'' [Arg_NewId (Some ''wp_cursor_shape_device_v1''), Arg_Object False] 0 1]
    []"

definition if_wp_cursor_shape_device_v1 :: interface where
  "if_wp_cursor_shape_device_v1 = Iface ''wp_cursor_shape_device_v1'' 2
    [
     Msg ''destroy'' [] 0 1,
     Msg ''set_shape'' [Arg_Uint, Arg_Uint] 0 1]
    []"

definition if_wp_fractional_scale_manager_v1 :: interface where
  "if_wp_fractional_scale_manager_v1 = Iface ''wp_fractional_scale_manager_v1'' 1
    [
     Msg ''destroy'' [] 0 1,
     Msg ''get_fractional_scale'' [Arg_NewId (Some ''wp_fractional_scale_v1''), Arg_Object False] 0 1]
    []"

definition if_wp_fractional_scale_v1 :: interface where
  "if_wp_fractional_scale_v1 = Iface ''wp_fractional_scale_v1'' 1
    [
     Msg ''destroy'' [] 0 1]
    [
     Msg ''preferred_scale'' [Arg_Uint] 0 1]"

definition if_zwp_idle_inhibit_manager_v1 :: interface where
  "if_zwp_idle_inhibit_manager_v1 = Iface ''zwp_idle_inhibit_manager_v1'' 1
    [
     Msg ''destroy'' [] 0 1,
     Msg ''create_inhibitor'' [Arg_NewId (Some ''zwp_idle_inhibitor_v1''), Arg_Object False] 0 1]
    []"

definition if_zwp_idle_inhibitor_v1 :: interface where
  "if_zwp_idle_inhibitor_v1 = Iface ''zwp_idle_inhibitor_v1'' 1
    [
     Msg ''destroy'' [] 0 1]
    []"

definition INTERFACES :: "interface list" where
  "INTERFACES = [
     if_wl_display,
     if_wl_registry,
     if_wl_callback,
     if_wl_compositor,
     if_wl_shm_pool,
     if_wl_shm,
     if_wl_buffer,
     if_wl_data_offer,
     if_wl_data_source,
     if_wl_data_device,
     if_wl_data_device_manager,
     if_wl_shell,
     if_wl_shell_surface,
     if_wl_surface,
     if_wl_seat,
     if_wl_pointer,
     if_wl_keyboard,
     if_wl_touch,
     if_wl_output,
     if_wl_region,
     if_wl_subcompositor,
     if_wl_subsurface,
     if_wl_fixes,
     if_xdg_wm_base,
     if_xdg_positioner,
     if_xdg_surface,
     if_xdg_toplevel,
     if_xdg_popup,
     if_zxdg_decoration_manager_v1,
     if_zxdg_toplevel_decoration_v1,
     if_wp_viewporter,
     if_wp_viewport,
     if_wp_cursor_shape_manager_v1,
     if_wp_cursor_shape_device_v1,
     if_wp_fractional_scale_manager_v1,
     if_wp_fractional_scale_v1,
     if_zwp_idle_inhibit_manager_v1,
     if_zwp_idle_inhibitor_v1]"

lemmas interface_defs =
  if_wl_display_def
  if_wl_registry_def
  if_wl_callback_def
  if_wl_compositor_def
  if_wl_shm_pool_def
  if_wl_shm_def
  if_wl_buffer_def
  if_wl_data_offer_def
  if_wl_data_source_def
  if_wl_data_device_def
  if_wl_data_device_manager_def
  if_wl_shell_def
  if_wl_shell_surface_def
  if_wl_surface_def
  if_wl_seat_def
  if_wl_pointer_def
  if_wl_keyboard_def
  if_wl_touch_def
  if_wl_output_def
  if_wl_region_def
  if_wl_subcompositor_def
  if_wl_subsurface_def
  if_wl_fixes_def
  if_xdg_wm_base_def
  if_xdg_positioner_def
  if_xdg_surface_def
  if_xdg_toplevel_def
  if_xdg_popup_def
  if_zxdg_decoration_manager_v1_def
  if_zxdg_toplevel_decoration_v1_def
  if_wp_viewporter_def
  if_wp_viewport_def
  if_wp_cursor_shape_manager_v1_def
  if_wp_cursor_shape_device_v1_def
  if_wp_fractional_scale_manager_v1_def
  if_wp_fractional_scale_v1_def
  if_zwp_idle_inhibit_manager_v1_def
  if_zwp_idle_inhibitor_v1_def

section \<open>Finding an interface\<close>

text \<open>\<open>iter().map(|i| (i.name, i)).collect()\<close>: a later entry of a name would replace an earlier.\<close>

definition find :: "string \<Rightarrow> interface option" where
  "find name = map_of (rev (map (\<lambda>i. (i_name i, i)) INTERFACES)) name"

section \<open>What the session relies on\<close>

definition is_new_id :: "arg \<Rightarrow> bool" where
  "is_new_id a = (case a of Arg_NewId _ \<Rightarrow> True | _ \<Rightarrow> False)"

definition untyped_new :: "message \<Rightarrow> bool" where
  "untyped_new m \<longleftrightarrow> Arg_NewId None \<in> set (m_args m)"

definition all_messages :: "(string \<times> message) list" where
  "all_messages = concat (map (\<lambda>i. map (Pair (i_name i)) (i_requests i @ i_events i)) INTERFACES)"

text \<open>The descriptors counted are those of the signature, and no signature creates two objects.\<close>

definition message_ok :: "message \<Rightarrow> bool" where
  "message_ok m \<longleftrightarrow> m_fds m = count_list (m_args m) Arg_Fd \<and> length (filter is_new_id (m_args m)) \<le> 1"

lemma INTERFACES_names_distinct: "distinct (map i_name INTERFACES)"
  by code_simp

lemma find_Some: "find name = Some i \<longleftrightarrow> i \<in> set INTERFACES \<and> i_name i = name"
proof -
  have "distinct (map fst (rev (map (\<lambda>i. (i_name i, i)) INTERFACES)))"
    using INTERFACES_names_distinct by (simp add: rev_map [symmetric] comp_def)
  then show ?thesis
    unfolding find_def by (auto simp: map_of_eq_Some_iff)
qed

lemma tables_messages_ok: "list_all (message_ok \<circ> snd) all_messages"
  by code_simp


lemma fd_count_eq:
  assumes "i \<in> set INTERFACES" "m \<in> set (i_requests i) \<union> set (i_events i)"
  shows "fd_count m = count_list (m_args m) Arg_Fd"
proof -
  have "(i_name i, m) \<in> set all_messages" using assms by (auto simp: all_messages_def)
  then show ?thesis
    using tables_messages_ok by (auto simp: list_all_iff message_ok_def fd_count_def)
qed

end
