(* ===== verification/Proxy_Policy.thy ===== *)
theory Proxy_Policy
  imports Protocol_Tables
begin

text \<open>
  What a zone's client may bind and how its titles and app ids carry the zone's name
  (\<open>compositor/wlproxy/src/policy.rs\<close>). The two stamps are shown to begin with the real zone, to be
  bounded and printable, and to tell zones apart whatever the client claims.
\<close>

section \<open>The allowlist\<close>

definition ALLOWED :: "(string \<times> u32) list" where
  "ALLOWED = [
     (''wl_compositor'', 6),
     (''wl_subcompositor'', 1),
     (''wl_shm'', 2),
     (''wl_seat'', 9),
     (''wl_output'', 4),
     (''xdg_wm_base'', 6),
     (''zxdg_decoration_manager_v1'', 1),
     (''wp_viewporter'', 1),
     (''wp_cursor_shape_manager_v1'', 1),
     (''wp_fractional_scale_manager_v1'', 1)]"

definition HOLD_AWAKE :: "string \<times> u32" where
  "HOLD_AWAKE = (''zwp_idle_inhibit_manager_v1'', 1)"

definition allowed_version :: "string \<Rightarrow> bool \<Rightarrow> u32 option" where
  "allowed_version interface hold_awake =
     map_option snd (List.find (\<lambda>(n, _). n = interface)
       (ALLOWED @ (if hold_awake then [HOLD_AWAKE] else [])))"

definition SERVED :: "string list" where
  "SERVED = [''wl_data_device_manager'', ''wl_data_source'', ''wl_data_device'', ''wl_data_offer'']"

definition served :: "string \<Rightarrow> bool" where
  "served interface \<longleftrightarrow> interface \<in> set SERVED"

definition OWN_GLOBALS :: "(string \<times> u32) list" where
  "OWN_GLOBALS = [(''wl_data_device_manager'', 3)]"

definition OWN_GLOBAL_BASE :: u32 where "OWN_GLOBAL_BASE = 0xFFFFFF00"

definition own_version :: "string \<Rightarrow> u32 option" where
  "own_version interface = map_option snd (List.find (\<lambda>(n, _). n = interface) OWN_GLOBALS)"

section \<open>Titles and app ids\<close>

definition MAX_TITLE_BYTES :: nat where "MAX_TITLE_BYTES = 256"

text \<open>A character of a title as it is shown: controls and bidirectional marks become spaces.\<close>

definition unshown :: "bytes \<Rightarrow> bool" where
  "unshown c \<longleftrightarrow> (let u = ucode c in
     is_control c \<or> u = 0x061C \<or> u = 0x200E \<or> u = 0x200F
     \<or> (0x2028 \<le> u \<and> u \<le> 0x202E) \<or> (0x2066 \<le> u \<and> u \<le> 0x2069))"

definition title_char :: "bytes \<Rightarrow> bytes" where
  "title_char c = (if unshown c then '' '' else c)"

fun cut_back :: "bytes \<Rightarrow> nat \<Rightarrow> nat" where
  "cut_back s n = (if n > 0 \<and> \<not> is_char_boundary s n then cut_back s (n - 1) else n)"

declare cut_back.simps [simp del]

text \<open>\<open>String::truncate\<close>: it panics (\<^const>\<open>None\<close>) inside a character.\<close>

definition str_truncate :: "bytes \<Rightarrow> nat \<Rightarrow> bytes option" where
  "str_truncate s n = (if length s < n then Some s
     else if is_char_boundary s n then Some (take n s) else None)"

definition bound_utf8 :: "bytes \<Rightarrow> nat \<Rightarrow> bytes option" where
  "bound_utf8 s lim =
     (if length s \<le> lim then Some s
      else map_option (\<lambda>t. t @ ''...'') (str_truncate s (cut_back s (lim - 3))))"

definition title_for :: "bytes \<Rightarrow> bytes \<Rightarrow> bytes option" where
  "title_for zone title =
     (let title = concat (map title_char (uchars title)) in
      bound_utf8 (''['' @ zone @ ''] '' @ title) MAX_TITLE_BYTES)"

definition app_id_char :: "bytes \<Rightarrow> bytes" where
  "app_id_char c = (case c of
       [b] \<Rightarrow> if is_ascii_alphanumeric b \<or> b = CHR ''-'' \<or> b = CHR ''_'' then [b] else ''_''
     | _ \<Rightarrow> ''_'')"

definition app_id_for :: "bytes \<Rightarrow> bytes \<Rightarrow> bytes" where
  "app_id_for zone claimed =
     (let cleaned = concat (map app_id_char (take 64 (uchars claimed))) in
      ''kryptik.'' @ zone @ ''.'' @ (if cleaned = [] then ''app'' else cleaned))"

section \<open>Bounds\<close>

definition MAX_OBJECTS :: nat where "MAX_OBJECTS = 4096"
definition MAX_ID_SLOTS :: nat where "MAX_ID_SLOTS = 2 * MAX_OBJECTS"
definition MAX_PENDING_BYTES :: nat where "MAX_PENDING_BYTES = 2 ^ 20"
definition MAX_PENDING_FDS :: nat where "MAX_PENDING_FDS = 64"
definition MAX_TOPLEVELS_PER_SESSION :: nat where "MAX_TOPLEVELS_PER_SESSION = 32"
definition MAX_TOPLEVELS_PER_ZONE :: nat where "MAX_TOPLEVELS_PER_ZONE = 64"
definition MAX_POPUPS_PER_SESSION :: nat where "MAX_POPUPS_PER_SESSION = 16"
definition MAX_SHM_POOLS_PER_SESSION :: nat where "MAX_SHM_POOLS_PER_SESSION = 128"
definition MAX_SHM_POOLS_PER_ZONE :: nat where "MAX_SHM_POOLS_PER_ZONE = 256"
definition MAX_SHM_POOL_BYTES :: nat where "MAX_SHM_POOL_BYTES = 128 * 2 ^ 20"
definition MAX_SHM_BYTES_PER_SESSION :: nat where "MAX_SHM_BYTES_PER_SESSION = 2 ^ 30"
definition MAX_SHM_BYTES_PER_ZONE :: nat where "MAX_SHM_BYTES_PER_ZONE = 2 ^ 30"
definition MAX_SUBSURFACES_PER_SESSION :: nat where "MAX_SUBSURFACES_PER_SESSION = 256"
definition MAX_HELD_PER_SURFACE :: nat where "MAX_HELD_PER_SURFACE = 64"

definition MOVE_TYPES :: "string list" where
  "MOVE_TYPES = [
     ''text/plain;charset=utf-8'',
     ''text/plain'',
     ''text/html'',
     ''text/uri-list'',
     ''image/png'',
     ''image/jpeg'',
     ''application/octet-stream'']"

definition MAX_MOVE_BYTES :: nat where "MAX_MOVE_BYTES = 2 ^ 20"
definition MAX_DATA_SOURCES_PER_SESSION :: nat where "MAX_DATA_SOURCES_PER_SESSION = 64"
definition MAX_MIME_TYPES :: nat where "MAX_MIME_TYPES = 32"
definition MAX_MIME_BYTES :: nat where "MAX_MIME_BYTES = 256"

lemmas bound_defs = MAX_OBJECTS_def MAX_ID_SLOTS_def MAX_PENDING_BYTES_def MAX_PENDING_FDS_def
  MAX_TOPLEVELS_PER_SESSION_def MAX_TOPLEVELS_PER_ZONE_def MAX_POPUPS_PER_SESSION_def
  MAX_SHM_POOLS_PER_SESSION_def MAX_SHM_POOLS_PER_ZONE_def MAX_SHM_POOL_BYTES_def
  MAX_SHM_BYTES_PER_SESSION_def MAX_SHM_BYTES_PER_ZONE_def MAX_SUBSURFACES_PER_SESSION_def
  MAX_HELD_PER_SURFACE_def MAX_MOVE_BYTES_def MAX_DATA_SOURCES_PER_SESSION_def
  MAX_MIME_TYPES_def MAX_MIME_BYTES_def

section \<open>The allowlist and the tables\<close>

definition caps_parse :: "(string \<times> u32) list \<Rightarrow> bool" where
  "caps_parse caps \<longleftrightarrow> list_all (\<lambda>(n, v). case find n of Some i \<Rightarrow> v \<le> i_version i | None \<Rightarrow> False) caps"

lemma list_find_SomeD: "List.find P xs = Some x \<Longrightarrow> x \<in> set xs \<and> P x"
  by (induction xs) (auto split: if_splits)

lemma allowed_none_served: "\<not> list_ex (\<lambda>(n, _). served n) (ALLOWED @ [HOLD_AWAKE])"
  by code_simp

lemma allowed_version_in: "allowed_version n h = Some v \<Longrightarrow> (n, v) \<in> set (ALLOWED @ [HOLD_AWAKE])"
  by (auto simp: allowed_version_def dest!: list_find_SomeD split: if_splits)

lemma allowed_not_served: "allowed_version n h = Some v \<Longrightarrow> \<not> served n"
  using allowed_none_served allowed_version_in [of n h v] unfolding list_ex_iff by blast

text \<open>
  Every interface a client may bind, the proxy's own and the idle inhibitor included, is in the
  tables at a version they parse, and the compositor's data device manager, which the proxy serves
  itself, is not among those passed on.
\<close>

theorem allowlist_parses:
  "caps_parse (ALLOWED @ HOLD_AWAKE # OWN_GLOBALS)
   \<and> \<not> list_ex (\<lambda>(n, _). served n) (ALLOWED @ [HOLD_AWAKE])"
  by (rule conjI [OF _ allowed_none_served]) code_simp

section \<open>Cutting a title\<close>

lemma cut_back_boundary: "is_char_boundary s (cut_back s n)"
  by (induction s n rule: cut_back.induct)
    (subst cut_back.simps, simp add: is_char_boundary_def)

lemma cut_back_le: "cut_back s n \<le> n"
  by (induction s n rule: cut_back.induct) (subst cut_back.simps, auto)

text \<open>The cut keeps every boundary below it.\<close>

lemma cut_back_ge: "is_char_boundary s k \<Longrightarrow> k \<le> n \<Longrightarrow> k \<le> cut_back s n"
proof (induction s n rule: cut_back.induct)
  case (1 s n)
  then show ?case
    by (cases "k = n") (auto simp: cut_back.simps [of s n])
qed

lemma bound_utf8_Some:
  assumes "3 \<le> lim"
  shows "\<exists>k. bound_utf8 s lim = Some (if length s \<le> lim then s else take k s @ ''...'')
    \<and> k + 3 \<le> lim \<and> is_char_boundary s k \<and> (\<forall>b. is_char_boundary s b \<longrightarrow> b \<le> lim - 3 \<longrightarrow> b \<le> k)"
proof -
  let ?k = "cut_back s (lim - 3)"
  have "?k + 3 \<le> lim" using cut_back_le [of s "lim - 3"] assms by linarith
  moreover have "\<not> length s \<le> lim \<Longrightarrow> str_truncate s ?k = Some (take ?k s)"
    using calculation by (simp add: str_truncate_def cut_back_boundary)
  ultimately show ?thesis
    by (intro exI [of _ ?k]) (simp add: bound_utf8_def cut_back_boundary cut_back_ge)
qed

lemma title_char_shown: "one_char c \<Longrightarrow> one_char (title_char c) \<and> \<not> unshown (title_char c)"
  by (auto simp: title_char_def one_char_ascii unshown_def is_control_def ucode_def)

lemma title_chars_shown:
  assumes "from_utf8_ok title"
  shows "list_all (\<lambda>c. one_char c \<and> \<not> unshown c) (map title_char (uchars title))"
  using uchars_one_char [OF assms] by (auto simp: list_all_iff title_char_shown)

text \<open>A cut of a stamped string at a boundary past the stamp keeps it and cuts the rest.\<close>

lemma take_past_prefix:
  assumes T: "list_all one_char T" and k: "is_char_boundary (P @ concat T) k" "length P \<le> k"
  shows "\<exists>j. take k (P @ concat T) = P @ concat (take j T)"
proof (cases "k \<le> length (P @ concat T)")
  case True
  have "is_char_boundary (concat T) (k - length P)"
    using k True by (auto simp: is_char_boundary_def nth_append)
  then obtain j where "take (k - length P) (concat T) = concat (take j T)"
    using concat_take_boundary [OF T, of "k - length P"] True k(2) by fastforce
  with k(2) show ?thesis by auto
next
  case False
  then show ?thesis by (intro exI [of _ "length T"]) simp
qed

lemma boundary_prefix:
  assumes "list_all one_char T"
  shows "is_char_boundary (P @ concat T) (length P)"
proof (cases T)
  case (Cons c cs)
  then obtain b r where c: "c = b # r" "one_char c"
    using assms by (cases c) (auto simp: one_char_def)
  then have "\<not> is_cont b"
    by (auto simp: one_char_def utf8_width_def is_cont_def byte_in_def Let_def split: if_splits)
  with c show ?thesis by (simp add: is_char_boundary_def Cons)
qed (simp add: is_char_boundary_def)

text \<open>
  C18: a rewritten title never panics and begins with \<open>[zone] \<close>; it is at most 256 bytes of valid
  UTF-8, and what follows the stamp holds no control character and no bidirectional mark.
\<close>

theorem title_for_stamped:
  assumes zone: "length zone \<le> 250" and title: "from_utf8_ok title"
  shows "\<exists>rest. title_for zone title = Some (''['' @ zone @ ''] '' @ concat rest)
    \<and> list_all (\<lambda>c. one_char c \<and> \<not> unshown c) rest
    \<and> length (''['' @ zone @ ''] '' @ concat rest) \<le> MAX_TITLE_BYTES"
proof -
  define P where "P = ''['' @ zone @ ''] ''"
  define T where "T = map title_char (uchars title)"
  have T: "list_all (\<lambda>c. one_char c \<and> \<not> unshown c) T"
    unfolding T_def by (rule title_chars_shown [OF title])
  then have T1: "list_all one_char T" by (simp add: list_all_iff)
  obtain k where k: "title_for zone title =
        Some (if length (P @ concat T) \<le> 256 then P @ concat T else take k (P @ concat T) @ ''...'')"
      "k + 3 \<le> 256" "is_char_boundary (P @ concat T) k" "length P \<le> k"
    using bound_utf8_Some [of 256 "P @ concat T"] boundary_prefix [OF T1, of P] zone
    by (auto simp: title_for_def MAX_TITLE_BYTES_def P_def T_def)
  obtain j where j: "take k (P @ concat T) = P @ concat (take j T)"
    using take_past_prefix [OF T1 k(3,4)] by blast
  have dots: "list_all (\<lambda>c. one_char c \<and> \<not> unshown c) [''.'', ''.'', ''.'']"
    by (simp add: one_char_ascii unshown_def is_control_def ucode_def)
  show ?thesis
  proof (cases "length (P @ concat T) \<le> 256")
    case True
    then show ?thesis using k(1) T
      by (intro exI [of _ T]) (simp add: MAX_TITLE_BYTES_def P_def)
  next
    case False
    have "length (P @ concat (take j T)) \<le> 253" using k(2) unfolding j [symmetric] by simp
    then show ?thesis using k(1) False j list_all_take [OF T, of j] dots
      by (intro exI [of _ "take j T @ [''.'', ''.'', ''.'']"]) (simp add: MAX_TITLE_BYTES_def P_def)
  qed
qed

theorem title_for_stamped_witness:
  "\<exists>rest. title_for ''work'' (''[vault] secrets'' @ [CHR 0x1B]) = Some (''['' @ ''work'' @ ''] '' @ concat rest)
    \<and> list_all (\<lambda>c. one_char c \<and> \<not> unshown c) rest
    \<and> length (''['' @ ''work'' @ ''] '' @ concat rest) \<le> MAX_TITLE_BYTES"
  by (rule title_for_stamped) (simp, code_simp)

section \<open>App ids\<close>

definition app_id_byte :: "byte \<Rightarrow> bool" where
  "app_id_byte b \<longleftrightarrow> is_ascii_alphanumeric b \<or> b = CHR ''-'' \<or> b = CHR ''_''"

lemma app_id_char_ok: "\<exists>b. app_id_char c = [b] \<and> app_id_byte b"
  by (auto simp: app_id_char_def app_id_byte_def split: list.splits)

lemma app_id_chars_ok:
  "list_all app_id_byte (concat (map app_id_char cs)) \<and> length (concat (map app_id_char cs)) = length cs"
proof (induction cs)
  case (Cons c cs)
  then show ?case using app_id_char_ok [of c] by auto
qed simp

lemma app_id_for_shape:
  "\<exists>rest. app_id_for zone claimed = ''kryptik.'' @ zone @ ''.'' @ rest
    \<and> list_all app_id_byte rest \<and> rest \<noteq> [] \<and> length rest \<le> 64"
  using app_id_chars_ok [of "take 64 (uchars claimed)"]
  by (auto simp: app_id_for_def Let_def app_id_byte_def ascii_class_defs)

text \<open>
  The app id a client is shown under names its zone and no other: whatever two clients claim,
  equal app ids come from the same zone, as what follows the zone holds no dot. It adds 1 to 64
  bytes of \<open>[A-Za-z0-9_-]\<close> to the zone's name.
\<close>

theorem app_id_names_zone:
  "(app_id_for z1 c1 = app_id_for z2 c2 \<longrightarrow> z1 = z2)
   \<and> (\<exists>rest. app_id_for z1 c1 = ''kryptik.'' @ z1 @ ''.'' @ rest
        \<and> list_all app_id_byte rest \<and> rest \<noteq> [] \<and> length rest \<le> 64)"
proof
  show "app_id_for z1 c1 = app_id_for z2 c2 \<longrightarrow> z1 = z2"
  proof
    assume eq: "app_id_for z1 c1 = app_id_for z2 c2"
    obtain r1 where r1: "app_id_for z1 c1 = ''kryptik.'' @ z1 @ ''.'' @ r1" "list_all app_id_byte r1"
      using app_id_for_shape by blast
    obtain r2 where r2: "app_id_for z2 c2 = ''kryptik.'' @ z2 @ ''.'' @ r2" "list_all app_id_byte r2"
      using app_id_for_shape by blast
    have dot: "CHR ''.'' \<notin> set r" if "list_all app_id_byte r" for r
      using that by (auto simp: list_all_iff app_id_byte_def ascii_class_defs)
    have "split_once (CHR ''.'') (rev (z1 @ ''.'' @ r1)) = Some (rev r1, rev z1)"
      using dot [OF r1(2)] by (simp add: split_once_Some)
    moreover have "split_once (CHR ''.'') (rev (z2 @ ''.'' @ r2)) = Some (rev r2, rev z2)"
      using dot [OF r2(2)] by (simp add: split_once_Some)
    moreover have "z1 @ ''.'' @ r1 = z2 @ ''.'' @ r2" using eq r1(1) r2(1) by simp
    ultimately show "z1 = z2" by (metis option.inject prod.inject rev_rev_ident)
  qed
qed (rule app_id_for_shape)

theorem app_id_names_zone_witness:
  "app_id_for ''work'' ''fire fox'' = app_id_for ''work'' ''fire.fox''
   \<and> app_id_for ''work'' ''fire fox'' = ''kryptik.work.fire_fox''"
  using app_id_names_zone [of "''work''" "''fire fox''" "''work''" "''fire.fox''"]
  by (simp add: app_id_for_def ascii_uchars app_id_char_def ascii_class_defs)

end
