(* ===== verification/Control.thy ===== *)
theory Control
  imports Rust_Str Clipboard Proxy_Policy
begin

text \<open>
  The move gesture's socket of the proxy (\<open>compositor/wlproxy/src/control.rs\<close>): the requests it reads,
  the move in progress and the pastes the proxy writes itself. Shown: a request is read if and only
  if it is whole and in bounds; the machine of a move ends, takes at most one mebibyte of a listed
  type, and answers a \<open>take\<close> only with a selection that did not change meanwhile; a \<open>clear\<close> ends no
  selection but the one taken; a paste writes the selection's bytes in order.

  Times are milliseconds. \<open>{:?}\<close> of a string (the \<open>Debug\<close> format of the standard library, which
  depends on the Unicode tables) is the parameter \<open>dbg\<close>. What the kernel answers to the reads, writes
  and \<open>pipe2\<close> of a call is a parameter too.
\<close>

section \<open>Requests\<close>

definition DEADLINE :: nat where "DEADLINE = 2000"
definition WRITE_DEADLINE :: nat where "WRITE_DEADLINE = 10000"
definition MAX_WRITERS :: nat where "MAX_WRITERS = 8"
definition LINE_MAX :: nat where "LINE_MAX = 128"

datatype request =
    Req_Take
  | Req_Clear nat
  | Req_Give string bytes

text \<open>The errors of \<open>parse\<close>, one per message of the source.\<close>

datatype ctl_error =
    Line_Over
  | Line_Not_Utf8
  | Not_Generation string
  | Not_Type string
  | Not_Length string
  | Over_Move nat
  | Past_Length
  | Not_A_Request

definition ctl_error_text :: "(string \<Rightarrow> string) \<Rightarrow> ctl_error \<Rightarrow> string" where
  "ctl_error_text dbg e = (case e of
       Line_Over \<Rightarrow> ''a request line over '' @ nat_to_string LINE_MAX @ '' bytes''
     | Line_Not_Utf8 \<Rightarrow> ''a request line that is not UTF-8''
     | Not_Generation g \<Rightarrow> dbg g @ '' is not a generation''
     | Not_Type m \<Rightarrow> dbg m @ '' is not a type the gesture carries''
     | Not_Length l \<Rightarrow> dbg l @ '' is not a length''
     | Over_Move n \<Rightarrow> nat_to_string n @ '' bytes, over the '' @ nat_to_string MAX_MOVE_BYTES @ '' a move carries''
     | Past_Length \<Rightarrow> ''bytes past the length given''
     | Not_A_Request \<Rightarrow> ''the requests are take, clear GENERATION and give TYPE LENGTH'')"

definition parse_give :: "string \<Rightarrow> string \<Rightarrow> bytes \<Rightarrow> ctl_error + request option" where
  "parse_give mime len rest =
     (if mime \<notin> set MOVE_TYPES then Inl (Not_Type mime)
      else case parse_uint 64 len of
        None \<Rightarrow> Inl (Not_Length len)
      | Some n \<Rightarrow>
          if n > MAX_MOVE_BYTES then Inl (Over_Move n)
          else if length rest > n then Inl Past_Length
          else if length rest < n then Inr None
          else Inr (Some (Req_Give mime rest)))"

definition ctl_parse :: "bytes \<Rightarrow> ctl_error + request option" where
  "ctl_parse buf = (case split_once (CHR 0x0A) buf of
       None \<Rightarrow> if length buf > LINE_MAX then Inl Line_Over else Inr None
     | Some (line, rest) \<Rightarrow>
         if \<not> from_utf8_ok line then Inl Line_Not_Utf8
         else (case split_on (CHR '' '') line of
             [w] \<Rightarrow> if w = ''take'' \<and> rest = [] then Inr (Some Req_Take) else Inl Not_A_Request
           | [w, a] \<Rightarrow>
               if w = ''clear'' \<and> rest = []
               then (case parse_uint 64 a of Some g \<Rightarrow> Inr (Some (Req_Clear g)) | None \<Rightarrow> Inl (Not_Generation a))
               else Inl Not_A_Request
           | [w, a, b] \<Rightarrow> if w = ''give'' then parse_give a b rest else Inl Not_A_Request
           | _ \<Rightarrow> Inl Not_A_Request))"

section \<open>A move in progress\<close>

datatype ctl_state =
    Request bytes
  | Taking fd string nat bytes
  | Replying bytes nat

text \<open>\<open>ctl_closed\<close> lists the descriptors dropped so far.\<close>

record control =
  conn :: fd
  deadline :: nat
  ctl_state :: ctl_state
  said :: string
  ctl_closed :: "fd list"

definition ctl_new :: "fd \<Rightarrow> nat \<Rightarrow> control" where
  "ctl_new f now = \<lparr>conn = f, deadline = now + DEADLINE, ctl_state = Request [], said = [], ctl_closed = []\<rparr>"

definition POLLIN :: int where "POLLIN = 1"
definition POLLOUT :: int where "POLLOUT = 4"

definition wants :: "control \<Rightarrow> int \<times> fd option" where
  "wants c = (case ctl_state c of
       Request _ \<Rightarrow> (POLLIN, None)
     | Taking pipe _ _ _ \<Rightarrow> (0, Some pipe)
     | Replying _ _ \<Rightarrow> (POLLOUT, None))"

text \<open>Leaving a state drops what it owned.\<close>

definition state_fds :: "ctl_state \<Rightarrow> fd list" where
  "state_fds st = (case st of Taking pipe _ _ _ \<Rightarrow> [pipe] | _ \<Rightarrow> [])"

definition set_state :: "ctl_state \<Rightarrow> control \<Rightarrow> control" where
  "set_state st c = c\<lparr>ctl_state := st, ctl_closed := ctl_closed c @ state_fds (ctl_state c)\<rparr>"

definition reply :: "bytes \<Rightarrow> nat \<Rightarrow> control \<Rightarrow> control" where
  "reply out now c = set_state (Replying out 0) (c\<lparr>deadline := now + DEADLINE\<rparr>)"

definition ctl_refuse :: "string \<Rightarrow> nat \<Rightarrow> control \<Rightarrow> control" where
  "ctl_refuse why now c = reply (''error: '' @ why @ [CHR 0x0A]) now (c\<lparr>said := ''move refused: '' @ why\<rparr>)"

definition ok_line :: "nat \<Rightarrow> string \<Rightarrow> nat \<Rightarrow> bytes" where
  "ok_line g mime n = ''ok '' @ nat_to_string g @ '' '' @ mime @ '' '' @ nat_to_string n @ [CHR 0x0A]"

definition took :: "nat \<Rightarrow> string \<Rightarrow> string" where
  "took n mime = ''move: took '' @ nat_to_string n @ '' bytes of '' @ mime"

definition answer :: "(fd \<times> fd) option \<Rightarrow> request \<Rightarrow> nat \<Rightarrow> clipboard \<times> control \<Rightarrow> clipboard \<times> control" where
  "answer pipe2 r now cc = (case cc of (clip, c) \<Rightarrow> (case r of
       Req_Take \<Rightarrow> (case selection clip of
           None \<Rightarrow> (clip, reply (''empty'' @ [CHR 0x0A]) now (c\<lparr>said := ''move: nothing to take''\<rparr>))
         | Some sel \<Rightarrow> (case List.find (\<lambda>t. t \<in> set (mimes sel)) MOVE_TYPES of
               None \<Rightarrow> (clip, ctl_refuse ''the selection offers no type the gesture carries'' now c)
             | Some mime \<Rightarrow> (case sel_data sel of
                   Some data \<Rightarrow> (clip, reply (ok_line (generation clip) mime (length data) @ data) now
                     (c\<lparr>said := took (length data) mime\<rparr>))
                 | None \<Rightarrow> (case pipe2 of
                       None \<Rightarrow> (clip, ctl_refuse ''no pipe for the copy'' now c)
                     | Some (rd, wr) \<Rightarrow>
                         (clip\<lparr>actions := actions clip @ [Send (owner sel) (source sel) mime wr]\<rparr>,
                          set_state (Taking rd mime (generation clip) []) (c\<lparr>deadline := now + DEADLINE\<rparr>))))))
     | Req_Give mime data \<Rightarrow>
         (clip_set (Some \<lparr>owner = OWN, source = 0, mimes = [mime], sel_data = Some data\<rparr>) clip,
          reply (''ok'' @ [CHR 0x0A]) now (c\<lparr>said := ''move: given '' @ nat_to_string (length data) @ '' bytes of '' @ mime\<rparr>))
     | Req_Clear g \<Rightarrow>
         if g = generation clip
         then (clip_set None clip, reply (''ok'' @ [CHR 0x0A]) now (c\<lparr>said := ''move: the selection taken was cleared''\<rparr>))
         else (clip, ctl_refuse ''the selection changed since it was taken, and was left as it is'' now c)))"

text \<open>
  What the reads and writes of one call to \<open>step\<close> come to, in order; past the end of a list the
  descriptor is not ready.
\<close>

datatype read_answer = Rd bytes | Rd_Eof | Rd_WouldBlock | Rd_Error

datatype write_answer = Wr nat | Wr_WouldBlock | Wr_Error

record ctl_io =
  conn_reads :: "read_answer list"
  pipe_reads :: "read_answer list"
  conn_writes :: "write_answer list"

definition next_rd :: "read_answer list \<Rightarrow> read_answer" where
  "next_rd as = (case as of [] \<Rightarrow> Rd_WouldBlock | a # _ \<Rightarrow> a)"

definition next_wr :: "write_answer list \<Rightarrow> write_answer" where
  "next_wr as = (case as of [] \<Rightarrow> Wr_WouldBlock | a # _ \<Rightarrow> a)"

text \<open>
  The arms of the loop of \<open>step\<close>. Each gives what it returns, or how it goes on.
\<close>

datatype 'a turned = Done bool 'a | Again 'a

definition step_request :: "(string \<Rightarrow> string) \<Rightarrow> (fd \<times> fd) option \<Rightarrow> nat \<Rightarrow> read_answer \<Rightarrow> bytes \<Rightarrow>
    clipboard \<times> control \<Rightarrow> (clipboard \<times> control) turned" where
  "step_request dbg pipe2 now a buf cc = (case cc of (clip, c) \<Rightarrow>
     if a = Rd_Error then Done True (clip, c)
     else
       let buf = (case a of Rd b \<Rightarrow> buf @ b | _ \<Rightarrow> buf); c = c\<lparr>ctl_state := Request buf\<rparr> in
       (case ctl_parse buf of
          Inr (Some r) \<Rightarrow> Again (answer pipe2 r now (clip, c))
        | Inr None \<Rightarrow>
            if a = Rd_Eof then Done True (clip, c)
            else if now \<ge> deadline c then Again (clip, ctl_refuse ''the request did not come in time'' now c)
            else if length buf > LINE_MAX + MAX_MOVE_BYTES then Again (clip, ctl_refuse ''a request over its bound'' now c)
            else Done False (clip, c)
        | Inl why \<Rightarrow> Again (clip, ctl_refuse (ctl_error_text dbg why) now c)))"

definition step_taking :: "nat \<Rightarrow> read_answer \<Rightarrow> fd \<Rightarrow> string \<Rightarrow> nat \<Rightarrow> bytes \<Rightarrow>
    clipboard \<times> control \<Rightarrow> (clipboard \<times> control) turned" where
  "step_taking now a pipe mime gen data cc = (case cc of (clip, c) \<Rightarrow> (case a of
       Rd b \<Rightarrow>
         let data = data @ b; c = c\<lparr>ctl_state := Taking pipe mime gen data\<rparr> in
         if length data > MAX_MOVE_BYTES
         then Again (clip, ctl_refuse ''the selection is over 1 MiB, so nothing moved'' now c)
         else Again (clip, c)
     | Rd_WouldBlock \<Rightarrow>
         if now < deadline c then Done False (clip, c)
         else Again (clip, ctl_refuse ''the copying window did not answer within 2 s, so nothing moved'' now c)
     | Rd_Error \<Rightarrow> Again (clip, ctl_refuse ''the selection changed while it was read, so nothing moved'' now c)
     | Rd_Eof \<Rightarrow>
         if generation clip \<noteq> gen
         then Again (clip, ctl_refuse ''the selection changed while it was read, so nothing moved'' now c)
         else Again (clip, reply (ok_line gen mime (length data) @ data) now (c\<lparr>said := took (length data) mime\<rparr>))))"

definition step_replying :: "nat \<Rightarrow> write_answer \<Rightarrow> bytes \<Rightarrow> nat \<Rightarrow>
    clipboard \<times> control \<Rightarrow> (clipboard \<times> control) turned" where
  "step_replying now a out pos cc = (case cc of (clip, c) \<Rightarrow> (case a of
       Wr n \<Rightarrow>
         let c = c\<lparr>ctl_state := Replying out (pos + n)\<rparr> in
         if pos + n = length out then Done True (clip, c) else Again (clip, c)
     | Wr_WouldBlock \<Rightarrow> Done (now \<ge> deadline c) (clip, c)
     | Wr_Error \<Rightarrow> Done True (clip, c)))"

definition state_rank :: "ctl_state \<Rightarrow> nat" where
  "state_rank st = (case st of Request _ \<Rightarrow> 2 | Taking _ _ _ _ \<Rightarrow> 1 | Replying _ _ \<Rightarrow> 0)"

definition io_left :: "ctl_io \<Rightarrow> nat" where
  "io_left io = length (conn_reads io) + length (pipe_reads io) + length (conn_writes io)"

lemma state_rank_answer: "state_rank (ctl_state (snd (answer p r now (clip, c)))) < 2"
  by (auto simp: answer_def reply_def ctl_refuse_def set_state_def state_rank_def
      split: request.split option.split)

lemma state_rank_reply [simp]:
  "ctl_state (reply out now c) = Replying out 0"
  "ctl_state (ctl_refuse why now c) = Replying (''error: '' @ why @ [CHR 0x0A]) 0"
  by (simp_all add: reply_def ctl_refuse_def set_state_def)

lemma step_request_again:
  "step_request dbg p now a buf cc = Again (clip, c) \<Longrightarrow> state_rank (ctl_state c) < 2"
  using state_rank_answer
  by (auto simp: step_request_def Let_def state_rank_def [of "Replying _ _"] split: prod.splits if_splits sum.splits option.splits)
    (metis snd_conv)+

lemma step_taking_again:
  "step_taking now a pipe mime gen data cc = Again (clip, c) \<Longrightarrow>
     state_rank (ctl_state c) \<le> 1 \<and> (a = Rd_WouldBlock \<longrightarrow> state_rank (ctl_state c) = 0)"
  by (auto simp: step_taking_def Let_def state_rank_def split: prod.splits if_splits read_answer.splits)

lemma step_replying_again:
  "step_replying now a out pos cc = Again (clip, c) \<Longrightarrow> state_rank (ctl_state c) = 0 \<and> a \<noteq> Wr_WouldBlock"
  by (auto simp: step_replying_def Let_def state_rank_def split: prod.splits if_splits write_answer.splits)

text \<open>
  The loop of \<open>step\<close>. It ends: each turn takes an answer off the lists or moves the state on from
  request to taking to replying.
\<close>

function ctl_step :: "(string \<Rightarrow> string) \<Rightarrow> (fd \<times> fd) option \<Rightarrow> nat \<Rightarrow> ctl_io \<Rightarrow> clipboard \<times> control \<Rightarrow>
    bool \<times> clipboard \<times> control" where
  "ctl_step dbg pipe2 now io cc = (case ctl_state (snd cc) of
       Request buf \<Rightarrow> (case step_request dbg pipe2 now (next_rd (conn_reads io)) buf cc of
           Done b cc' \<Rightarrow> (b, cc')
         | Again cc' \<Rightarrow> ctl_step dbg pipe2 now (io\<lparr>conn_reads := drop 1 (conn_reads io)\<rparr>) cc')
     | Taking pipe mime gen data \<Rightarrow> (case step_taking now (next_rd (pipe_reads io)) pipe mime gen data cc of
           Done b cc' \<Rightarrow> (b, cc')
         | Again cc' \<Rightarrow> ctl_step dbg pipe2 now (io\<lparr>pipe_reads := drop 1 (pipe_reads io)\<rparr>) cc')
     | Replying out pos \<Rightarrow> (case step_replying now (next_wr (conn_writes io)) out pos cc of
           Done b cc' \<Rightarrow> (b, cc')
         | Again cc' \<Rightarrow> ctl_step dbg pipe2 now (io\<lparr>conn_writes := drop 1 (conn_writes io)\<rparr>) cc'))"
  by pat_completeness auto

termination ctl_step
proof (relation "measure (\<lambda>(_, _, _, io, cc). io_left io + state_rank (ctl_state (snd cc)))", goal_cases)
  case (2 dbg pipe2 now io cc buf cc')
  have "state_rank (ctl_state (snd cc')) < 2" using step_request_again 2(2) by (metis prod.collapse)
  then show ?case using 2(1) by (simp add: io_left_def state_rank_def [of "Request _"])
next
  case (3 dbg pipe2 now io cc pipe mime gen data cc')
  have "state_rank (ctl_state (snd cc')) \<le> 1 \<and> (next_rd (pipe_reads io) = Rd_WouldBlock \<longrightarrow> state_rank (ctl_state (snd cc')) = 0)"
    using step_taking_again 3(2) by (metis prod.collapse)
  then show ?case using 3(1)
    by (cases "pipe_reads io") (auto simp: io_left_def next_rd_def state_rank_def [of "Taking _ _ _ _"])
next
  case (4 dbg pipe2 now io cc out pos cc')
  have "state_rank (ctl_state (snd cc')) = 0 \<and> next_wr (conn_writes io) \<noteq> Wr_WouldBlock"
    using step_replying_again 4(2) by (metis prod.collapse)
  then show ?case using 4(1)
    by (cases "conn_writes io") (auto simp: io_left_def next_wr_def state_rank_def [of "Replying _ _"])
qed simp

declare ctl_step.simps [simp del]

section \<open>Pastes of the proxy's own selection\<close>

record writer =
  w_fd :: fd
  w_data :: bytes
  w_pos :: nat
  w_deadline :: nat
  w_written :: bytes   \<comment> \<open>what the descriptor has taken\<close>

definition writer_new :: "fd \<Rightarrow> bytes \<Rightarrow> nat \<Rightarrow> writer" where
  "writer_new f data now = \<lparr>w_fd = f, w_data = data, w_pos = 0, w_deadline = now + WRITE_DEADLINE, w_written = []\<rparr>"

fun writer_step :: "nat \<Rightarrow> write_answer list \<Rightarrow> writer \<Rightarrow> bool \<times> writer" where
  "writer_step now as w =
     (if w_pos w \<ge> length (w_data w) then (True, w)
      else case as of
        [] \<Rightarrow> (now \<ge> w_deadline w, w)
      | Wr n # as' \<Rightarrow>
          if n > 0
          then writer_step now as' (w\<lparr>w_pos := w_pos w + n, w_written := w_written w @ take n (drop (w_pos w) (w_data w))\<rparr>)
          else (True, w)
      | Wr_WouldBlock # _ \<Rightarrow> (now \<ge> w_deadline w, w)
      | Wr_Error # _ \<Rightarrow> (True, w))"

declare writer_step.simps [simp del]

section \<open>The requests read\<close>

lemma split_on_from_join:
  "split_on_from d s cur = (if d \<in> set s then (cur @ takeWhile (\<lambda>c. c \<noteq> d) s) # split_on_from d (drop 1 (dropWhile (\<lambda>c. c \<noteq> d) s)) []
     else [cur @ s])"
  by (induction s arbitrary: cur) auto

lemma split_on_one: "split_on d s = [w] \<longleftrightarrow> s = w \<and> d \<notin> set w"
  and split_on_Cons: "split_on d s = w # x # ws \<longleftrightarrow> (\<exists>t. s = w @ d # t \<and> d \<notin> set w \<and> split_on d t = x # ws)"
proof -
  have ne: "split_on_from d t cur \<noteq> []" for t cur by (induction t arbitrary: cur) auto
  have so: "split_once d s = Some (a, b) \<Longrightarrow> split_on d s = a # split_on d b" for a b
    by (subst (asm) split_once_def) (auto simp: split_on_def split_on_from_join [of d s] split: if_splits)
  have no: "d \<notin> set s \<Longrightarrow> split_on d s = [s]" by (simp add: split_on_def split_on_from_join [of d s])
  have yes: "d \<in> set s \<Longrightarrow> \<exists>a b. split_once d s = Some (a, b)" by (simp add: split_once_def)
  show "split_on d s = [w] \<longleftrightarrow> s = w \<and> d \<notin> set w"
    using so no yes ne [of _ "[]"] by (cases "d \<in> set s") (fastforce simp: split_on_def)+
  show "split_on d s = w # x # ws \<longleftrightarrow> (\<exists>t. s = w @ d # t \<and> d \<notin> set w \<and> split_on d t = x # ws)"
  proof
    assume a: "split_on d s = w # x # ws"
    then have "d \<in> set s" using no by auto
    then obtain p q where pq: "split_once d s = Some (p, q)" using yes by blast
    then show "\<exists>t. s = w @ d # t \<and> d \<notin> set w \<and> split_on d t = x # ws"
      using so [OF pq] a by (auto simp: split_once_Some)
  next
    assume "\<exists>t. s = w @ d # t \<and> d \<notin> set w \<and> split_on d t = x # ws"
    then obtain t where t: "s = w @ d # t" "d \<notin> set w" "split_on d t = x # ws" by blast
    then show "split_on d s = w # x # ws" using so [of w t] by (simp add: split_once_Some)
  qed
qed

lemma move_types_plain: "list_all (\<lambda>t. ascii t \<and> CHR '' '' \<notin> set t \<and> CHR 0x0A \<notin> set t) MOVE_TYPES"
  by code_simp

lemma parse_uint_plain:
  assumes "parse_uint b s = Some n"
  shows "ascii s \<and> CHR '' '' \<notin> set s \<and> CHR 0x0A \<notin> set s"
proof -
  have d: "ascii ds \<and> CHR '' '' \<notin> set ds \<and> CHR 0x0A \<notin> set ds" if "list_all is_ascii_digit ds" for ds
    using that by (auto simp: ascii_def list_all_iff is_ascii_digit_def byte_in_def)
  obtain ds where "s = ds \<or> s = CHR ''+'' # ds" "list_all is_ascii_digit ds"
    using assms by (cases s) (auto simp: parse_uint_def Let_def split: if_splits)
  then show ?thesis using d [of ds] by auto
qed

lemma parse_give_iff:
  "parse_give m l rest = Inr (Some r) \<longleftrightarrow>
     r = Req_Give m rest \<and> m \<in> set MOVE_TYPES \<and> length rest \<le> MAX_MOVE_BYTES \<and> parse_uint 64 l = Some (length rest)"
  by (auto simp: parse_give_def split: option.splits)

lemma words_utf8: "ascii a \<Longrightarrow> from_utf8_ok (''clear '' @ a)" "ascii a \<Longrightarrow> ascii b \<Longrightarrow> from_utf8_ok (''give '' @ a @ '' '' @ b)"
  by (auto intro!: ascii_utf8_ok)

text \<open>
  C22: A request is read exactly when it is whole and in bounds. The parser returns \<open>take\<close> for the
  bare line, \<open>clear\<close> for a line with one number, and \<open>give\<close> for a line with a type from the fixed list
  and a length of at most one mebibyte followed by exactly that many bytes; nothing else is a
  request, and nothing follows one.
\<close>

theorem ctl_parse_iff:
  "ctl_parse buf = Inr (Some r) \<longleftrightarrow> (case r of
     Req_Take \<Rightarrow> buf = ''take'' @ [CHR 0x0A]
   | Req_Clear g \<Rightarrow> \<exists>a. parse_uint 64 a = Some g \<and> buf = ''clear '' @ a @ [CHR 0x0A]
   | Req_Give m d \<Rightarrow> m \<in> set MOVE_TYPES \<and> length d \<le> MAX_MOVE_BYTES
       \<and> (\<exists>l. parse_uint 64 l = Some (length d) \<and> buf = ''give '' @ m @ '' '' @ l @ [CHR 0x0A] @ d))"
  (is "?l \<longleftrightarrow> ?r")
proof
  assume ?l
  then obtain line rest where b: "buf = line @ CHR 0x0A # rest" "CHR 0x0A \<notin> set line"
      and run: "split_once (CHR 0x0A) buf = Some (line, rest)"
    by (auto simp: ctl_parse_def split_once_Some split: option.splits if_splits)
  consider w where "split_on (CHR '' '') line = [w]" | w a where "split_on (CHR '' '') line = [w, a]"
    | w a e where "split_on (CHR '' '') line = [w, a, e]" | "length (split_on (CHR '' '') line) \<notin> {1, 2, 3}"
    by (auto simp: numeral_eq_Suc length_Suc_conv) blast
  then show ?r
  proof cases
    case (1 w)
    then have "line = w" by (simp add: split_on_one)
    then show ?thesis using \<open>?l\<close> run b 1 by (auto simp: ctl_parse_def split: if_splits)
  next
    case (2 w a)
    then have "line = w @ '' '' @ a" by (auto simp: split_on_one split_on_Cons)
    then show ?thesis using \<open>?l\<close> run b 2 by (auto simp: ctl_parse_def split: if_splits option.splits)
  next
    case (3 w a e)
    then have "line = w @ '' '' @ a @ '' '' @ e" by (auto simp: split_on_one split_on_Cons)
    then show ?thesis using \<open>?l\<close> run b 3 by (auto simp: ctl_parse_def parse_give_iff split: if_splits)
  next
    case 4
    then show ?thesis
      using \<open>?l\<close> run by (auto simp: ctl_parse_def split: if_splits list.splits)
  qed
next
  assume ?r
  then show ?l
  proof (cases r)
    case Req_Take
    have "split_once (CHR 0x0A) buf = Some (''take'', [])" "split_on (CHR '' '') ''take'' = [''take'']"
      using \<open>?r\<close> Req_Take by (simp_all add: split_once_Some split_on_one)
    then show ?thesis using Req_Take by (simp add: ctl_parse_def)
  next
    case (Req_Clear g)
    then obtain a where a: "parse_uint 64 a = Some g" "buf = ''clear '' @ a @ [CHR 0x0A]" using \<open>?r\<close> by auto
    note pl = parse_uint_plain [OF a(1)]
    have "split_once (CHR 0x0A) buf = Some (''clear '' @ a, [])" "split_on (CHR '' '') (''clear '' @ a) = [''clear'', a]"
      using a(2) pl by (simp_all add: split_once_Some split_on_one split_on_Cons)
    then show ?thesis using Req_Clear a(1) words_utf8(1) pl by (simp add: ctl_parse_def)
  next
    case (Req_Give m d)
    then obtain l where l: "m \<in> set MOVE_TYPES" "length d \<le> MAX_MOVE_BYTES" "parse_uint 64 l = Some (length d)"
        "buf = ''give '' @ m @ '' '' @ l @ [CHR 0x0A] @ d" using \<open>?r\<close> by auto
    note pl = parse_uint_plain [OF l(3)]
    have m: "ascii m" "CHR '' '' \<notin> set m" "CHR 0x0A \<notin> set m" using move_types_plain l(1) by (auto simp: list_all_iff)
    have "split_once (CHR 0x0A) buf = Some (''give '' @ m @ '' '' @ l, d)"
        "split_on (CHR '' '') (''give '' @ m @ '' '' @ l) = [''give'', m, l]"
      using l(4) m pl by (simp_all add: split_once_Some split_on_one split_on_Cons)
    then show ?thesis using Req_Give l words_utf8(2) m(1) pl by (simp add: ctl_parse_def parse_give_iff)
  qed
qed

section \<open>A take\<close>

lemma replying_run:
  "ctl_state c = Replying out pos \<Longrightarrow> ctl_step dbg p now io (clip, c) = (b, clip', c') \<Longrightarrow>
     clip' = clip \<and> (\<exists>pos'. ctl_state c' = Replying out pos')"
proof (induction "conn_writes io" arbitrary: io c pos)
  case Nil
  then show ?case by (simp add: ctl_step.simps [of _ _ _ io] next_wr_def step_replying_def)
next
  case (Cons a as)
  have as: "as = conn_writes (io\<lparr>conn_writes := drop 1 (conn_writes io)\<rparr>)" "next_wr (conn_writes io) = a"
    using Cons.hyps(2) [symmetric] by (simp_all add: next_wr_def)
  show ?case
  proof (cases a)
    case (Wr n)
    let ?c = "c\<lparr>ctl_state := Replying out (pos + n)\<rparr>"
    show ?thesis
    proof (cases "pos + n = length out")
      case True
      then show ?thesis using Cons.prems as(2) Wr by (auto simp: ctl_step.simps [of _ _ _ io] step_replying_def Let_def)
    next
      case False
      then have "ctl_step dbg p now (io\<lparr>conn_writes := drop 1 (conn_writes io)\<rparr>) (clip, ?c) = (b, clip', c')"
        using Cons.prems as(2) Wr by (simp add: ctl_step.simps [of _ _ _ io] step_replying_def Let_def)
      then show ?thesis by (rule Cons.hyps(1) [OF as(1), rotated]) simp
    qed
  qed (use Cons.prems as(2) in \<open>simp_all add: ctl_step.simps [of _ _ _ io] step_replying_def\<close>)
qed

definition refused :: "ctl_state \<Rightarrow> bool" where
  "refused st \<longleftrightarrow> (\<exists>why pos. st = Replying (''error: '' @ why @ [CHR 0x0A]) pos)"

lemma refuse_run:
  "ctl_step dbg p now io (clip, ctl_refuse why now c) = (b, clip', c') \<Longrightarrow> clip' = clip \<and> refused (ctl_state c')"
  using replying_run [of "ctl_refuse why now c"] unfolding refused_def by fastforce

text \<open>What a step makes of a selection being read: \<open>bs\<close> are the chunks the pipe gave.\<close>

definition taken :: "ctl_io \<Rightarrow> clipboard \<Rightarrow> fd \<Rightarrow> string \<Rightarrow> nat \<Rightarrow> bytes \<Rightarrow> ctl_state \<Rightarrow> bool" where
  "taken io clip pipe mime g data st \<longleftrightarrow>
     refused st
     \<or> (\<exists>bs rest. pipe_reads io = map Rd bs @ rest \<and> st = Taking pipe mime g (data @ concat bs)
          \<and> (bs = [] \<or> length (data @ concat bs) \<le> MAX_MOVE_BYTES))
     \<or> (\<exists>bs rest pos. pipe_reads io = map Rd bs @ Rd_Eof # rest \<and> generation clip = g
          \<and> (bs = [] \<or> length (data @ concat bs) \<le> MAX_MOVE_BYTES)
          \<and> st = Replying (ok_line g mime (length (data @ concat bs)) @ data @ concat bs) pos)"

lemma taken_Cons:
  assumes t: "taken io' clip pipe mime g (data @ b) st" and io: "pipe_reads io = Rd b # pipe_reads io'"
    and le: "length (data @ b) \<le> MAX_MOVE_BYTES"
  shows "taken io clip pipe mime g data st"
proof -
  from t consider "refused st"
    | bs rest where "pipe_reads io' = map Rd bs @ rest" "st = Taking pipe mime g ((data @ b) @ concat bs)"
        "bs = [] \<or> length ((data @ b) @ concat bs) \<le> MAX_MOVE_BYTES"
    | bs rest pos where "pipe_reads io' = map Rd bs @ Rd_Eof # rest" "generation clip = g"
        "bs = [] \<or> length ((data @ b) @ concat bs) \<le> MAX_MOVE_BYTES"
        "st = Replying (ok_line g mime (length ((data @ b) @ concat bs)) @ (data @ b) @ concat bs) pos"
    unfolding taken_def by blast
  then show ?thesis
  proof cases
    case 1
    then show ?thesis by (simp add: taken_def)
  next
    case (2 bs rest)
    then show ?thesis using io le unfolding taken_def by (intro disjI2 disjI1 exI [of _ "b # bs"]) auto
  next
    case (3 bs rest pos)
    then show ?thesis using io le unfolding taken_def by (intro disjI2 exI [of _ "b # bs"]) auto
  qed
qed

lemma taken_stay: "taken io clip pipe mime g data (Taking pipe mime g data)"
  unfolding taken_def by (rule disjI2, rule disjI1, rule exI [of _ "[]"], rule exI [of _ "pipe_reads io"]) simp

lemma taken_refused: "refused st \<Longrightarrow> taken io clip pipe mime g data st"
  by (simp add: taken_def)

lemma taking_run:
  "ctl_state c = Taking pipe mime g data \<Longrightarrow> ctl_step dbg p now io (clip, c) = (b, clip', c') \<Longrightarrow>
     clip' = clip \<and> taken io clip pipe mime g data (ctl_state c')"
proof (induction "pipe_reads io" arbitrary: io c data)
  case Nil
  show ?case
    using Nil taken_stay [of io clip pipe mime g data] refuse_run [of dbg p now _ clip _ c b clip' c']
    by (auto simp: ctl_step.simps [of _ _ _ io] next_rd_def step_taking_def taken_refused split: if_splits)
next
  case (Cons a as)
  let ?io = "io\<lparr>pipe_reads := drop 1 (pipe_reads io)\<rparr>"
  have as: "as = pipe_reads ?io" "next_rd (pipe_reads io) = a" and io: "pipe_reads io = a # as"
    using Cons.hyps(2) [symmetric] by (simp_all add: next_rd_def)
  note run = Cons.prems(2) [unfolded ctl_step.simps [of _ _ _ io] Cons.prems(1) snd_conv ctl_state.case as(2)]
  show ?case
  proof (cases a)
    case (Rd bs1)
    let ?d = "data @ bs1"
    let ?c = "c\<lparr>ctl_state := Taking pipe mime g ?d\<rparr>"
    show ?thesis
    proof (cases "length ?d > MAX_MOVE_BYTES")
      case True
      then show ?thesis using run Rd refuse_run by (auto simp: step_taking_def Let_def taken_refused)
    next
      case False
      then have "ctl_step dbg p now ?io (clip, ?c) = (b, clip', c')" using run Rd by (simp add: step_taking_def Let_def)
      then have "clip' = clip \<and> taken ?io clip pipe mime g ?d (ctl_state c')"
        by (rule Cons.hyps(1) [OF as(1), rotated]) simp
      then show ?thesis using taken_Cons [of ?io clip pipe mime g data bs1 _ io] False io Rd by simp
    qed
  next
    case Rd_Eof
    let ?c = "reply (ok_line g mime (length data) @ data) now (c\<lparr>said := took (length data) mime\<rparr>)"
    show ?thesis
    proof (cases "generation clip = g")
      case True
      then have "ctl_step dbg p now ?io (clip, ?c) = (b, clip', c')" using run Rd_Eof by (simp add: step_taking_def)
      then have "clip' = clip \<and> (\<exists>pos. ctl_state c' = Replying (ok_line g mime (length data) @ data) pos)"
        by (rule replying_run [rotated]) simp
      then obtain pos where "clip' = clip" "ctl_state c' = Replying (ok_line g mime (length data) @ data) pos" by blast
      moreover have "taken io clip pipe mime g data (Replying (ok_line g mime (length data) @ data) pos)"
        unfolding taken_def
        by (rule disjI2, rule disjI2, rule exI [of _ "[]"], rule exI [of _ as], rule exI [of _ pos]) (use True io Rd_Eof in simp)
      ultimately show ?thesis by simp
    next
      case False
      then show ?thesis using run Rd_Eof refuse_run by (auto simp: step_taking_def taken_refused)
    qed
  next
    case Rd_WouldBlock
    show ?thesis
      using taken_stay run Rd_WouldBlock Cons.prems(1) refuse_run by (auto simp: step_taking_def taken_refused split: if_splits)
  next
    case Rd_Error
    then show ?thesis using run refuse_run by (auto simp: step_taking_def taken_refused)
  qed
qed

text \<open>
  C23: A take moves the whole selection or nothing. While a selection is read from the copying client,
  a step leaves the clipboard alone and comes to one of three states: still reading, with every
  byte the pipe gave so far and at most one mebibyte of them; refused; or answering \<open>ok\<close> with the
  generation, the type and exactly the bytes the pipe gave up to its end, which happens only if the
  selection is still the one the take began with.
\<close>

theorem take_whole_or_nothing:
  assumes "ctl_state c = Taking pipe mime g data" "ctl_step dbg p now io (clip, c) = (b, clip', c')"
  shows "clip' = clip \<and> (refused (ctl_state c')
     \<or> (\<exists>bs rest. pipe_reads io = map Rd bs @ rest \<and> ctl_state c' = Taking pipe mime g (data @ concat bs)
          \<and> (bs = [] \<or> length (data @ concat bs) \<le> MAX_MOVE_BYTES))
     \<or> (\<exists>bs rest pos. pipe_reads io = map Rd bs @ Rd_Eof # rest \<and> generation clip = g
          \<and> (bs = [] \<or> length (data @ concat bs) \<le> MAX_MOVE_BYTES)
          \<and> ctl_state c' = Replying (ok_line g mime (length (data @ concat bs)) @ data @ concat bs) pos))"
  using taking_run [OF assms] unfolding taken_def .

definition demo_taking :: control where
  "demo_taking = \<lparr>conn = 5, deadline = 2000, ctl_state = Taking 6 ''text/plain'' 3 [], said = [], ctl_closed = []\<rparr>"

definition demo_io :: ctl_io where
  "demo_io = \<lparr>conn_reads = [], pipe_reads = [Rd ''hel'', Rd ''lo'', Rd_Eof], conn_writes = [Wr 4]\<rparr>"

theorem take_whole_or_nothing_witness:
  "case ctl_step (\<lambda>s. s) None 10 demo_io (clipboard_default\<lparr>generation := 3\<rparr>, demo_taking) of (b, clip', c') \<Rightarrow>
     clip' = clipboard_default\<lparr>generation := 3\<rparr> \<and> ctl_state c' = Replying (ok_line 3 ''text/plain'' 5 @ ''hello'') 4"
proof -
  let ?clip = "clipboard_default\<lparr>generation := 3\<rparr>"
  obtain b clip' c' where r: "ctl_step (\<lambda>s. s) None 10 demo_io (?clip, demo_taking) = (b, clip', c')"
    by (metis prod_cases3)
  have st: "ctl_state demo_taking = Taking 6 ''text/plain'' 3 []" by (simp add: demo_taking_def)
  have "case ctl_step (\<lambda>s. s) None 10 demo_io (?clip, demo_taking) of (b, clip', c') \<Rightarrow>
      ctl_state c' = Replying (ok_line 3 ''text/plain'' 5 @ ''hello'') 4" by code_simp
  then show ?thesis using take_whole_or_nothing [OF st r] r by simp
qed

section \<open>What a request does to the zone's selection\<close>

lemma later_run:
  assumes "state_rank (ctl_state c) < 2" "ctl_step dbg p now io (clip, c) = (b, clip', c')"
  shows "clip' = clip"
proof (cases "ctl_state c")
  case (Taking pipe mime g data)
  then show ?thesis using taking_run assms(2) by blast
next
  case (Replying out pos)
  then show ?thesis using replying_run assms(2) by blast
qed (use assms(1) in \<open>simp add: state_rank_def\<close>)

definition received :: "ctl_io \<Rightarrow> bytes" where
  "received io = (case next_rd (conn_reads io) of Rd b \<Rightarrow> b | _ \<Rightarrow> [])"

lemma request_step:
  assumes "step_request dbg p now (next_rd (conn_reads io)) buf (clip, c) = r"
  shows "(\<exists>b c'. r = Done b (clip, c')) \<or> (\<exists>c'. r = Again (clip, c') \<and> state_rank (ctl_state c') < 2)
    \<or> (\<exists>q. ctl_parse (buf @ received io) = Inr (Some q)
         \<and> r = Again (answer p q now (clip, c\<lparr>ctl_state := Request (buf @ received io)\<rparr>)))"
  using assms
  by (auto simp: step_request_def received_def Let_def state_rank_def split: read_answer.splits sum.splits option.splits if_splits)

text \<open>
  C24: Only a whole \<open>give\<close> or a \<open>clear\<close> of the present generation changes the selection. Reading a
  request leaves the clipboard as it was, except that a \<open>take\<close> asks the copying client for the bytes in
  a listed type it offers, a \<open>give\<close> makes its bytes the selection, held by the proxy, and a \<open>clear\<close> that
  names the generation the selection still has ends it; a \<open>clear\<close> of any other generation, and every
  refused request, changes nothing.
\<close>

theorem request_changes_clipboard:
  assumes "ctl_state c = Request buf" "ctl_step dbg p now io (clip, c) = (b, clip', c')"
  shows "clip' = clip
    \<or> (\<exists>sel mime rd wr. ctl_parse (buf @ received io) = Inr (Some Req_Take) \<and> selection clip = Some sel
         \<and> sel_data sel = None \<and> p = Some (rd, wr) \<and> mime \<in> set MOVE_TYPES \<and> mime \<in> set (mimes sel)
         \<and> clip' = clip\<lparr>actions := actions clip @ [Send (owner sel) (source sel) mime wr]\<rparr>)
    \<or> (\<exists>m d. ctl_parse (buf @ received io) = Inr (Some (Req_Give m d)) \<and> m \<in> set MOVE_TYPES \<and> length d \<le> MAX_MOVE_BYTES
         \<and> clip' = clip_set (Some \<lparr>owner = OWN, source = 0, mimes = [m], sel_data = Some d\<rparr>) clip)
    \<or> (ctl_parse (buf @ received io) = Inr (Some (Req_Clear (generation clip))) \<and> clip' = clip_set None clip)"
proof -
  obtain r where r: "step_request dbg p now (next_rd (conn_reads io)) buf (clip, c) = r" by blast
  note run = assms(2) [unfolded ctl_step.simps [of _ _ _ io] assms(1) snd_conv ctl_state.case r]
  from request_step [OF r] consider b' c1 where "r = Done b' (clip, c1)"
    | c1 where "r = Again (clip, c1)" "state_rank (ctl_state c1) < 2"
    | q where "ctl_parse (buf @ received io) = Inr (Some q)"
        "r = Again (answer p q now (clip, c\<lparr>ctl_state := Request (buf @ received io)\<rparr>))" by blast
  then show ?thesis
  proof cases
    case 1
    then show ?thesis using run by simp
  next
    case 2
    then show ?thesis using run later_run by auto
  next
    case (3 q)
    obtain clip1 c1 where a: "answer p q now (clip, c\<lparr>ctl_state := Request (buf @ received io)\<rparr>) = (clip1, c1)" by fastforce
    have "state_rank (ctl_state c1) < 2" using state_rank_answer a by (metis snd_conv)
    then have clip': "clip' = clip1" using run 3(2) a later_run by auto
    show ?thesis
    proof (cases q)
      case Req_Take
      have "clip1 = clip \<or> (\<exists>sel mime rd wr. selection clip = Some sel \<and> sel_data sel = None \<and> p = Some (rd, wr)
          \<and> List.find (\<lambda>t. t \<in> set (mimes sel)) MOVE_TYPES = Some mime
          \<and> clip1 = clip\<lparr>actions := actions clip @ [Send (owner sel) (source sel) mime wr]\<rparr>)"
        using a Req_Take by (auto simp: answer_def split: option.splits)
      moreover have "mime \<in> set MOVE_TYPES \<and> mime \<in> set (mimes sel)"
        if "List.find (\<lambda>t. t \<in> set (mimes sel)) MOVE_TYPES = Some mime" for sel mime
        using that unfolding find_Some_iff by auto
      ultimately show ?thesis using 3(1) Req_Take unfolding clip' by blast
    next
      case (Req_Clear g)
      then show ?thesis using a 3(1) clip' by (auto simp: answer_def split: if_splits)
    next
      case (Req_Give m d)
      have "m \<in> set MOVE_TYPES \<and> length d \<le> MAX_MOVE_BYTES"
        using 3(1) Req_Give by (auto simp: ctl_parse_def parse_give_iff split: option.splits if_splits list.splits)
      then show ?thesis using a 3(1) clip' Req_Give by (auto simp: answer_def)
    qed
  qed
qed

theorem request_changes_clipboard_witness:
  "case ctl_step (\<lambda>s. s) None 10 \<lparr>conn_reads = [Rd (''clear 3'' @ [CHR 0x0A])], pipe_reads = [], conn_writes = []\<rparr>
      (clipboard_default\<lparr>generation := 4\<rparr>, ctl_new 5 0) of (b, clip', c') \<Rightarrow> clip' = clipboard_default\<lparr>generation := 4\<rparr>"
proof -
  let ?clip = "clipboard_default\<lparr>generation := 4\<rparr>"
  let ?io = "\<lparr>conn_reads = [Rd (''clear 3'' @ [CHR 0x0A])], pipe_reads = [], conn_writes = []\<rparr>"
  obtain b clip' c' where r: "ctl_step (\<lambda>s. s) None 10 ?io (?clip, ctl_new 5 0) = (b, clip', c')" by (metis prod_cases3)
  have st: "ctl_state (ctl_new 5 0) = Request []" by (simp add: ctl_new_def)
  have q: "ctl_parse ([] @ received ?io) = Inr (Some (Req_Clear 3))" by code_simp
  then show ?thesis using request_changes_clipboard [OF st r] r by (simp add: q [simplified] clipboard_default_def)
qed

section \<open>Pastes\<close>

lemma writer_step_inv:
  "w_written w = take (w_pos w) (w_data w) \<Longrightarrow> writer_step now as w = (b, w') \<Longrightarrow>
     w_data w' = w_data w \<and> w_deadline w' = w_deadline w \<and> w_written w' = take (w_pos w') (w_data w')
     \<and> (b \<longrightarrow> now < w_deadline w \<longrightarrow> Wr_Error \<notin> set as \<longrightarrow> Wr 0 \<notin> set as \<longrightarrow> w_written w' = w_data w)"
proof (induction as arbitrary: w)
  case Nil
  then show ?case by (auto simp: writer_step.simps [of _ "[]"] split: if_splits)
next
  case (Cons a as)
  show ?case
  proof (cases "w_pos w \<ge> length (w_data w)")
    case True
    then show ?thesis using Cons.prems by (auto simp: writer_step.simps [of _ "_ # _"])
  next
    case False
    show ?thesis
    proof (cases a)
      case (Wr n)
      show ?thesis
      proof (cases "n > 0")
        case True
        let ?w = "w\<lparr>w_pos := w_pos w + n, w_written := w_written w @ take n (drop (w_pos w) (w_data w))\<rparr>"
        have i: "w_written ?w = take (w_pos ?w) (w_data ?w)" using Cons.prems(1) by (simp add: take_add)
        have s: "writer_step now as ?w = (b, w')"
          using Cons.prems(2) False Wr True by (simp add: writer_step.simps [of _ "_ # _"])
        show ?thesis using Cons.IH [OF i s] by (auto simp del: take_all_iff)
      qed (use Cons.prems False Wr in \<open>auto simp: writer_step.simps [of _ "_ # _"]\<close>)
    qed (use Cons.prems False in \<open>auto simp: writer_step.simps [of _ "_ # _"]\<close>)
  qed
qed

definition writer_steps :: "(nat \<times> write_answer list) list \<Rightarrow> writer \<Rightarrow> writer" where
  "writer_steps calls w = foldl (\<lambda>w (now, as). snd (writer_step now as w)) w calls"

text \<open>
  C25: A paste of the proxy's own selection is written in order, and whole unless its reader goes away.
  After any calls to \<open>step\<close>, whatever the descriptor takes each time, what was written is the
  selection's bytes up to the position; and a call that says it is over, before the deadline and with
  no failed write, has written them all.
\<close>

theorem paste_in_order:
  "case writer_step now as (writer_steps calls (writer_new f data t0)) of (b, w) \<Rightarrow>
     w_written w = take (w_pos w) data
     \<and> (\<not> b \<or> t0 + WRITE_DEADLINE \<le> now \<or> Wr_Error \<in> set as \<or> Wr 0 \<in> set as \<or> w_written w = data)"
proof -
  have inv: "w_written w = take (w_pos w) (w_data w) \<and> w_data w = data \<and> w_deadline w = t0 + WRITE_DEADLINE"
    if "w = writer_steps calls (writer_new f data t0)" for w calls
    using that
  proof (induction calls arbitrary: w rule: rev_induct)
    case Nil
    then show ?case by (simp add: writer_steps_def writer_new_def)
  next
    case (snoc ca calls)
    obtain now' as' where ca: "ca = (now', as')" by (cases ca)
    let ?v = "writer_steps calls (writer_new f data t0)"
    obtain b w' where r: "writer_step now' as' ?v = (b, w')" by fastforce
    have "w = w'" using snoc.prems r by (simp add: writer_steps_def ca)
    then show ?case using snoc.IH [OF refl] writer_step_inv [OF _ r] by auto
  qed
  obtain b w where r: "writer_step now as (writer_steps calls (writer_new f data t0)) = (b, w)" by fastforce
  then show ?thesis using inv [OF refl, of calls] writer_step_inv [OF _ r] by (auto simp del: take_all_iff)
qed

theorem paste_in_order_witness:
  "case writer_step 20 [Wr 2, Wr 3] (writer_steps [(10, [Wr 1, Wr_WouldBlock])] (writer_new 7 ''secret'' 0)) of (b, w) \<Rightarrow>
     b \<and> w_written w = ''secret''"
proof -
  let ?r = "writer_step 20 [Wr 2, Wr 3] (writer_steps [(10, [Wr 1, Wr_WouldBlock])] (writer_new 7 ''secret'' 0))"
  obtain b w where r: "?r = (b, w)" by fastforce
  have "fst ?r" "WRITE_DEADLINE = 10000" by code_simp+
  then show ?thesis using paste_in_order [where now = 20 and as = "[Wr 2, Wr 3]" and calls = "[(10, [Wr 1, Wr_WouldBlock])]"
    and f = 7 and data = "''secret''" and ?t0.0 = 0] r
    by (auto simp del: take_all_iff)
qed

end
