(* ===== verification/Endpoint.thy ===== *)
theory Endpoint
  imports Proxy_Policy "HOL-Library.Multiset"
begin

text \<open>
  One socket of a proxied connection (\<open>Endpoint\<close> of \<open>compositor/wlproxy/src/session.rs\<close>): inbound
  bytes and descriptors, and outbound batches. The kernel's answers to \<open>recvmsg\<close> and \<open>sendmsg\<close> are
  arguments. Shown: what is queued leaves in order, each message's descriptors with its own batch,
  within what one \<open>sendmsg\<close> may carry, and the counters are what is queued.
\<close>

section \<open>Errors\<close>

datatype dir = ClientToServer | ServerToClient

text \<open>
  \<open>Panic\<close> is no error of the source: it stands for the places where the code would panic (an index
  out of range, an \<open>unwrap\<close> of nothing, an arithmetic overflow, which the release profile checks).
  The invariants show that none is reached.
\<close>

datatype session_error =
    Wire wire_error
  | UnknownObject u32
  | DuplicateObject u32
  | UnknownOpcode string u16
  | HiddenInterface string
  | VersionTooHigh string u32 u32
  | IdOutOfRange u32 dir
  | SparseId u32
  | TooManyObjects
  | TooMuchPending dir
  | TooManyFds
  | Forbidden string
  | ResourceLimit string
  | Io string
  | Panic

section \<open>State\<close>

definition BATCH_BYTES :: nat where "BATCH_BYTES = MAX_MESSAGE_LEN"
definition BATCH_FDS :: nat where "BATCH_FDS = 28"

text \<open>
  The last three fields are the model's record of what the code did with the kernel: the bytes and
  descriptors \<open>sendmsg\<close> took, and the descriptors closed, oldest first.
\<close>

record endpoint =
  ep_fd :: fd
  inbuf :: bytes
  in_pos :: nat
  in_fds :: "fd list"
  outq :: "(bytes \<times> fd list) list"
  pending_out :: nat
  pending_fds :: nat
  closed :: bool
  ep_sent :: bytes
  ep_sent_fds :: "fd list"
  ep_closed :: "fd list"

definition ep_new :: "fd \<Rightarrow> endpoint" where
  "ep_new f = \<lparr>ep_fd = f, inbuf = [], in_pos = 0, in_fds = [], outq = [], pending_out = 0,
     pending_fds = 0, closed = False, ep_sent = [], ep_sent_fds = [], ep_closed = []\<rparr>"

definition pending_in :: "endpoint \<Rightarrow> bytes" where
  "pending_in e = drop (in_pos e) (inbuf e)"

definition ep_take :: "nat \<Rightarrow> endpoint \<Rightarrow> session_error + (bytes \<times> endpoint)" where
  "ep_take n e =
     (if in_pos e + n > length (inbuf e) then Inl Panic
      else let out = take n (drop (in_pos e) (inbuf e));
               e = e\<lparr>in_pos := in_pos e + n\<rparr>;
               e = (if in_pos e = length (inbuf e) then e\<lparr>inbuf := [], in_pos := 0\<rparr> else e)
           in Inr (out, e))"

section \<open>Reading\<close>

datatype cmsg = Scm_Rights "fd list" | Other_Cmsg

datatype recv_answer =
    Recv_WouldBlock
  | Recv_Error string
  | Recv bytes "cmsg list" bool

definition USIZE_MAX :: nat where "USIZE_MAX = 2 ^ 64 - 1"

fun cmsg_fds :: "cmsg \<Rightarrow> fd list" where
  "cmsg_fds (Scm_Rights fds) = fds"
| "cmsg_fds Other_Cmsg = []"

definition ep_read :: "recv_answer \<Rightarrow> endpoint \<Rightarrow> (session_error + nat) \<times> endpoint" where
  "ep_read answer e = (case answer of
       Recv_WouldBlock \<Rightarrow> (Inr USIZE_MAX, e)
     | Recv_Error err \<Rightarrow> (Inl (Io err), e)
     | Recv buf cmsgs ctrunc \<Rightarrow>
         let e = e\<lparr>in_fds := in_fds e @ concat (map cmsg_fds cmsgs)\<rparr> in
         if ctrunc \<or> length (in_fds e) > MAX_PENDING_FDS
            \<or> length (pending_in e) + length buf > MAX_PENDING_BYTES
         then (Inl (Io ''truncated control data or inbound resource limit exceeded''), e)
         else if length buf = 0 then (Inr 0, e)
         else let e = (if in_pos e > 0 then e\<lparr>inbuf := drop (in_pos e) (inbuf e), in_pos := 0\<rparr> else e)
              in (Inr (length buf), e\<lparr>inbuf := inbuf e @ buf\<rparr>))"

section \<open>Writing\<close>

datatype send_answer =
    Sent nat
  | Send_WouldBlock
  | Send_Error string

text \<open>\<open>CMSG_SPACE\<close> of a number of descriptors, on x86-64, and the size of the buffer for it.\<close>

definition cmsg_space :: "nat \<Rightarrow> nat" where
  "cmsg_space n = 16 + (4 * n + 7) div 8 * 8"

definition CBUF_BYTES :: nat where "CBUF_BYTES = 32 * 8"

text \<open>
  The loop of \<open>flush\<close>. The first argument is how the kernel answers each \<open>sendmsg\<close> in turn, given the
  bytes and descriptors of the call; past its end the socket takes no more for now.
\<close>

fun ep_flush :: "(bytes \<Rightarrow> fd list \<Rightarrow> send_answer) list \<Rightarrow> endpoint \<Rightarrow> (session_error + bool) \<times> endpoint" where
  "ep_flush sends e = (case outq e of
       [] \<Rightarrow> (Inr False, e)
     | (bs, fds) # q \<Rightarrow>
         if fds \<noteq> [] \<and> cmsg_space (length fds) > CBUF_BYTES then (Inl Panic, e)
         else (case sends of
             [] \<Rightarrow> (Inr True, e)
           | send # sends' \<Rightarrow> (case send bs fds of
                 Send_WouldBlock \<Rightarrow> (Inr True, e)
               | Send_Error err \<Rightarrow> (Inl (Io err), e)
               | Sent n \<Rightarrow>
                   if length fds > pending_fds e \<or> n > pending_out e \<or> n > length bs
                   then (Inl Panic, e)
                   else ep_flush sends' (e\<lparr>
                     pending_fds := pending_fds e - length fds,
                     pending_out := pending_out e - n,
                     outq := (if n = length bs then q else (drop n bs, []) # q),
                     ep_sent := ep_sent e @ take n bs,
                     ep_sent_fds := ep_sent_fds e @ fds,
                     ep_closed := ep_closed e @ fds\<rparr>))))"

declare ep_flush.simps [simp del]

definition queue :: "bytes \<Rightarrow> fd list \<Rightarrow> endpoint \<Rightarrow> endpoint" where
  "queue bs fds e =
     (let e = e\<lparr>pending_out := pending_out e + length bs, pending_fds := pending_fds e + length fds\<rparr> in
      if outq e \<noteq> []
         \<and> length (fst (last (outq e))) + length bs \<le> BATCH_BYTES
         \<and> length (snd (last (outq e))) + length fds \<le> BATCH_FDS
      then e\<lparr>outq := butlast (outq e) @ [(fst (last (outq e)) @ bs, snd (last (outq e)) @ fds)]\<rparr>
      else e\<lparr>outq := outq e @ [(bs, fds)]\<rparr>)"

definition close_all :: "endpoint \<Rightarrow> endpoint" where
  "close_all e =
     (let e = (if \<not> closed e then e\<lparr>closed := True, ep_closed := ep_closed e @ [ep_fd e]\<rparr> else e) in
      e\<lparr>ep_closed := ep_closed e @ in_fds e @ concat (map snd (outq e)),
        in_fds := [], outq := [], pending_out := 0, pending_fds := 0\<rparr>)"

section \<open>Well-formed endpoints\<close>

definition out_bytes :: "endpoint \<Rightarrow> bytes" where
  "out_bytes e = concat (map fst (outq e))"

definition out_fds :: "endpoint \<Rightarrow> fd list" where
  "out_fds e = concat (map snd (outq e))"

definition batch_ok :: "bytes \<times> fd list \<Rightarrow> bool" where
  "batch_ok b \<longleftrightarrow> fst b \<noteq> [] \<and> length (fst b) \<le> BATCH_BYTES \<and> length (snd b) \<le> BATCH_FDS"

definition ep_ok :: "endpoint \<Rightarrow> bool" where
  "ep_ok e \<longleftrightarrow> in_pos e \<le> length (inbuf e)
     \<and> pending_out e = length (out_bytes e) \<and> pending_fds e = length (out_fds e)
     \<and> list_all batch_ok (outq e)"

lemmas endpoint_simps = out_bytes_def out_fds_def pending_in_def

lemma ep_ok_new [simp]: "ep_ok (ep_new f)"
  by (simp add: ep_ok_def ep_new_def endpoint_simps)

lemma queue_in [simp]:
  "inbuf (queue bs fds e) = inbuf e" "in_pos (queue bs fds e) = in_pos e"
  "in_fds (queue bs fds e) = in_fds e" "pending_in (queue bs fds e) = pending_in e"
  "ep_sent (queue bs fds e) = ep_sent e" "ep_sent_fds (queue bs fds e) = ep_sent_fds e"
  "ep_closed (queue bs fds e) = ep_closed e" "closed (queue bs fds e) = closed e"
  "ep_fd (queue bs fds e) = ep_fd e"
  "pending_out (queue bs fds e) = pending_out e + length bs"
  "pending_fds (queue bs fds e) = pending_fds e + length fds"
  by (simp_all add: queue_def Let_def pending_in_def)

lemma queue_out [simp]:
  "out_bytes (queue bs fds e) = out_bytes e @ bs"
  "out_fds (queue bs fds e) = out_fds e @ fds"
  by (cases "outq e" rule: rev_cases; simp add: queue_def Let_def endpoint_simps)+

lemma queue_ok:
  assumes "ep_ok e" "bs \<noteq> []" "length bs \<le> BATCH_BYTES" "length fds \<le> BATCH_FDS"
  shows "ep_ok (queue bs fds e)"
proof -
  have "list_all batch_ok (outq (queue bs fds e))"
    using assms by (cases "outq e" rule: rev_cases) (auto simp: queue_def Let_def ep_ok_def batch_ok_def)
  with assms(1) show ?thesis by (simp add: ep_ok_def)
qed

text \<open>A message's descriptors ride in the batch that holds the whole message, its bytes last.\<close>

lemma queue_last:
  "\<exists>b f. last (outq (queue bs fds e)) = (b @ bs, f @ fds) \<and> outq (queue bs fds e) \<noteq> []"
  by (cases "outq e" rule: rev_cases) (auto simp: queue_def Let_def)

lemma ep_take_ok:
  assumes "ep_ok e" "n \<le> length (pending_in e)"
  shows "\<exists>e'. ep_take n e = Inr (take n (pending_in e), e') \<and> ep_ok e'
    \<and> pending_in e' = drop n (pending_in e) \<and> in_fds e' = in_fds e
    \<and> outq e' = outq e \<and> pending_out e' = pending_out e \<and> pending_fds e' = pending_fds e
    \<and> ep_sent e' = ep_sent e \<and> ep_sent_fds e' = ep_sent_fds e \<and> ep_closed e' = ep_closed e"
  using assms
  by (auto simp: ep_take_def ep_ok_def endpoint_simps Let_def add.commute)

lemma ep_read_ok:
  assumes "ep_ok e"
  shows "ep_ok (snd (ep_read a e))"
  using assms by (auto simp: ep_read_def ep_ok_def endpoint_simps Let_def split: recv_answer.splits)

section \<open>Flushing\<close>

text \<open>The kernel never reports more bytes sent than it was given.\<close>

definition sends_ok :: "(bytes \<Rightarrow> fd list \<Rightarrow> send_answer) list \<Rightarrow> bool" where
  "sends_ok sends \<longleftrightarrow> (\<forall>send\<in>set sends. \<forall>bs fds n. send bs fds = Sent n \<longrightarrow> n \<le> length bs)"

definition ep_stream :: "endpoint \<Rightarrow> bytes" where
  "ep_stream e = ep_sent e @ out_bytes e"

definition ep_fd_stream :: "endpoint \<Rightarrow> fd list" where
  "ep_fd_stream e = ep_sent_fds e @ out_fds e"

text \<open>Every descriptor the endpoint was given: waiting inbound, queued outbound, or closed.\<close>

definition ep_all_fds :: "endpoint \<Rightarrow> fd multiset" where
  "ep_all_fds e = mset (in_fds e) + mset (out_fds e) + mset (ep_closed e)"

lemma ep_stream_new [simp]: "ep_stream (ep_new f) = []" "ep_fd_stream (ep_new f) = []"
  by (simp_all add: ep_stream_def ep_fd_stream_def ep_new_def endpoint_simps)

lemma cmsg_space_batch: "n \<le> BATCH_FDS \<Longrightarrow> cmsg_space n \<le> CBUF_BYTES"
  using div_times_less_eq_dividend [of "4 * n + 7" 8]
  by (simp add: cmsg_space_def BATCH_FDS_def CBUF_BYTES_def)

definition sent_step :: "nat \<Rightarrow> endpoint \<Rightarrow> endpoint" where
  "sent_step n e = (case outq e of [] \<Rightarrow> e | (bs, fds) # q \<Rightarrow> e\<lparr>
     pending_fds := pending_fds e - length fds,
     pending_out := pending_out e - n,
     outq := (if n = length bs then q else (drop n bs, []) # q),
     ep_sent := ep_sent e @ take n bs,
     ep_sent_fds := ep_sent_fds e @ fds,
     ep_closed := ep_closed e @ fds\<rparr>)"

lemma sent_step_ok:
  assumes "ep_ok e" "outq e = (bs, fds) # q" "n \<le> length bs"
  shows "ep_ok (sent_step n e)" "ep_stream (sent_step n e) = ep_stream e"
    "ep_fd_stream (sent_step n e) = ep_fd_stream e" "ep_all_fds (sent_step n e) = ep_all_fds e"
    "pending_in (sent_step n e) = pending_in e"
  using assms
  by (auto simp: sent_step_def ep_ok_def endpoint_simps ep_stream_def ep_fd_stream_def
      ep_all_fds_def batch_ok_def)

lemma ep_flush_correct:
  assumes "ep_ok e" "sends_ok sends"
  shows "ep_ok (snd (ep_flush sends e)) \<and> fst (ep_flush sends e) \<noteq> Inl Panic
    \<and> ep_stream (snd (ep_flush sends e)) = ep_stream e
    \<and> ep_fd_stream (snd (ep_flush sends e)) = ep_fd_stream e
    \<and> ep_all_fds (snd (ep_flush sends e)) = ep_all_fds e
    \<and> pending_in (snd (ep_flush sends e)) = pending_in e
    \<and> (fst (ep_flush sends e) = Inr False \<longrightarrow> outq (snd (ep_flush sends e)) = [])"
  using assms
proof (induction sends arbitrary: e)
  case Nil
  show ?case
  proof (cases "outq e")
    case (Cons b q)
    then have "cmsg_space (length (snd b)) \<le> CBUF_BYTES"
      using Nil.prems(1) by (auto simp: ep_ok_def batch_ok_def intro: cmsg_space_batch)
    then show ?thesis using Nil.prems Cons by (cases b) (simp add: ep_flush.simps)
  qed (use Nil.prems in \<open>simp add: ep_flush.simps\<close>)
next
  case (Cons send sends)
  show ?case
  proof (cases "outq e")
    case (Cons b q)
    obtain bs fds where b: "b = (bs, fds)" by (cases b)
    have q: "outq e = (bs, fds) # q" using Cons b by simp
    have sp: "\<not> (fds \<noteq> [] \<and> cmsg_space (length fds) > CBUF_BYTES)"
      using Cons.prems(1) q by (auto simp: ep_ok_def batch_ok_def not_less intro: cmsg_space_batch)
    show ?thesis
    proof (cases "send bs fds")
      case (Sent n)
      have n: "n \<le> length bs" using Sent Cons.prems(2) by (auto simp: sends_ok_def)
      have c: "\<not> (length fds > pending_fds e \<or> n > pending_out e \<or> n > length bs)"
        using Cons.prems(1) q n by (auto simp: ep_ok_def endpoint_simps)
      have eq: "ep_flush (send # sends) e = ep_flush sends (sent_step n e)"
        using sp c by (subst ep_flush.simps) (auto simp: q Sent sent_step_def)
      show ?thesis
        unfolding eq using Cons.IH [of "sent_step n e"] sent_step_ok [OF Cons.prems(1) q n] Cons.prems(2)
        by (simp add: sends_ok_def)
    qed (use sp Cons.prems q in \<open>simp_all add: ep_flush.simps\<close>)
  qed (use Cons.prems in \<open>simp add: ep_flush.simps\<close>)
qed

section \<open>An ordered channel\<close>

text \<open>
  The contract of an outbound queue: what is put comes out in order, bytes and descriptors alike,
  however the draining is cut up.
\<close>

datatype 'k chan_op = Put bytes "fd list" | Drain 'k

fun chan_run :: "(bytes \<Rightarrow> fd list \<Rightarrow> 's \<Rightarrow> 's) \<Rightarrow> ('k \<Rightarrow> 's \<Rightarrow> 's) \<Rightarrow> 'k chan_op list \<Rightarrow> 's \<Rightarrow> 's" where
  "chan_run put drain [] s = s"
| "chan_run put drain (Put bs fds # ops) s = chan_run put drain ops (put bs fds s)"
| "chan_run put drain (Drain k # ops) s = chan_run put drain ops (drain k s)"

fun op_bytes :: "'k chan_op \<Rightarrow> bytes" where
  "op_bytes (Put bs _) = bs"
| "op_bytes (Drain _) = []"

fun op_fds :: "'k chan_op \<Rightarrow> fd list" where
  "op_fds (Put _ fds) = fds"
| "op_fds (Drain _) = []"

fun op_ok :: "(bytes \<Rightarrow> fd list \<Rightarrow> bool) \<Rightarrow> ('k \<Rightarrow> bool) \<Rightarrow> 'k chan_op \<Rightarrow> bool" where
  "op_ok fits good (Put bs fds) = fits bs fds"
| "op_ok fits good (Drain k) = good k"

locale ordered_channel =
  fixes put :: "bytes \<Rightarrow> fd list \<Rightarrow> 's \<Rightarrow> 's"
    and drain :: "'k \<Rightarrow> 's \<Rightarrow> 's"
    and stream :: "'s \<Rightarrow> bytes"
    and fd_stream :: "'s \<Rightarrow> fd list"
    and ok :: "'s \<Rightarrow> bool"
    and fits :: "bytes \<Rightarrow> fd list \<Rightarrow> bool"
    and good :: "'k \<Rightarrow> bool"
  assumes put_ok: "ok s \<Longrightarrow> fits bs fds \<Longrightarrow> ok (put bs fds s)"
    and put_stream: "stream (put bs fds s) = stream s @ bs"
    and put_fd_stream: "fd_stream (put bs fds s) = fd_stream s @ fds"
    and drain_ok: "ok s \<Longrightarrow> good k \<Longrightarrow> ok (drain k s)"
    and drain_stream: "ok s \<Longrightarrow> good k \<Longrightarrow> stream (drain k s) = stream s"
    and drain_fd_stream: "ok s \<Longrightarrow> good k \<Longrightarrow> fd_stream (drain k s) = fd_stream s"
begin

lemma run_in_order:
  "ok s \<Longrightarrow> list_all (op_ok fits good) ops \<Longrightarrow>
     ok (chan_run put drain ops s)
     \<and> stream (chan_run put drain ops s) = stream s @ concat (map op_bytes ops)
     \<and> fd_stream (chan_run put drain ops s) = fd_stream s @ concat (map op_fds ops)"
proof (induction ops arbitrary: s)
  case (Cons a ops)
  then show ?case
    by (cases a) (simp_all add: put_ok put_stream put_fd_stream drain_ok drain_stream drain_fd_stream)
qed simp

end

definition fits_batch :: "bytes \<Rightarrow> fd list \<Rightarrow> bool" where
  "fits_batch bs fds \<longleftrightarrow> bs \<noteq> [] \<and> length bs \<le> BATCH_BYTES \<and> length fds \<le> BATCH_FDS"

interpretation out_channel: ordered_channel queue "\<lambda>sends e. snd (ep_flush sends e)"
  ep_stream ep_fd_stream ep_ok fits_batch sends_ok
  by unfold_locales
    (auto simp: fits_batch_def ep_stream_def ep_fd_stream_def queue_ok ep_flush_correct [unfolded ep_stream_def ep_fd_stream_def])

text \<open>
  C17: an endpoint's output is first in, first out. Over any interleaving of queued messages and
  flushes, partial sends included, the bytes the socket took followed by those still queued are the
  messages in the order they were queued, and so are the descriptors; and every batch still fits
  one \<open>sendmsg\<close>.
\<close>

theorem endpoint_in_order:
  assumes "ep_ok e" and "list_all (op_ok fits_batch sends_ok) ops"
  shows "ep_ok (chan_run queue (\<lambda>sends e. snd (ep_flush sends e)) ops e)
    \<and> ep_stream (chan_run queue (\<lambda>sends e. snd (ep_flush sends e)) ops e)
        = ep_stream e @ concat (map op_bytes ops)
    \<and> ep_fd_stream (chan_run queue (\<lambda>sends e. snd (ep_flush sends e)) ops e)
        = ep_fd_stream e @ concat (map op_fds ops)"
  using assms by (rule out_channel.run_in_order)

theorem endpoint_in_order_witness:
  "ep_stream (chan_run queue (\<lambda>sends e. snd (ep_flush sends e))
     [Put ''abcd'' [7], Drain [\<lambda>bs fds. Sent (length bs div 2)], Put ''ef'' [8]] (ep_new 3)) = ''abcdef''"
  using endpoint_in_order [of "ep_new 3"
      "[Put ''abcd'' [7], Drain [\<lambda>bs fds. Sent (length bs div 2)], Put ''ef'' [8]]"]
  by (simp add: fits_batch_def sends_ok_def BATCH_BYTES_def BATCH_FDS_def MAX_MESSAGE_LEN_def)

end
