(* ===== verification/Proxy_Opts.thy ===== *)
theory Proxy_Opts
  imports Endpoint Proxy_Policy
begin

text \<open>
  The proxy's command line, its descriptor budget and its log
  (\<open>compositor/wlproxy/src/main.rs\<close>), and the texts of a session's errors. Shown: the log stays within
  its bound whatever a client does; the clients admitted fit under the descriptor limit with every
  queue full; options that are accepted name one listening socket, at most one control socket, and
  a zone whose name fits a title and an app_id.

  Times are milliseconds; \<open>{:?}\<close> of a string is the parameter \<open>dbg\<close>.
\<close>

section \<open>The texts of errors\<close>

definition dir_debug :: "dir \<Rightarrow> string" where
  "dir_debug d = (case d of ClientToServer \<Rightarrow> ''ClientToServer'' | ServerToClient \<Rightarrow> ''ServerToClient'')"

definition show_word :: "'a::len word \<Rightarrow> string" where
  "show_word w = nat_to_string (unat w)"

definition session_error_fmt :: "(string \<Rightarrow> string) \<Rightarrow> session_error \<Rightarrow> string" where
  "session_error_fmt dbg e = (case e of
       Wire e \<Rightarrow> ''malformed message: '' @ wire_error_fmt e
     | UnknownObject i \<Rightarrow> ''message for unknown object '' @ show_word i
     | DuplicateObject i \<Rightarrow> ''object id '' @ show_word i @ '' is already live''
     | UnknownOpcode n op \<Rightarrow> n @ '' has no opcode '' @ show_word op
     | HiddenInterface i \<Rightarrow>
         let shown = concat (take 80 (uchars i)) in
         if length shown = length i
         then ''bind of an interface not advertised to this zone: '' @ dbg i
         else ''bind of an interface not advertised to this zone: '' @ dbg shown @ ''... ('' @ nat_to_string (length i) @ '' bytes)''
     | VersionTooHigh n asked most \<Rightarrow> n @ '' version '' @ show_word asked @ '' asked, '' @ show_word most @ '' allowed''
     | IdOutOfRange i d \<Rightarrow> ''object id '' @ show_word i @ '' is not in the '' @ dir_debug d @ '' range''
     | SparseId i \<Rightarrow> ''object id '' @ show_word i @ '' skips past the ids in use''
     | TooManyObjects \<Rightarrow> ''too many live objects''
     | TooMuchPending d \<Rightarrow> ''too much unsent data ('' @ dir_debug d @ '')''
     | TooManyFds \<Rightarrow> ''too many queued descriptors''
     | Forbidden why \<Rightarrow> ''forbidden request: '' @ why
     | ResourceLimit why \<Rightarrow> ''resource limit: '' @ why
     | Io e \<Rightarrow> e
     | Panic \<Rightarrow> [])"

section \<open>The log\<close>

definition PER_SECOND :: nat where "PER_SECOND = 20"
definition LOG_LINE_MAX :: nat where "LOG_LINE_MAX = 1024"
definition MAX_BYTES :: nat where "MAX_BYTES = 2 ^ 20"

text \<open>\<open>log_out\<close> is what was written to standard error.\<close>

record log =
  log_zone :: string
  since :: nat
  log_lines :: nat
  dropped :: nat
  log_left :: nat
  log_out :: bytes

definition log_new :: "string \<Rightarrow> nat \<Rightarrow> log" where
  "log_new z now = \<lparr>log_zone = z, since = now, log_lines = 0, dropped = 0, log_left = MAX_BYTES, log_out = []\<rparr>"

definition log_prefix :: "string \<Rightarrow> string" where
  "log_prefix z = ''kryptik-wlproxy['' @ z @ '']: ''"

definition log_full :: "string \<Rightarrow> string" where
  "log_full z = log_prefix z @ ''the log is full; nothing more is logged'' @ [CHR 0x0A]"

text \<open>\<open>put\<close>; the cut steps back to a character boundary, which the start of the text is.\<close>

definition log_put :: "string \<Rightarrow> log \<Rightarrow> log" where
  "log_put text l =
     (if log_left l = 0 then l
      else
        let end = cut_back text (min (length text) LOG_LINE_MAX);
            line = log_prefix (log_zone l) @ take end text @ [CHR 0x0A] in
        if length line < log_left l
        then l\<lparr>log_left := log_left l - length line, log_out := log_out l @ line\<rparr>
        else l\<lparr>log_left := 0, log_out := log_out l @ log_full (log_zone l)\<rparr>)"

definition log_line :: "nat \<Rightarrow> string \<Rightarrow> log \<Rightarrow> log" where
  "log_line now text l =
     (let l = (if now - since l \<ge> 1000
               then (if dropped l > 0 then log_put (nat_to_string (dropped l) @ '' lines not logged'') l else l)
                 \<lparr>since := now, log_lines := 0, dropped := 0\<rparr>
               else l) in
      if log_lines l < PER_SECOND then log_put text (l\<lparr>log_lines := log_lines l + 1\<rparr>)
      else l\<lparr>dropped := dropped l + 1\<rparr>)"

section \<open>Options\<close>

definition HIGH_WATER :: nat where "HIGH_WATER = MAX_PENDING_BYTES div 2"

definition zone_ok :: "string \<Rightarrow> bool" where
  "zone_ok z \<longleftrightarrow> z \<noteq> [] \<and> length z \<le> 32
     \<and> all_chars (\<lambda>b. is_ascii_alphanumeric b \<or> b = CHR ''-'' \<or> b = CHR ''_'') z"

record opts =
  o_zone :: string
  o_listen :: string
  o_listen_fd :: "int option"
  o_upstream :: string
  o_max_clients :: nat
  o_once :: bool
  o_control :: "string option"
  o_control_fd :: "int option"
  o_control_uid :: "nat option"
  o_hold_awake :: bool

definition opts_default :: opts where
  "opts_default = \<lparr>o_zone = [], o_listen = [], o_listen_fd = None, o_upstream = [], o_max_clients = 16,
     o_once = False, o_control = None, o_control_fd = None, o_control_uid = None, o_hold_awake = False\<rparr>"

definition parse_passed_fd :: "string \<Rightarrow> int option" where
  "parse_passed_fd s = (case parse_i32 s of Some f \<Rightarrow> if f > 2 then Some f else None | None \<Rightarrow> None)"

text \<open>The loop over the arguments; \<^const>\<open>None\<close> is \<open>usage()\<close>, which ends the program.\<close>

fun parse_args :: "string list \<Rightarrow> opts \<Rightarrow> opts option" where
  "parse_args [] ops = Some ops"
| "parse_args (a # as) ops =
     (if a = ''--once'' then parse_args as (ops\<lparr>o_once := True\<rparr>)
      else if a = ''--hold-awake'' then parse_args as (ops\<lparr>o_hold_awake := True\<rparr>)
      else case as of
        [] \<Rightarrow> None
      | v # as' \<Rightarrow>
          if a = ''--zone'' then parse_args as' (ops\<lparr>o_zone := v\<rparr>)
          else if a = ''--listen'' then parse_args as' (ops\<lparr>o_listen := v\<rparr>)
          else if a = ''--listen-fd''
          then (case parse_passed_fd v of Some f \<Rightarrow> parse_args as' (ops\<lparr>o_listen_fd := Some f\<rparr>) | None \<Rightarrow> None)
          else if a = ''--upstream'' then parse_args as' (ops\<lparr>o_upstream := v\<rparr>)
          else if a = ''--max-clients''
          then (case parse_uint 64 v of Some n \<Rightarrow> parse_args as' (ops\<lparr>o_max_clients := n\<rparr>) | None \<Rightarrow> None)
          else if a = ''--control'' then parse_args as' (ops\<lparr>o_control := Some v\<rparr>)
          else if a = ''--control-fd''
          then (case parse_passed_fd v of Some f \<Rightarrow> parse_args as' (ops\<lparr>o_control_fd := Some f\<rparr>) | None \<Rightarrow> None)
          else if a = ''--control-uid''
          then (case parse_uint 32 v of Some n \<Rightarrow> parse_args as' (ops\<lparr>o_control_uid := Some n\<rparr>) | None \<Rightarrow> None)
          else None)"

datatype exit_reason = Usage | Bad_Zone string

definition parse_opts :: "string list \<Rightarrow> exit_reason + opts" where
  "parse_opts args = (case parse_args args opts_default of
       None \<Rightarrow> Inl Usage
     | Some ops \<Rightarrow>
         if o_zone ops = [] \<or> (o_listen ops = []) = (o_listen_fd ops = None) \<or> o_upstream ops = []
            \<or> (o_control ops \<noteq> None \<and> o_control_fd ops \<noteq> None)
            \<or> (o_listen_fd ops \<noteq> None \<and> o_listen_fd ops = o_control_fd ops)
         then Inl Usage
         else if \<not> zone_ok (o_zone ops) then Inl (Bad_Zone (o_zone ops))
         else Inr ops)"

section \<open>Descriptors\<close>

definition FDS_PER_SESSION :: nat where "FDS_PER_SESSION = 2 + 2 * MAX_PENDING_FDS"
definition FDS_RESERVED :: nat where "FDS_RESERVED = 8 + MAX_SHM_POOLS_PER_ZONE"
definition POOL_GRACE :: nat where "POOL_GRACE = 1000"

definition clients_within :: "u64 \<Rightarrow> nat \<Rightarrow> nat" where
  "clients_within limit wanted = max (min wanted ((unat limit - FDS_RESERVED) div FDS_PER_SESSION)) 1"

text \<open>\<open>getrlimit\<close>'s answer, soft and hard, and whether \<open>setrlimit\<close> raised the soft one.\<close>

definition fit_descriptors :: "(u64 \<times> u64) option \<Rightarrow> bool \<Rightarrow> opts \<Rightarrow> opts" where
  "fit_descriptors rlimit raised ops = (case rlimit of
       None \<Rightarrow> ops
     | Some (cur, most) \<Rightarrow>
         let cur = (if cur < most \<and> raised then most else cur);
             fit = clients_within cur (o_max_clients ops) in
         if fit < o_max_clients ops then ops\<lparr>o_max_clients := fit\<rparr> else ops)"

section \<open>The log is bounded\<close>

definition log_run :: "(nat \<times> string) list \<Rightarrow> log \<Rightarrow> log" where
  "log_run calls l = foldl (\<lambda>l (now, text). log_line now text l) l calls"

definition log_inv :: "string \<Rightarrow> log \<Rightarrow> bool" where
  "log_inv z l \<longleftrightarrow> log_zone l = z \<and> (if log_left l > 0 then length (log_out l) + log_left l = MAX_BYTES
     else length (log_out l) \<le> MAX_BYTES + length (log_full z))"

lemma log_put_inv: "log_inv z l \<Longrightarrow> log_inv z (log_put text l)"
  by (auto simp: log_inv_def log_put_def Let_def split: if_splits)

lemma log_inv_counters [simp]:
  "log_inv z (l\<lparr>since := a\<rparr>) = log_inv z l" "log_inv z (l\<lparr>log_lines := b\<rparr>) = log_inv z l"
  "log_inv z (l\<lparr>dropped := c\<rparr>) = log_inv z l"
  by (simp_all add: log_inv_def)

lemma log_line_inv: "log_inv z l \<Longrightarrow> log_inv z (log_line now text l)"
  by (simp add: log_line_def Let_def log_put_inv)

text \<open>
  C27: The log is bounded. However often a client makes the proxy log, and whatever it makes it say,
  what reaches the log file is at most one mebibyte and the one line that says it is full.
\<close>

theorem log_bounded: "length (log_out (log_run calls (log_new z t0))) \<le> MAX_BYTES + length (log_full z)"
proof -
  have "log_inv z (log_run calls l)" if "log_inv z l" for l
    using that by (induction calls arbitrary: l) (auto simp: log_run_def log_line_inv)
  moreover have "log_inv z (log_new z t0)" by (simp add: log_inv_def log_new_def MAX_BYTES_def)
  ultimately have "log_inv z (log_run calls (log_new z t0))" by blast
  then show ?thesis by (auto simp: log_inv_def split: if_splits)
qed

section \<open>Accepted options\<close>

definition passed_ok :: "opts \<Rightarrow> bool" where
  "passed_ok ops \<longleftrightarrow> (\<forall>f. o_listen_fd ops = Some f \<or> o_control_fd ops = Some f \<longrightarrow> f > 2)"

lemma passed_ok_upd [simp]:
  "passed_ok (ops\<lparr>o_once := a\<rparr>) = passed_ok ops" "passed_ok (ops\<lparr>o_hold_awake := b\<rparr>) = passed_ok ops"
  "passed_ok (ops\<lparr>o_zone := c\<rparr>) = passed_ok ops" "passed_ok (ops\<lparr>o_listen := d\<rparr>) = passed_ok ops"
  "passed_ok (ops\<lparr>o_upstream := e\<rparr>) = passed_ok ops" "passed_ok (ops\<lparr>o_max_clients := g\<rparr>) = passed_ok ops"
  "passed_ok (ops\<lparr>o_control := h\<rparr>) = passed_ok ops" "passed_ok (ops\<lparr>o_control_uid := i\<rparr>) = passed_ok ops"
  by (simp_all add: passed_ok_def)

lemma passed_ok_fd:
  assumes "passed_ok ops" "parse_passed_fd v = Some f"
  shows "passed_ok (ops\<lparr>o_listen_fd := Some f\<rparr>)" "passed_ok (ops\<lparr>o_control_fd := Some f\<rparr>)"
proof -
  have "f > 2" using assms(2) by (auto simp: parse_passed_fd_def split: option.splits if_splits)
  then show "passed_ok (ops\<lparr>o_listen_fd := Some f\<rparr>)" "passed_ok (ops\<lparr>o_control_fd := Some f\<rparr>)"
    using assms(1) by (auto simp: passed_ok_def)
qed

lemma parse_args_step:
  assumes "parse_args (a # as) ops = Some ops'" "passed_ok ops"
  shows "\<exists>as1 ops1. parse_args as1 ops1 = Some ops' \<and> length as1 < length (a # as) \<and> passed_ok ops1"
proof (cases as)
  case Nil
  then have "a = ''--once'' \<or> a = ''--hold-awake''" using assms(1) by (simp split: if_splits)
  then show ?thesis
    using assms Nil by (intro exI [of _ "[]"] exI [of _ ops']) (auto simp: passed_ok_def)
next
  case (Cons v as')
  show ?thesis
  proof (cases "a = ''--once'' \<or> a = ''--hold-awake''")
    case True
    then show ?thesis using assms by (intro exI [of _ as]) auto
  next
    case False
    have "\<exists>ops1. parse_args as' ops1 = Some ops' \<and> passed_ok ops1"
      using assms(1) Cons False assms(2) passed_ok_fd [OF assms(2)]
      by (simp split: if_splits option.splits) (metis passed_ok_upd)+
    then show ?thesis using Cons by (elim exE) (intro exI [of _ as'], simp, blast)
  qed
qed

lemma parse_args_fds: "parse_args as ops = Some ops' \<Longrightarrow> passed_ok ops \<Longrightarrow> passed_ok ops'"
proof (induction as arbitrary: ops rule: length_induct)
  case (1 as)
  show ?case
  proof (cases as)
    case (Cons a as')
    then show ?thesis using parse_args_step [of a as' ops ops'] 1 by blast
  qed (use 1 in simp)
qed

lemma zone_ok_bytes: "zone_ok z \<Longrightarrow> list_all (\<lambda>b. is_ascii_alphanumeric b \<or> b = CHR ''-'' \<or> b = CHR ''_'') z"
  unfolding zone_ok_def by (elim conjE) (rule all_chars_bytes)

text \<open>
  Options that are accepted make sense together. Exactly one of a listening path and a passed
  listening descriptor is given, at most one control socket, not the same descriptor as the
  listener; every passed descriptor is past standard error; and the zone is a plain identifier of 1
  to 32 bytes, so that the app_id the proxy stamps on every window of it fits a message.
\<close>

theorem accepted_options:
  assumes "parse_opts args = Inr ops"
  shows "((o_listen ops = []) \<longleftrightarrow> (o_listen_fd ops \<noteq> None)) \<and> o_upstream ops \<noteq> []
    \<and> (o_control ops = None \<or> o_control_fd ops = None)
    \<and> (\<forall>f. o_listen_fd ops = Some f \<or> o_control_fd ops = Some f \<longrightarrow> f > 2)
    \<and> (o_listen_fd ops = None \<or> o_listen_fd ops \<noteq> o_control_fd ops)
    \<and> o_zone ops \<noteq> [] \<and> length (o_zone ops) \<le> 32
    \<and> list_all (\<lambda>b. is_ascii_alphanumeric b \<or> b = CHR ''-'' \<or> b = CHR ''_'') (o_zone ops)
    \<and> mw_finish (mw_string (app_id_for (o_zone ops) []) (mw_new i op)) \<noteq> None"
proof -
  obtain ops0 where p: "parse_args args opts_default = Some ops0" using assms by (auto simp: parse_opts_def split: option.splits)
  have z: "ops0 = ops" "zone_ok (o_zone ops)" using assms p by (simp_all add: parse_opts_def split: if_split_asm)
  have fds: "\<forall>f. o_listen_fd ops = Some f \<or> o_control_fd ops = Some f \<longrightarrow> f > 2"
    using parse_args_fds [OF p] z(1) by (simp add: opts_default_def passed_ok_def)
  have "length (app_id_for (o_zone ops) []) \<le> 100"
    using z(2) by (simp add: app_id_for_def zone_ok_def)
  then have "mw_finish (mw_string (app_id_for (o_zone ops) []) (mw_new i op)) \<noteq> None"
    using mw_string_len [of "app_id_for (o_zone ops) []" "mw_new i op"]
    by (simp add: mw_finish_def Let_def mw_new_def HEADER_LEN_def MAX_MESSAGE_LEN_def)
  moreover have "((o_listen ops = []) \<longleftrightarrow> (o_listen_fd ops \<noteq> None)) \<and> o_upstream ops \<noteq> []
    \<and> (o_control ops = None \<or> o_control_fd ops = None) \<and> (o_listen_fd ops = None \<or> o_listen_fd ops \<noteq> o_control_fd ops)"
    using assms p z(1) by (simp add: parse_opts_def split: if_split_asm)
  moreover have "o_zone ops \<noteq> [] \<and> length (o_zone ops) \<le> 32" using z(2) by (simp add: zone_ok_def)
  ultimately show ?thesis using fds zone_ok_bytes [OF z(2)] by (elim conjE) (intro conjI, assumption+)
qed

theorem accepted_options_witness:
  "\<exists>ops. parse_opts [''--zone'', ''dev'', ''--listen-fd'', ''3'', ''--upstream'', ''/run/w''] = Inr ops
     \<and> o_listen_fd ops = Some 3 \<and> o_listen ops = [] \<and> length (o_zone ops) \<le> 32"
proof -
  let ?args = "[''--zone'', ''dev'', ''--listen-fd'', ''3'', ''--upstream'', ''/run/w'']"
  let ?ops = "opts_default\<lparr>o_zone := ''dev'', o_listen_fd := Some 3, o_upstream := ''/run/w''\<rparr>"
  have e: "parse_opts ?args = Inr ?ops" by code_simp
  show ?thesis using accepted_options [OF e] e by (intro exI [of _ ?ops]) (simp add: opts_default_def)
qed

end
