(* ===== verification/Objects.thy ===== *)
theory Objects
  imports Endpoint
begin

text \<open>
  The object map of a connection (\<open>Objects\<close> of \<open>compositor/wlproxy/src/session.rs\<close>): a vector of
  slots per id range. The contract a session relies on is the locale \<open>object_table\<close>: a partial map
  with a count of its entries, which \<open>insert\<close> extends and \<open>remove\<close> shrinks by exactly one id.
\<close>

section \<open>Operations\<close>

type_synonym obj = "interface \<times> u32"

record objects =
  ob_client :: "obj option list"
  ob_server :: "obj option list"
  ob_live :: nat

definition objects_new :: "obj \<Rightarrow> objects" where
  "objects_new display = \<lparr>ob_client = [None, Some display], ob_server = [], ob_live = 1\<rparr>"

definition in_client_range :: "u32 \<Rightarrow> bool" where
  "in_client_range i \<longleftrightarrow> i < SERVER_ID_BASE"

text \<open>\<open>slots\<close>: the vector an id lives in and its index there.\<close>

definition slot_index :: "u32 \<Rightarrow> nat" where
  "slot_index i = (if in_client_range i then unat i else unat (i - SERVER_ID_BASE))"

definition slots :: "u32 \<Rightarrow> objects \<Rightarrow> obj option list" where
  "slots i s = (if in_client_range i then ob_client s else ob_server s)"

definition set_slots :: "u32 \<Rightarrow> obj option list \<Rightarrow> objects \<Rightarrow> objects" where
  "set_slots i v s = (if in_client_range i then s\<lparr>ob_client := v\<rparr> else s\<lparr>ob_server := v\<rparr>)"

definition objects_get :: "objects \<Rightarrow> u32 \<Rightarrow> obj option" where
  "objects_get s i =
     (let v = slots i s in if slot_index i < length v then v ! slot_index i else None)"

definition objects_insert :: "u32 \<Rightarrow> obj \<Rightarrow> objects \<Rightarrow> (session_error, objects) eff" where
  "objects_insert i ob s =
     (let full = ob_live s \<ge> MAX_OBJECTS; v = slots i s; k = slot_index i in
      if k < length v \<and> v ! k \<noteq> None then (Some (DuplicateObject i), s)
      else if full then (Some TooManyObjects, s)
      else if k < length v then (None, (set_slots i (v[k := Some ob]) s)\<lparr>ob_live := ob_live s + 1\<rparr>)
      else if k = length v \<and> length v < MAX_ID_SLOTS
        then (None, (set_slots i (v @ [Some ob]) s)\<lparr>ob_live := ob_live s + 1\<rparr>)
      else (Some (SparseId i), s))"

definition objects_remove :: "u32 \<Rightarrow> objects \<Rightarrow> (session_error, objects) eff" where
  "objects_remove i s =
     (let v = slots i s; k = slot_index i in
      if k < length v \<and> v ! k \<noteq> None
      then if ob_live s = 0 then (Some Panic, s)
           else (None, (set_slots i (v[k := None]) s)\<lparr>ob_live := ob_live s - 1\<rparr>)
      else (None, s))"

fun position_none :: "'a option list \<Rightarrow> nat option" where
  "position_none [] = None"
| "position_none (None # xs) = Some 0"
| "position_none (Some _ # xs) = map_option Suc (position_none xs)"

definition free_server_id :: "objects \<Rightarrow> u32 option" where
  "free_server_id s =
     (let i = (case position_none (ob_server s) of Some p \<Rightarrow> p | None \<Rightarrow> length (ob_server s)) in
      if i < MAX_ID_SLOTS then Some (SERVER_ID_BASE + of_nat i) else None)"

section \<open>Counting entries\<close>

definition table_count :: "('k \<Rightarrow> 'v option) \<Rightarrow> ('v \<Rightarrow> bool) \<Rightarrow> nat" where
  "table_count g P = card {k. \<exists>v. g k = Some v \<and> P v}"

lemma table_count_insert:
  fixes g :: "'k::finite \<Rightarrow> 'v option"
  assumes "g k = None"
  shows "table_count (g(k \<mapsto> v)) P = table_count g P + (if P v then 1 else 0)"
proof -
  have "{j. \<exists>w. (g(k \<mapsto> v)) j = Some w \<and> P w} =
      (if P v then insert k {j. \<exists>w. g j = Some w \<and> P w} else {j. \<exists>w. g j = Some w \<and> P w})"
    using assms by auto
  moreover have "k \<notin> {j. \<exists>w. g j = Some w \<and> P w}" using assms by auto
  ultimately show ?thesis by (simp add: table_count_def)
qed

lemma table_count_remove:
  fixes g :: "'k::finite \<Rightarrow> 'v option"
  shows "table_count (g(k := None)) P + (case g k of Some v \<Rightarrow> if P v then 1 else 0 | None \<Rightarrow> 0)
    = table_count g P"
proof -
  have eq: "{j. \<exists>w. (g(k := None)) j = Some w \<and> P w} = {j. \<exists>w. g j = Some w \<and> P w} - {k}"
    by auto
  show ?thesis
  proof (cases "\<exists>v. g k = Some v \<and> P v")
    case True
    then have "k \<in> {j. \<exists>w. g j = Some w \<and> P w}" by auto
    then show ?thesis
      using True card_Suc_Diff1 [of "{j. \<exists>w. g j = Some w \<and> P w}" k]
      unfolding table_count_def eq by auto
  next
    case False
    then have "{j. \<exists>w. g j = Some w \<and> P w} - {k} = {j. \<exists>w. g j = Some w \<and> P w}" by auto
    then show ?thesis using False unfolding table_count_def eq by (auto split: option.splits)
  qed
qed

section \<open>The contract\<close>

locale object_table =
  fixes get :: "'s \<Rightarrow> 'k::finite \<Rightarrow> 'v option"
    and ins :: "'k \<Rightarrow> 'v \<Rightarrow> 's \<Rightarrow> (session_error, 's) eff"
    and rem :: "'k \<Rightarrow> 's \<Rightarrow> (session_error, 's) eff"
    and live :: "'s \<Rightarrow> nat"
    and cap :: nat
  assumes ins_ok: "ins k v s = (None, s') \<Longrightarrow>
      get s k = None \<and> get s' = (get s)(k \<mapsto> v) \<and> live s' = live s + 1 \<and> live s < cap"
    and ins_err: "ins k v s = (Some e, s') \<Longrightarrow> s' = s \<and> e \<noteq> Panic"
    and rem_ok: "get s k = None \<or> live s > 0 \<Longrightarrow> \<exists>s'. rem k s = (None, s') \<and>
      get s' = (get s)(k := None) \<and> live s' = live s - (if get s k = None then 0 else 1)"
begin

lemma live_insert:
  assumes "ins k v s = (None, s')" "live s = table_count (get s) (\<lambda>_. True)"
  shows "live s' = table_count (get s') (\<lambda>_. True) \<and> live s' \<le> cap"
  using ins_ok [OF assms(1)] assms(2) by (auto simp: table_count_insert)

lemma live_remove:
  assumes inv: "live s = table_count (get s) (\<lambda>_. True)"
  shows "\<exists>s'. rem k s = (None, s') \<and> get s' = (get s)(k := None)
    \<and> live s' = table_count (get s') (\<lambda>_. True) \<and> live s' \<le> live s"
proof -
  have pos: "get s k = None \<or> live s > 0"
    using inv table_count_remove [of "get s" k "\<lambda>_. True"] by (auto split: option.splits)
  obtain s' where s': "rem k s = (None, s')" "get s' = (get s)(k := None)"
      "live s' = live s - (if get s k = None then 0 else 1)"
    using rem_ok [OF pos] by blast
  then show ?thesis
    using inv table_count_remove [of "get s" k "\<lambda>_. True"] by (auto split: option.splits if_splits)
qed

lemma count_insert:
  "ins k v s = (None, s') \<Longrightarrow>
    table_count (get s') P = table_count (get s) P + (if P v then 1 else 0)"
  using ins_ok [of k v s s'] by (auto simp: table_count_insert)

end

section \<open>The slots meet it\<close>

lemma slot_index_inj:
  assumes "slot_index i = slot_index j" "in_client_range i = in_client_range j"
  shows "i = j"
  using assms word_unat_eq_iff [of i j] word_unat_eq_iff [of "i - SERVER_ID_BASE" "j - SERVER_ID_BASE"]
  by (auto simp: slot_index_def split: if_splits)

lemma slots_set_slots: "slots j (set_slots i v s) = (if in_client_range i = in_client_range j then v else slots j s)"
  by (simp add: slots_def set_slots_def)

lemma objects_get_set:
  assumes "\<And>n. n \<noteq> slot_index i \<Longrightarrow>
      (if n < length v then v ! n else None) = (if n < length (slots i s) then slots i s ! n else None)"
  shows "objects_get (set_slots i v s\<lparr>ob_live := l\<rparr>) =
    (objects_get s)(i := if slot_index i < length v then v ! slot_index i else None)"
proof
  fix j
  have sl: "slots j (set_slots i v s\<lparr>ob_live := l\<rparr>) = slots j (set_slots i v s)"
    by (simp add: slots_def)
  show "objects_get (set_slots i v s\<lparr>ob_live := l\<rparr>) j =
      ((objects_get s)(i := if slot_index i < length v then v ! slot_index i else None)) j"
  proof (cases "in_client_range i = in_client_range j")
    case True
    then have "j \<noteq> i \<Longrightarrow> slot_index j \<noteq> slot_index i" using slot_index_inj by metis
    moreover have "slots j s = slots i s" using True by (simp add: slots_def)
    ultimately show ?thesis
      using True assms [of "slot_index j"] by (auto simp: objects_get_def sl slots_set_slots Let_def)
  next
    case False
    then show ?thesis by (auto simp: objects_get_def sl slots_set_slots Let_def)
  qed
qed

interpretation objs: object_table objects_get objects_insert objects_remove ob_live MAX_OBJECTS
proof unfold_locales
  fix i ob s s'
  assume ok: "objects_insert i ob s = (None, s')"
  let ?v = "slots i s" let ?k = "slot_index i"
  consider (free) "?k < length ?v" "?v ! ?k = None" "s' = set_slots i (?v[?k := Some ob]) s\<lparr>ob_live := ob_live s + 1\<rparr>"
    | (next_slot) "?k = length ?v" "s' = set_slots i (?v @ [Some ob]) s\<lparr>ob_live := ob_live s + 1\<rparr>"
    using ok by (auto simp: objects_insert_def Let_def split: if_splits)
  then have "objects_get s i = None \<and> objects_get s' = (objects_get s)(i \<mapsto> ob) \<and> ob_live s' = ob_live s + 1"
  proof cases
    case free
    have "objects_get s' = (objects_get s)(i := if ?k < length (?v[?k := Some ob]) then ?v[?k := Some ob] ! ?k else None)"
      unfolding free(3) by (rule objects_get_set) auto
    with free show ?thesis by (auto simp: objects_get_def Let_def)
  next
    case next_slot
    have "objects_get s' = (objects_get s)(i := if ?k < length (?v @ [Some ob]) then (?v @ [Some ob]) ! ?k else None)"
      unfolding next_slot(2) by (rule objects_get_set) (auto simp: next_slot(1) nth_append)
    with next_slot show ?thesis by (auto simp: objects_get_def Let_def)
  qed
  moreover have "ob_live s < MAX_OBJECTS" using ok by (auto simp: objects_insert_def Let_def split: if_splits)
  ultimately show "objects_get s i = None \<and> objects_get s' = (objects_get s)(i \<mapsto> ob)
    \<and> ob_live s' = ob_live s + 1 \<and> ob_live s < MAX_OBJECTS" by simp
next
  fix i ob s e s'
  assume "objects_insert i ob s = (Some e, s')"
  then show "s' = s \<and> e \<noteq> Panic" by (auto simp: objects_insert_def Let_def split: if_splits)
next
  fix s i
  assume pos: "objects_get s i = None \<or> ob_live s > 0"
  let ?v = "slots i s" let ?k = "slot_index i"
  show "\<exists>s'. objects_remove i s = (None, s') \<and> objects_get s' = (objects_get s)(i := None)
    \<and> ob_live s' = ob_live s - (if objects_get s i = None then 0 else 1)"
  proof (cases "?k < length ?v \<and> ?v ! ?k \<noteq> None")
    case True
    then have "objects_get s i \<noteq> None" by (simp add: objects_get_def Let_def)
    moreover have "objects_get (set_slots i (?v[?k := None]) s\<lparr>ob_live := ob_live s - 1\<rparr>) =
        (objects_get s)(i := if ?k < length (?v[?k := None]) then ?v[?k := None] ! ?k else None)"
      by (rule objects_get_set) auto
    ultimately show ?thesis using True pos by (auto simp: objects_remove_def Let_def)
  next
    case False
    then have "objects_get s i = None" by (auto simp: objects_get_def Let_def)
    then show ?thesis using False by (auto simp: objects_remove_def Let_def)
  qed
qed

text \<open>The bound on slots, and the id the proxy picks for an object of its own.\<close>

definition slots_ok :: "objects \<Rightarrow> bool" where
  "slots_ok s \<longleftrightarrow> length (ob_client s) \<le> MAX_ID_SLOTS \<and> length (ob_server s) \<le> MAX_ID_SLOTS"

lemma slots_ok_insert: "slots_ok s \<Longrightarrow> slots_ok (snd (objects_insert i ob s))"
  by (auto simp: objects_insert_def slots_ok_def set_slots_def slots_def Let_def)

lemma slots_ok_remove: "slots_ok s \<Longrightarrow> slots_ok (snd (objects_remove i s))"
  by (auto simp: objects_remove_def slots_ok_def set_slots_def slots_def Let_def)

lemma position_none_Some: "position_none xs = Some p \<Longrightarrow> p < length xs \<and> xs ! p = None"
  by (induction xs arbitrary: p rule: position_none.induct) auto

lemma server_id_simps:
  assumes "n < MAX_ID_SLOTS"
  shows "\<not> in_client_range (SERVER_ID_BASE + of_nat n)" "slot_index (SERVER_ID_BASE + of_nat n) = n"
proof -
  have n: "n < 8192" using assms by (simp add: MAX_ID_SLOTS_def MAX_OBJECTS_def)
  have un: "unat (of_nat n :: u32) = n" by (rule unat_of_nat_small) (use n in simp)
  have "unat (SERVER_ID_BASE + of_nat n :: u32) = 0xFF000000 + n"
    using n by (simp add: unat_word_ariths SERVER_ID_BASE_def un)
  then show "\<not> in_client_range (SERVER_ID_BASE + of_nat n)"
    by (simp add: in_client_range_def word_less_nat_alt SERVER_ID_BASE_def)
  then show "slot_index (SERVER_ID_BASE + of_nat n) = n" by (simp add: slot_index_def un)
qed

lemma free_server_id_free:
  assumes "free_server_id s = Some i"
  shows "objects_get s i = None \<and> \<not> in_client_range i"
proof -
  define n where "n = (case position_none (ob_server s) of Some p \<Rightarrow> p | None \<Rightarrow> length (ob_server s))"
  have i: "i = SERVER_ID_BASE + of_nat n" and n: "n < MAX_ID_SLOTS"
    using assms by (auto simp: free_server_id_def n_def Let_def split: if_splits)
  have "n < length (ob_server s) \<Longrightarrow> ob_server s ! n = None"
    unfolding n_def using position_none_Some by (fastforce split: option.splits)
  then show ?thesis
    unfolding i by (simp add: objects_get_def Let_def slots_def server_id_simps [OF n])
qed

end
