(* ===== verification/Session_State.thy ===== *)
theory Session_State
  imports Objects Clipboard
begin

text \<open>
  The state of a proxied connection (\<open>Session\<close> of \<open>compositor/wlproxy/src/session.rs\<close>), object lookup
  and registration, the shared-memory pools with their charges, and the surfaces that may hold them.
  The methods on pools and surfaces follow the source's order; their invariants are in \<open>Pools\<close>.
\<close>

section \<open>Descriptors of pools\<close>

text \<open>
  The kernel's answers about a descriptor: \<open>fcntl(F_GETFL)\<close>, the file system type by \<open>fstatfs\<close>, the
  seals once \<open>F_SEAL_SEAL\<close> was asked for, the device and inode by \<open>fstat\<close>, the copy by
  \<open>F_DUPFD_CLOEXEC\<close>, and the error of a hole punch, if it fails.
\<close>

record kernel =
  k_getfl :: "fd \<Rightarrow> int"
  k_fstatfs :: "fd \<Rightarrow> u64 option"
  k_get_seals :: "fd \<Rightarrow> int"
  k_fstat :: "fd \<Rightarrow> string + (u64 \<times> u64)"
  k_dupfd :: "fd \<Rightarrow> string + fd"
  k_punch :: "fd \<Rightarrow> nat \<Rightarrow> string option"

record pool =
  p_size :: nat
  p_buffers :: nat
  p_deleted :: bool
  p_held :: nat
  p_fd :: fd
  p_file :: "u64 \<times> u64"
  p_range :: nat

definition TMPFS_MAGIC :: u64 where "TMPFS_MAGIC = 0x01021994"
definition O_ACCMODE :: int where "O_ACCMODE = 3"
definition O_RDWR :: int where "O_RDWR = 2"
definition F_SEAL_WRITE :: int where "F_SEAL_WRITE = 0x8"
definition F_SEAL_FUTURE_WRITE :: int where "F_SEAL_FUTURE_WRITE = 0x10"

definition pool_fd :: "kernel \<Rightarrow> fd \<Rightarrow> session_error + (fd \<times> (u64 \<times> u64))" where
  "pool_fd k raw =
     (if k_getfl k raw AND O_ACCMODE \<noteq> O_RDWR
      then Inl (Forbidden ''a wl_shm pool not open for reading and writing'')
      else if k_fstatfs k raw \<noteq> Some TMPFS_MAGIC
      then Inl (Forbidden ''a wl_shm pool that is not shared memory'')
      else if k_get_seals k raw < 0 \<or> k_get_seals k raw AND (F_SEAL_WRITE OR F_SEAL_FUTURE_WRITE) \<noteq> 0
      then Inl (Forbidden ''a wl_shm pool sealed against writes'')
      else case k_fstat k raw of Inl e \<Rightarrow> Inl (Io e)
      | Inr file \<Rightarrow> (case k_dupfd k raw of Inl e \<Rightarrow> Inl (Io e) | Inr copy \<Rightarrow> Inr (copy, file)))"

section \<open>The session\<close>

record surface =
  role :: "u32 option"
  sf_parent :: "u32 option"
  sync :: bool
  cached :: bool
  children :: "u32 list"
  pending :: "nat option option"
  held :: "nat option list"

definition surface_default :: surface where
  "surface_default = \<lparr>role = None, sf_parent = None, sync = False, cached = False, children = [],
     pending = None, held = []\<rparr>"

text \<open>
  Counters the code keeps as \<open>u64\<close> or \<open>u32\<close> and only steps by one per message are \<^typ>\<open>nat\<close>. The last
  three fields are the model's record of what was done with the kernel: descriptors duplicated,
  descriptors closed as their owner was dropped, and holes punched, oldest first.
\<close>

record session =
  zone :: string
  hold_awake :: bool
  ses_id :: u64
  client :: endpoint
  server :: endpoint
  ses_objects :: objects
  pools :: "(nat, pool) hmap"
  pool_ids :: "(u32, nat) hmap"
  buffer_pools :: "(u32, nat) hmap"
  surfaces :: "(u32, surface) hmap"
  subsurfaces :: "(u32, u32) hmap"
  next_pool :: nat
  shm_pool_bytes :: nat
  shm_pool_count :: nat
  unpunched :: "string option"
  toplevels :: nat
  popups :: nat
  globals :: "(u32, string \<times> u32) hmap"
  outputs :: "(u32, u32) hmap"
  sources :: "(u32, string list) hmap"
  devices :: "u32 list"
  offers :: "(u32, nat) hmap"
  placeholders :: "(u32, nat) hmap"
  hidden_count :: nat
  forwarded_c2s :: nat
  forwarded_s2c :: nat
  rewritten_count :: nat
  ses_opened :: "fd list"
  ses_closed :: "fd list"
  ses_punched :: "(fd \<times> nat) list"

type_synonym ses_eff = "(session_error, session) eff"

definition WL_DISPLAY :: u32 where "WL_DISPLAY = 1"
definition WL_DISPLAY_SYNC :: u16 where "WL_DISPLAY_SYNC = 0"
definition WL_DISPLAY_ERROR :: u16 where "WL_DISPLAY_ERROR = 0"
definition WL_DISPLAY_DELETE_ID :: u16 where "WL_DISPLAY_DELETE_ID = 1"
definition WL_DATA_OFFER_OFFER :: u16 where "WL_DATA_OFFER_OFFER = 0"
definition WL_DATA_SOURCE_SEND :: u16 where "WL_DATA_SOURCE_SEND = 1"
definition WL_DATA_SOURCE_CANCELLED :: u16 where "WL_DATA_SOURCE_CANCELLED = 2"
definition WL_DATA_DEVICE_DATA_OFFER :: u16 where "WL_DATA_DEVICE_DATA_OFFER = 0"
definition WL_DATA_DEVICE_SELECTION :: u16 where "WL_DATA_DEVICE_SELECTION = 5"
definition WL_REGISTRY_BIND :: u16 where "WL_REGISTRY_BIND = 0"
definition WL_REGISTRY_GLOBAL :: u16 where "WL_REGISTRY_GLOBAL = 0"
definition WL_REGISTRY_GLOBAL_REMOVE :: u16 where "WL_REGISTRY_GLOBAL_REMOVE = 1"

lemmas opcode_defs = WL_DISPLAY_SYNC_def WL_DISPLAY_ERROR_def WL_DISPLAY_DELETE_ID_def
  WL_DATA_OFFER_OFFER_def WL_DATA_SOURCE_SEND_def WL_DATA_SOURCE_CANCELLED_def
  WL_DATA_DEVICE_DATA_OFFER_def WL_DATA_DEVICE_SELECTION_def WL_REGISTRY_BIND_def
  WL_REGISTRY_GLOBAL_def WL_REGISTRY_GLOBAL_REMOVE_def

text \<open>\<open>Session::new\<close>; \<^const>\<open>None\<close> is the panic of its \<open>expect\<close>.\<close>

definition session_new :: "string \<Rightarrow> fd \<Rightarrow> fd \<Rightarrow> session option" where
  "session_new zone_name client_fd server_fd =
     (case find ''wl_display'' of None \<Rightarrow> None | Some display \<Rightarrow> Some \<lparr>
        zone = zone_name, hold_awake = False, ses_id = 0,
        client = ep_new client_fd, server = ep_new server_fd,
        ses_objects = objects_new (display, 1),
        pools = [], pool_ids = [], buffer_pools = [], surfaces = [], subsurfaces = [],
        next_pool = 0, shm_pool_bytes = 0, shm_pool_count = 0, unpunched = None,
        toplevels = 0, popups = 0, globals = [], outputs = [], sources = [], devices = [],
        offers = [], placeholders = [], hidden_count = 0, forwarded_c2s = 0, forwarded_s2c = 0,
        rewritten_count = 0, ses_opened = [], ses_closed = [], ses_punched = []\<rparr>)"

definition lookup :: "session \<Rightarrow> u32 \<Rightarrow> dir \<Rightarrow> u16 \<Rightarrow> session_error + (interface \<times> message \<times> u32)" where
  "lookup s i d opcode =
     (case objects_get (ses_objects s) i of
        None \<Rightarrow> Inl (UnknownObject i)
      | Some (iface, version) \<Rightarrow>
          let table = (case d of ClientToServer \<Rightarrow> i_requests iface | ServerToClient \<Rightarrow> i_events iface) in
          if unat opcode \<ge> length table then Inl (UnknownOpcode (i_name iface) opcode)
          else let m = table ! unat opcode in
               if m_since m > version
               then Inl (VersionTooHigh (i_name iface @ ''.'' @ m_name m) (m_since m) version)
               else Inr (iface, m, version))"

definition register :: "u32 \<Rightarrow> string \<Rightarrow> u32 \<Rightarrow> dir \<Rightarrow> session \<Rightarrow> ses_eff" where
  "register i iface_name version d s =
     (let ok = (case d of ClientToServer \<Rightarrow> in_client_range i | ServerToClient \<Rightarrow> \<not> in_client_range i) in
      if \<not> ok \<or> i = 0 then (Some (IdOutOfRange i d), s)
      else case find iface_name of
        None \<Rightarrow> (Some (HiddenInterface iface_name), s)
      | Some iface \<Rightarrow>
          if i_name iface = ''xdg_toplevel'' \<and> toplevels s \<ge> MAX_TOPLEVELS_PER_SESSION
          then (Some (ResourceLimit ''too many toplevels in one session''), s)
          else if i_name iface = ''xdg_popup'' \<and> popups s \<ge> MAX_POPUPS_PER_SESSION
          then (Some (ResourceLimit ''too many popups in one session''), s)
          else (case objects_insert i (iface, version) (ses_objects s) of
              (Some e, obs) \<Rightarrow> (Some e, s\<lparr>ses_objects := obs\<rparr>)
            | (None, obs) \<Rightarrow>
                (None, (if i_name iface = ''xdg_toplevel'' then s\<lparr>ses_objects := obs, toplevels := toplevels s + 1\<rparr>
                        else if i_name iface = ''xdg_popup'' then s\<lparr>ses_objects := obs, popups := popups s + 1\<rparr>
                        else s\<lparr>ses_objects := obs\<rparr>))))"

section \<open>Pools\<close>

definition unused :: "pool \<Rightarrow> bool" where
  "unused p \<longleftrightarrow> p_deleted p \<and> p_buffers p = 0 \<and> p_held p = 0"

text \<open>
  The pool goes; another on the same file takes over its range and charge, or its pages are freed.
  The list order of \<open>pools\<close> is the table's iteration order, in which the first pool on the file is
  taken. Its descriptor is closed as it is dropped.
\<close>

definition release_pool_if_unused :: "kernel \<Rightarrow> nat \<Rightarrow> session \<Rightarrow> ses_eff" where
  "release_pool_if_unused k g s =
     (case hm_get (pools s) g of
        None \<Rightarrow> (None, s)
      | Some p \<Rightarrow>
          if \<not> unused p then (None, s)
          else if shm_pool_bytes s < p_range p \<or> shm_pool_count s = 0 then (Some Panic, s)
          else
            let s = s\<lparr>pools := hm_remove g (pools s), shm_pool_bytes := shm_pool_bytes s - p_range p,
                      shm_pool_count := shm_pool_count s - 1, ses_closed := ses_closed s @ [p_fd p]\<rparr> in
            (case List.find (\<lambda>(_, q). p_file q = p_file p) (pools s) of
               Some (g', other) \<Rightarrow>
                 if p_range p > p_range other
                 then (None, s\<lparr>shm_pool_bytes := shm_pool_bytes s + (p_range p - p_range other),
                               pools := hm_insert g' (other\<lparr>p_range := p_range p\<rparr>) (pools s)\<rparr>)
                 else (None, s)
             | None \<Rightarrow>
                 let s = s\<lparr>ses_punched := ses_punched s @ [(p_fd p, p_range p)]\<rparr> in
                 (case k_punch k (p_fd p) (p_range p) of
                    Some e \<Rightarrow> (None, s\<lparr>unpunched := (case unpunched s of None \<Rightarrow> Some e | Some e0 \<Rightarrow> Some e0)\<rparr>)
                  | None \<Rightarrow> (None, s))))"

definition take_pools :: "session \<Rightarrow> (fd \<times> nat) list \<times> session" where
  "take_pools s = (map (\<lambda>(_, p). (p_fd p, p_range p)) (pools s),
     s\<lparr>pool_ids := [], buffer_pools := [], shm_pool_bytes := 0, shm_pool_count := 0, pools := []\<rparr>)"

definition unhold :: "kernel \<Rightarrow> nat \<Rightarrow> session \<Rightarrow> ses_eff" where
  "unhold k g s =
     (case hm_get (pools s) g of
        Some p \<Rightarrow>
          if p_held p = 0 then (Some Panic, s)
          else release_pool_if_unused k g (s\<lparr>pools := hm_insert g (p\<lparr>p_held := p_held p - 1\<rparr>) (pools s)\<rparr>)
      | None \<Rightarrow> release_pool_if_unused k g s)"

fun unhold_all :: "kernel \<Rightarrow> nat list \<Rightarrow> session \<Rightarrow> ses_eff" where
  "unhold_all k [] s = (None, s)"
| "unhold_all k (g # gs) s = andthen (unhold k g s) (unhold_all k gs)"

section \<open>Surfaces\<close>

text \<open>\<open>up\<close>: a surface and those above it, at most the given number.\<close>

fun up_chain :: "nat \<Rightarrow> (u32, surface) hmap \<Rightarrow> u32 \<Rightarrow> u32 list" where
  "up_chain 0 m i = []"
| "up_chain (Suc n) m i = i # (case hm_get m i of
     Some sf \<Rightarrow> (case sf_parent sf of Some p \<Rightarrow> up_chain n m p | None \<Rightarrow> [])
   | None \<Rightarrow> [])"

definition up :: "session \<Rightarrow> u32 \<Rightarrow> u32 list" where
  "up s i = up_chain (length (subsurfaces s) + 1) (surfaces s) i"

definition synced :: "session \<Rightarrow> u32 \<Rightarrow> bool" where
  "synced s i = list_ex (\<lambda>j. case hm_get (surfaces s) j of Some sf \<Rightarrow> sync sf | None \<Rightarrow> False) (up s i)"

definition somes :: "'a option list \<Rightarrow> 'a list" where
  "somes xs = map the (filter (\<lambda>x. x \<noteq> None) xs)"

definition last1 :: "'a list \<Rightarrow> 'a list" where
  "last1 xs = (if xs = [] then [] else [last xs])"

definition is_cached :: "(u32, surface) hmap \<Rightarrow> u32 \<Rightarrow> bool" where
  "is_cached m i = (case hm_get m i of Some c \<Rightarrow> cached c | None \<Rightarrow> False)"

definition cached_kid :: "(u32, surface) hmap \<Rightarrow> u32 \<Rightarrow> bool" where
  "cached_kid m i = (case hm_get m i of Some c \<Rightarrow> sync c \<and> cached c | None \<Rightarrow> False)"

definition applied :: "surface \<Rightarrow> surface" where
  "applied sf = sf\<lparr>held := last1 (held sf), cached := False\<rparr>"

text \<open>The loop of \<open>apply\<close>: the head of the second list is the top of the stack \<open>todo\<close>.\<close>

function apply_loop :: "(u32, surface) hmap \<Rightarrow> u32 list \<Rightarrow> nat list \<Rightarrow> (u32, surface) hmap \<times> nat list" where
  "apply_loop m [] freed = (m, freed)"
| "apply_loop m (i # todo) freed =
     (case hm_get m i of
        None \<Rightarrow> apply_loop m todo freed
      | Some sf \<Rightarrow>
          let m' = hm_insert i (applied sf) m in
          apply_loop m' (rev (filter (cached_kid m') (children sf)) @ todo)
            (freed @ somes (butlast (held sf))))"
  by pat_completeness auto

lemma is_cached_applied: "hm_get m i = Some sf \<Longrightarrow>
    is_cached (hm_insert i (applied sf) m) j \<longleftrightarrow> is_cached m j \<and> j \<noteq> i"
  by (simp add: is_cached_def applied_def)

lemma cached_kid_is_cached: "cached_kid m i \<Longrightarrow> is_cached m i"
  by (simp add: cached_kid_def is_cached_def split: option.splits)

termination apply_loop
proof (relation "measures [\<lambda>(m, todo, _). card {i. is_cached m i},
      \<lambda>(m, todo, _). length (filter (\<lambda>i. \<not> is_cached m i) todo)]", goal_cases)
  case (2 m i todo freed)
  then show ?case by (simp add: is_cached_def)
next
  case (3 m i todo freed sf m')
  have eq: "is_cached m' j \<longleftrightarrow> is_cached m j \<and> j \<noteq> i" for j
    unfolding 3(2) using is_cached_applied [OF 3(1)] .
  have kids: "filter (\<lambda>j. \<not> is_cached m' j) (rev (filter (cached_kid m') (children sf))) = []"
    by (auto simp: filter_empty_conv dest: cached_kid_is_cached)
  show ?case
  proof (cases "is_cached m i")
    case True
    have "{j. is_cached m' j} \<subset> {j. is_cached m j}" using True eq by auto
    then have "card {j. is_cached m' j} < card {j. is_cached m j}" by (rule psubset_card_mono [rotated]) simp
    then show ?thesis by simp
  next
    case False
    then have "is_cached m' = is_cached m" using eq by auto
    then show ?thesis using False kids by simp
  qed
qed simp

declare apply_loop.simps [simp del]

definition apply_surface :: "kernel \<Rightarrow> u32 \<Rightarrow> session \<Rightarrow> ses_eff" where
  "apply_surface k i s =
     (let (m, freed) = apply_loop (surfaces s) [i] [] in unhold_all k freed (s\<lparr>surfaces := m\<rparr>))"

definition detach :: "kernel \<Rightarrow> u32 \<Rightarrow> session \<Rightarrow> ses_eff" where
  "detach k i s =
     andthen (if is_cached (surfaces s) i then apply_surface k i s else (None, s)) (\<lambda>s.
       case hm_get (surfaces s) i of
         None \<Rightarrow> (None, s)
       | Some sf \<Rightarrow>
           let s = s\<lparr>surfaces := hm_insert i (sf\<lparr>sf_parent := None, role := None, sync := False\<rparr>) (surfaces s)\<rparr> in
           (case sf_parent sf of
              None \<Rightarrow> (None, s)
            | Some p \<Rightarrow> (case hm_get (surfaces s) p of
                  None \<Rightarrow> (None, s)
                | Some pf \<Rightarrow> (None, s\<lparr>surfaces :=
                    hm_insert p (pf\<lparr>children := filter (\<lambda>c. c \<noteq> i) (children pf)\<rparr>) (surfaces s)\<rparr>))))"

definition hold_pending :: "u32 \<Rightarrow> session \<Rightarrow> ses_eff" where
  "hold_pending i s =
     (case hm_get (surfaces s) i of
        None \<Rightarrow> (None, s)
      | Some sf \<Rightarrow> (case pending sf of
            None \<Rightarrow> (None, s)
          | Some p \<Rightarrow>
              let sf = sf\<lparr>pending := None\<rparr>; s = s\<lparr>surfaces := hm_insert i sf (surfaces s)\<rparr> in
              if held sf \<noteq> [] \<and> last (held sf) = p then (None, s)
              else if length (held sf) \<ge> MAX_HELD_PER_SURFACE
              then (Some (ResourceLimit ''commits cached on one surface''), s)
              else
                let s = s\<lparr>surfaces := hm_insert i (sf\<lparr>held := held sf @ [p]\<rparr>) (surfaces s)\<rparr> in
                (case p of
                   None \<Rightarrow> (None, s)
                 | Some g \<Rightarrow> (case hm_get (pools s) g of
                       None \<Rightarrow> (None, s)
                     | Some q \<Rightarrow> (None, s\<lparr>pools := hm_insert g (q\<lparr>p_held := p_held q + 1\<rparr>) (pools s)\<rparr>)))))"

definition commit :: "kernel \<Rightarrow> u32 \<Rightarrow> session \<Rightarrow> ses_eff" where
  "commit k i s =
     andthen (hold_pending i s) (\<lambda>s.
       if synced s i
       then (case hm_get (surfaces s) i of
               None \<Rightarrow> (None, s)
             | Some sf \<Rightarrow> (None, s\<lparr>surfaces := hm_insert i (sf\<lparr>cached := True\<rparr>) (surfaces s)\<rparr>))
       else apply_surface k i s)"

end
