(* ===== verification/Pools.thy ===== *)
theory Pools
  imports Session_State
begin

text \<open>
  The accounting of shared-memory pools. The budgets of a session are the sum and the number of its
  live pools, a pool counts its buffers and the surfaces' holds on it exactly, and it is released
  when and only when it is deleted with neither left; every method on pools and surfaces keeps this
  and none of their subtractions underflows.
\<close>

section \<open>The invariant\<close>

definition held_count :: "nat \<Rightarrow> (u32, surface) hmap \<Rightarrow> nat" where
  "held_count g m = hm_sum (\<lambda>sf. count_list (held sf) (Some g)) m"

definition buffer_count :: "nat \<Rightarrow> (u32, nat) hmap \<Rightarrow> nat" where
  "buffer_count g m = hm_sum (\<lambda>g'. if g' = g then 1 else 0) m"

definition surf_ok :: "nat \<Rightarrow> surface \<Rightarrow> bool" where
  "surf_ok n sf \<longleftrightarrow> length (held sf) \<le> MAX_HELD_PER_SURFACE
     \<and> (\<forall>g. Some g \<in> set (held sf) \<longrightarrow> g \<le> n) \<and> (\<forall>g. pending sf = Some (Some g) \<longrightarrow> g \<le> n)"

text \<open>\<open>fl\<close> lists the holds already taken off the surfaces and not yet off the pools.\<close>

definition pool_ok :: "nat list \<Rightarrow> session \<Rightarrow> nat \<Rightarrow> pool \<Rightarrow> bool" where
  "pool_ok fl s g p \<longleftrightarrow> g \<le> next_pool s \<and> p_size p \<le> p_range p \<and> p_range p \<le> MAX_SHM_POOL_BYTES
     \<and> p_buffers p = buffer_count g (buffer_pools s)
     \<and> p_held p = held_count g (surfaces s) + count_list fl g
     \<and> (p_deleted p \<longleftrightarrow> (\<forall>i. hm_get (pool_ids s) i \<noteq> Some g))"

definition budget_ok :: "session \<Rightarrow> bool" where
  "budget_ok s \<longleftrightarrow> shm_pool_count s = length (pools s) \<and> shm_pool_bytes s = hm_sum p_range (pools s)
     \<and> shm_pool_count s \<le> MAX_SHM_POOLS_PER_SESSION \<and> shm_pool_bytes s \<le> MAX_SHM_BYTES_PER_SESSION"

definition maps_ok :: "session \<Rightarrow> bool" where
  "maps_ok s \<longleftrightarrow> hm_ok (pools s) \<and> hm_ok (pool_ids s) \<and> hm_ok (buffer_pools s) \<and> hm_ok (surfaces s)"

definition ids_ok :: "session \<Rightarrow> bool" where
  "ids_ok s \<longleftrightarrow>
     (\<forall>i g. hm_get (pool_ids s) i = Some g \<longrightarrow> hm_contains (pools s) g)
     \<and> (\<forall>i j g. hm_get (pool_ids s) i = Some g \<longrightarrow> hm_get (pool_ids s) j = Some g \<longrightarrow> i = j)
     \<and> (\<forall>i g. hm_get (buffer_pools s) i = Some g \<longrightarrow> hm_contains (pools s) g)"

definition pool_inv :: "nat list \<Rightarrow> session \<Rightarrow> bool" where
  "pool_inv fl s \<longleftrightarrow> maps_ok s \<and> budget_ok s \<and> ids_ok s
     \<and> (\<forall>g p. hm_get (pools s) g = Some p \<longrightarrow> pool_ok fl s g p)
     \<and> (\<forall>i sf. hm_get (surfaces s) i = Some sf \<longrightarrow> surf_ok (next_pool s) sf)"

text \<open>What the pool methods leave alone.\<close>

definition pools_only :: "session \<Rightarrow> session \<Rightarrow> bool" where
  "pools_only s s' \<longleftrightarrow> s' = s\<lparr>pools := pools s', shm_pool_bytes := shm_pool_bytes s',
     shm_pool_count := shm_pool_count s', unpunched := unpunched s', ses_closed := ses_closed s',
     ses_punched := ses_punched s', surfaces := surfaces s'\<rparr>"

lemma pools_onlyD:
  assumes "pools_only s s'"
  shows "zone s' = zone s" "hold_awake s' = hold_awake s" "ses_id s' = ses_id s" "client s' = client s"
    "server s' = server s" "ses_objects s' = ses_objects s" "pool_ids s' = pool_ids s"
    "buffer_pools s' = buffer_pools s" "subsurfaces s' = subsurfaces s" "next_pool s' = next_pool s"
    "toplevels s' = toplevels s" "popups s' = popups s" "globals s' = globals s"
    "outputs s' = outputs s" "sources s' = sources s" "devices s' = devices s"
    "offers s' = offers s" "placeholders s' = placeholders s" "ses_opened s' = ses_opened s"
  by (subst assms [unfolded pools_only_def], simp)+

lemma pools_only_refl [simp]: "pools_only s s"
  by (simp add: pools_only_def)

lemma pools_only_trans: "pools_only s s' \<Longrightarrow> pools_only s' s'' \<Longrightarrow> pools_only s s''"
  by (cases s; cases s'; cases s'') (simp add: pools_only_def)

lemma pools_only_upd [simp]:
  "pools_only s (s\<lparr>pools := a\<rparr>)" "pools_only s (s\<lparr>surfaces := b\<rparr>)"
  "pools_only s (s\<lparr>pools := a, shm_pool_bytes := c, shm_pool_count := d, ses_closed := e\<rparr>)"
  by (simp_all add: pools_only_def)

text \<open>Every descriptor the pools were given: kept, or closed.\<close>

definition pool_fds :: "session \<Rightarrow> fd multiset" where
  "pool_fds s = mset (map (\<lambda>kv. p_fd (snd kv)) (pools s)) + mset (ses_closed s)"

lemma mset_hm_remove:
  "hm_ok m \<Longrightarrow> hm_get m k = Some v \<Longrightarrow>
    mset (map (\<lambda>kv. f (snd kv)) m) = add_mset (f v) (mset (map (\<lambda>kv. f (snd kv)) (hm_remove k m)))"
  by (induction m) (auto simp: delete_id image_iff split: if_splits)

lemma mset_hm_insert_old:
  "hm_get m k = Some w \<Longrightarrow> f v = f w \<Longrightarrow>
    mset (map (\<lambda>kv. f (snd kv)) (hm_insert k v m)) = mset (map (\<lambda>kv. f (snd kv)) m)"
  by (induction m) (auto split: if_splits)

section \<open>Releasing a pool\<close>

lemma buffer_count_zero: "buffer_count g m = 0 \<Longrightarrow> hm_get m i \<noteq> Some g"
  using hm_sum_ge [of m i g "\<lambda>g'. if g' = g then 1 else 0"] by (auto simp: buffer_count_def)

lemma pool_invD:
  assumes "pool_inv fl s"
  shows "maps_ok s" "budget_ok s" "ids_ok s" "hm_ok (pools s)"
    "hm_get (pools s) g = Some p \<Longrightarrow> pool_ok fl s g p"
    "hm_get (surfaces s) i = Some sf \<Longrightarrow> surf_ok (next_pool s) sf"
  using assms by (auto simp: pool_inv_def maps_ok_def)

text \<open>Taking an unused pool out keeps the invariant.\<close>

lemma pool_inv_remove:
  assumes inv: "pool_inv fl s" and g: "hm_get (pools s) g = Some p" and un: "unused p"
  shows "p_range p \<le> shm_pool_bytes s \<and> shm_pool_count s \<noteq> 0
    \<and> pool_inv fl (s\<lparr>pools := hm_remove g (pools s), shm_pool_bytes := shm_pool_bytes s - p_range p,
         shm_pool_count := shm_pool_count s - 1, ses_closed := c\<rparr>)"
proof -
  note d = pool_invD [OF inv]
  have p: "pool_ok fl s g p" using d(5) [OF g] .
  have len: "length (pools s) = Suc (length (hm_remove g (pools s)))"
    by (rule hm_len_remove [OF d(4) g])
  have sum: "hm_sum p_range (pools s) = p_range p + hm_sum p_range (hm_remove g (pools s))"
    by (rule hm_sum_remove [OF d(4) g])
  have noid: "hm_get (pool_ids s) i \<noteq> Some g" for i
    using p un by (auto simp: pool_ok_def unused_def)
  have nobuf: "hm_get (buffer_pools s) i \<noteq> Some g" for i
    using p un buffer_count_zero by (auto simp: pool_ok_def unused_def)
  show ?thesis
    using inv len sum noid nobuf
    by (auto simp: pool_inv_def budget_ok_def maps_ok_def ids_ok_def pool_ok_def)
qed

text \<open>A pool takes over a larger range.\<close>

lemma pool_inv_widen:
  assumes inv: "pool_inv fl s" and g: "hm_get (pools s) g = Some q"
    and r: "p_range q < r" "r \<le> MAX_SHM_POOL_BYTES"
    and b: "shm_pool_bytes s + (r - p_range q) \<le> MAX_SHM_BYTES_PER_SESSION"
  shows "pool_inv fl (s\<lparr>shm_pool_bytes := shm_pool_bytes s + (r - p_range q),
    pools := hm_insert g (q\<lparr>p_range := r\<rparr>) (pools s)\<rparr>)"
proof -
  have "hm_sum p_range (hm_insert g (q\<lparr>p_range := r\<rparr>) (pools s)) + p_range q = r + hm_sum p_range (pools s)"
    using hm_sum_insert_old [OF g, of p_range "q\<lparr>p_range := r\<rparr>"] by simp
  with inv r b hm_len_insert_old [OF g] pool_invD(5) [OF inv g] show ?thesis
    by (auto simp: pool_inv_def budget_ok_def maps_ok_def ids_ok_def pool_ok_def)
qed

definition release_post :: "nat list \<Rightarrow> session \<Rightarrow> session \<Rightarrow> bool" where
  "release_post fl s s' \<longleftrightarrow> pool_inv fl s' \<and> pools_only s s' \<and> surfaces s' = surfaces s
     \<and> shm_pool_bytes s' \<le> shm_pool_bytes s \<and> pool_fds s' = pool_fds s"

lemma release_ok:
  assumes inv: "pool_inv fl s"
  shows "\<exists>s'. release_pool_if_unused k g s = (None, s') \<and> release_post fl s s'"
proof (cases "\<exists>p. hm_get (pools s) g = Some p \<and> unused p")
  case False
  then have "release_pool_if_unused k g s = (None, s)"
    by (auto simp: release_pool_if_unused_def split: option.splits)
  with inv show ?thesis by (simp add: release_post_def)
next
  case True
  then obtain p where g: "hm_get (pools s) g = Some p" and un: "unused p" by blast
  define t where "t = s\<lparr>pools := hm_remove g (pools s), shm_pool_bytes := shm_pool_bytes s - p_range p,
      shm_pool_count := shm_pool_count s - 1, ses_closed := ses_closed s @ [p_fd p]\<rparr>"
  have t: "p_range p \<le> shm_pool_bytes s" "shm_pool_count s \<noteq> 0" "pool_inv fl t"
    using pool_inv_remove [OF inv g un, of "ses_closed s @ [p_fd p]"] by (auto simp: t_def)
  have fr: "pools_only s t" "surfaces t = surfaces s" by (simp_all add: t_def)
  have fds: "pool_fds t = pool_fds s"
    using mset_hm_remove [OF pool_invD(4) [OF inv] g, of p_fd] by (simp add: t_def pool_fds_def)
  have tb: "shm_pool_bytes t + p_range p = shm_pool_bytes s" using t(1) by (simp add: t_def)
  have bud: "shm_pool_bytes s \<le> MAX_SHM_BYTES_PER_SESSION" "p_range p \<le> MAX_SHM_POOL_BYTES"
    using pool_invD(2) [OF inv] pool_invD(5) [OF inv g] by (auto simp: budget_ok_def pool_ok_def)
  have run: "release_pool_if_unused k g s =
      (case List.find (\<lambda>(_, q). p_file q = p_file p) (pools t) of
         Some (g', other) \<Rightarrow>
           if p_range p > p_range other
           then (None, t\<lparr>shm_pool_bytes := shm_pool_bytes t + (p_range p - p_range other),
                         pools := hm_insert g' (other\<lparr>p_range := p_range p\<rparr>) (pools t)\<rparr>)
           else (None, t)
       | None \<Rightarrow> (None, (t\<lparr>ses_punched := ses_punched t @ [(p_fd p, p_range p)]\<rparr>)\<lparr>unpunched :=
           (case k_punch k (p_fd p) (p_range p) of
              Some e \<Rightarrow> (case unpunched t of None \<Rightarrow> Some e | Some e0 \<Rightarrow> Some e0)
            | None \<Rightarrow> unpunched t)\<rparr>))"
    using g un t(1,2)
    by (simp add: release_pool_if_unused_def t_def Let_def not_less split: option.splits)
  show ?thesis
  proof (cases "List.find (\<lambda>(_, q). p_file q = p_file p) (pools t)")
    case None
    have "release_post fl s (t\<lparr>ses_punched := x, unpunched := y\<rparr>)" for x y
      using t(3) fr fds tb
      by (simp add: release_post_def pool_inv_def budget_ok_def maps_ok_def ids_ok_def pool_ok_def
          pools_only_def pool_fds_def t_def)
    then show ?thesis unfolding run None by simp
  next
    case (Some gq)
    obtain g' q where gq: "gq = (g', q)" by (cases gq)
    have "(g', q) \<in> set (pools t)" using list_find_SomeD [OF Some] gq by simp
    then have g': "hm_get (pools t) g' = Some q"
      using pool_invD(4) [OF t(3)] by simp
    show ?thesis
    proof (cases "p_range p > p_range q")
      case True
      let ?u = "t\<lparr>shm_pool_bytes := shm_pool_bytes t + (p_range p - p_range q),
          pools := hm_insert g' (q\<lparr>p_range := p_range p\<rparr>) (pools t)\<rparr>"
      have "pool_inv fl ?u"
        by (rule pool_inv_widen [OF t(3) g']) (use True bud tb in auto)
      moreover have "pools_only s ?u" by (simp add: pools_only_def t_def)
      moreover have "pool_fds ?u = pool_fds s"
        using fds mset_hm_insert_old [OF g', of p_fd "q\<lparr>p_range := p_range p\<rparr>"] by (simp add: pool_fds_def)
      ultimately show ?thesis
        unfolding run Some gq using True tb fr by (simp add: release_post_def)
    next
      case False
      then show ?thesis unfolding run Some gq using t(3) fr fds tb by (simp add: release_post_def)
    qed
  qed
qed

lemma release_post_trans:
  "release_post fl1 s t \<Longrightarrow> release_post fl2 t u \<Longrightarrow> release_post fl2 s u"
  by (auto simp: release_post_def intro: pools_only_trans)

section \<open>Holds\<close>

lemma unhold_ok:
  assumes inv: "pool_inv (g # fl) s"
  shows "\<exists>s'. unhold k g s = (None, s') \<and> release_post fl s s'"
proof (cases "hm_get (pools s) g")
  case None
  have "pool_inv fl s" using inv None by (auto simp: pool_inv_def pool_ok_def split: if_splits)
  then show ?thesis using release_ok [of fl s k g] by (simp add: unhold_def None)
next
  case (Some p)
  let ?t = "s\<lparr>pools := hm_insert g (p\<lparr>p_held := p_held p - 1\<rparr>) (pools s)\<rparr>"
  have p: "pool_ok (g # fl) s g p" using pool_invD(5) [OF inv Some] .
  have sum: "hm_sum p_range (hm_insert g (p\<lparr>p_held := p_held p - 1\<rparr>) (pools s)) = hm_sum p_range (pools s)"
    using hm_sum_insert_old [OF Some, of p_range "p\<lparr>p_held := p_held p - 1\<rparr>"] by simp
  have t: "pool_inv fl ?t"
    using inv p sum hm_len_insert_old [OF Some]
    by (auto simp: pool_inv_def budget_ok_def maps_ok_def ids_ok_def pool_ok_def split: if_splits)
  have st: "release_post fl s ?t"
    using t mset_hm_insert_old [OF Some, of p_fd "p\<lparr>p_held := p_held p - 1\<rparr>"]
    by (simp add: release_post_def pool_fds_def)
  have "unhold k g s = release_pool_if_unused k g ?t"
    using p by (simp add: unhold_def Some pool_ok_def)
  then show ?thesis using release_ok [OF t, of k g] release_post_trans [OF st] by auto
qed

lemma unhold_all_ok:
  "pool_inv (gs @ fl) s \<Longrightarrow> \<exists>s'. unhold_all k gs s = (None, s') \<and> release_post fl s s'"
proof (induction gs arbitrary: s)
  case Nil
  then show ?case by (simp add: release_post_def)
next
  case (Cons g gs)
  obtain t where t: "unhold k g s = (None, t)" "release_post (gs @ fl) s t"
    using unhold_ok [of g "gs @ fl" s k] Cons.prems by auto
  then obtain u where "unhold_all k gs t = (None, u)" "release_post fl t u"
    using Cons.IH [of t] by (auto simp: release_post_def)
  with t show ?case by (auto intro: release_post_trans)
qed

section \<open>Applying a surface's state\<close>

text \<open>Surfaces that differ in nothing the pools depend on but what was applied.\<close>

definition applied_of :: "surface \<Rightarrow> surface \<Rightarrow> bool" where
  "applied_of sf sf' \<longleftrightarrow> sf' = sf \<or> sf' = applied sf"

lemma applied_applied: "applied_of sf sf' \<Longrightarrow> applied_of sf (applied sf')"
  by (auto simp: applied_of_def applied_def last1_def)

lemma surf_ok_applied: "surf_ok n sf \<Longrightarrow> applied_of sf sf' \<Longrightarrow> surf_ok n sf'"
  by (auto simp: surf_ok_def applied_of_def applied_def last1_def MAX_HELD_PER_SURFACE_def
      split: if_splits)

lemma count_somes: "count_list (somes xs) g = count_list xs (Some g)"
  by (induction xs) (auto simp: somes_def)

lemma count_applied: "count_list (held (applied sf)) (Some g) + count_list (somes (butlast (held sf))) g
    = count_list (held sf) (Some g)"
proof (cases "held sf" rule: rev_cases)
  case (snoc ys y)
  then show ?thesis by (simp add: applied_def last1_def count_somes)
qed (simp add: applied_def last1_def somes_def)

definition apply_post :: "(u32, surface) hmap \<Rightarrow> nat list \<Rightarrow> (u32, surface) hmap \<times> nat list \<Rightarrow> bool" where
  "apply_post m freed r \<longleftrightarrow>
     (\<forall>g. held_count g (fst r) + count_list (snd r) g = held_count g m + count_list freed g)
     \<and> hm_ok (fst r)
     \<and> (\<forall>i. rel_option applied_of (hm_get m i) (hm_get (fst r) i))"

lemma apply_post_step:
  assumes i: "hm_get m i = Some sf"
    and post: "apply_post (hm_insert i (applied sf) m) (freed @ somes (butlast (held sf))) r"
  shows "apply_post m freed r"
  unfolding apply_post_def
proof (intro conjI allI)
  fix g
  have "held_count g (hm_insert i (applied sf) m) + count_list (held sf) (Some g)
      = count_list (held (applied sf)) (Some g) + held_count g m"
    using hm_sum_insert_old [OF i, of "\<lambda>sf. count_list (held sf) (Some g)" "applied sf"]
    by (simp add: held_count_def)
  then show "held_count g (fst r) + count_list (snd r) g = held_count g m + count_list freed g"
    using post count_applied [of sf g] by (simp add: apply_post_def)
next
  show "hm_ok (fst r)" using post by (simp add: apply_post_def)
next
  fix j
  have r: "rel_option applied_of (hm_get (hm_insert i (applied sf) m) j) (hm_get (fst r) j)"
    using post by (simp add: apply_post_def)
  have t: "applied_of (applied sf) x \<Longrightarrow> applied_of sf x" for x
    by (auto simp: applied_of_def applied_def last1_def)
  show "rel_option applied_of (hm_get m j) (hm_get (fst r) j)"
    using r i t by (cases "hm_get (fst r) j") (auto split: if_splits)
qed

lemma apply_loop_post: "hm_ok m \<Longrightarrow> apply_post m freed (apply_loop m todo freed)"
proof (induction m todo freed rule: apply_loop.induct)
  case (1 m freed)
  then show ?case by (simp add: apply_loop.simps apply_post_def applied_of_def option.rel_refl)
next
  case (2 m i todo freed)
  show ?case
  proof (cases "hm_get m i")
    case None
    then show ?thesis using 2 by (simp add: apply_loop.simps)
  next
    case (Some sf)
    then show ?thesis
      using 2 apply_post_step [OF Some, of freed] by (subst apply_loop.simps) (simp add: Let_def)
  qed
qed

lemma pool_inv_applied:
  assumes inv: "pool_inv fl s" and post: "apply_post (surfaces s) [] (m, freed)"
  shows "pool_inv (freed @ fl) (s\<lparr>surfaces := m\<rparr>)"
proof -
  have c: "held_count g m + count_list freed g = held_count g (surfaces s)" for g
    using post by (simp add: apply_post_def)
  have "surf_ok (next_pool s) sf'" if "hm_get m i = Some sf'" for i sf'
  proof -
    have "rel_option applied_of (hm_get (surfaces s) i) (hm_get m i)"
      using post by (simp add: apply_post_def)
    then have "rel_option applied_of (hm_get (surfaces s) i) (Some sf')" unfolding that .
    then obtain sf where "hm_get (surfaces s) i = Some sf" "applied_of sf sf'"
      by (cases "hm_get (surfaces s) i") simp_all
    then show ?thesis using pool_invD(6) [OF inv] surf_ok_applied by blast
  qed
  with inv post c show ?thesis
    by (auto simp: pool_inv_def budget_ok_def maps_ok_def ids_ok_def pool_ok_def apply_post_def)
qed

text \<open>
  What a method on surfaces promises: the invariant, nothing else of the session touched, the
  charges not raised, the descriptors all accounted for.
\<close>

definition surf_post :: "nat list \<Rightarrow> session \<Rightarrow> session \<Rightarrow> bool" where
  "surf_post fl s s' \<longleftrightarrow> pool_inv fl s' \<and> pools_only s s' \<and> pool_fds s' = pool_fds s
     \<and> shm_pool_bytes s' \<le> shm_pool_bytes s"

lemma surf_post_trans: "surf_post fl s t \<Longrightarrow> surf_post fl t u \<Longrightarrow> surf_post fl s u"
  by (auto simp: surf_post_def intro: pools_only_trans)

lemma surf_post_refl: "pool_inv fl s \<Longrightarrow> surf_post fl s s"
  by (simp add: surf_post_def)

lemma apply_surface_ok:
  assumes inv: "pool_inv fl s"
  shows "\<exists>s'. apply_surface k i s = (None, s') \<and> surf_post fl s s'
    \<and> surfaces s' = fst (apply_loop (surfaces s) [i] [])"
proof -
  obtain m freed where mf: "apply_loop (surfaces s) [i] [] = (m, freed)" by fastforce
  have "apply_post (surfaces s) [] (m, freed)"
    using apply_loop_post [of "surfaces s" "[]" "[i]"] pool_invD(1) [OF inv] mf by (simp add: maps_ok_def)
  then have t: "pool_inv (freed @ fl) (s\<lparr>surfaces := m\<rparr>)" by (rule pool_inv_applied [OF inv])
  obtain u where u: "unhold_all k freed (s\<lparr>surfaces := m\<rparr>) = (None, u)"
      "release_post fl (s\<lparr>surfaces := m\<rparr>) u"
    using unhold_all_ok [OF t] by blast
  have "pools_only s u"
    using u(2) pools_only_trans [OF pools_only_upd(2)] unfolding release_post_def by blast
  with u mf show ?thesis
    by (auto simp: apply_surface_def release_post_def surf_post_def pool_fds_def)
qed

section \<open>Changing a surface\<close>

lemma pool_inv_surface_keep:
  assumes inv: "pool_inv fl s" and i: "hm_get (surfaces s) i = Some sf"
    and keep: "held sf' = held sf" "pending sf' = pending sf"
  shows "pool_inv fl (s\<lparr>surfaces := hm_insert i sf' (surfaces s)\<rparr>)"
proof -
  have "held_count g (hm_insert i sf' (surfaces s)) = held_count g (surfaces s)" for g
    using hm_sum_insert_old [OF i, of "\<lambda>sf. count_list (held sf) (Some g)" sf'] keep
    by (simp add: held_count_def)
  moreover have "surf_ok (next_pool s) sf'"
    using pool_invD(6) [OF inv i] keep by (simp add: surf_ok_def)
  ultimately show ?thesis
    using inv by (auto simp: pool_inv_def budget_ok_def maps_ok_def ids_ok_def pool_ok_def split: if_splits)
qed

lemma pool_inv_surface_new:
  assumes inv: "pool_inv fl s" and i: "hm_get (surfaces s) i = None"
    and keep: "held sf' = []" "surf_ok (next_pool s) sf'"
  shows "pool_inv fl (s\<lparr>surfaces := hm_insert i sf' (surfaces s)\<rparr>)"
proof -
  have "held_count g (hm_insert i sf' (surfaces s)) = held_count g (surfaces s)" for g
    using hm_sum_insert_new [OF i, of "\<lambda>sf. count_list (held sf) (Some g)" sf'] keep
    by (simp add: held_count_def)
  then show ?thesis
    using inv keep
    by (auto simp: pool_inv_def budget_ok_def maps_ok_def ids_ok_def pool_ok_def split: if_splits)
qed

lemma surf_post_surface_keep:
  "pool_inv fl s \<Longrightarrow> hm_get (surfaces s) i = Some sf \<Longrightarrow> held sf' = held sf \<Longrightarrow> pending sf' = pending sf \<Longrightarrow>
    surf_post fl s (s\<lparr>surfaces := hm_insert i sf' (surfaces s)\<rparr>)"
  using pool_inv_surface_keep [of fl s i sf sf'] by (simp add: surf_post_def pool_fds_def)

lemma detach_tail_ok:
  assumes inv: "pool_inv fl s" and i: "hm_get (surfaces s) i = Some sf"
  shows "\<exists>s'. (let s = s\<lparr>surfaces := hm_insert i (sf\<lparr>sf_parent := None, role := None, sync := False\<rparr>) (surfaces s)\<rparr> in
       (case sf_parent sf of
          None \<Rightarrow> (None, s)
        | Some p \<Rightarrow> (case hm_get (surfaces s) p of
              None \<Rightarrow> (None, s)
            | Some pf \<Rightarrow> (None, s\<lparr>surfaces :=
                hm_insert p (pf\<lparr>children := filter (\<lambda>c. c \<noteq> i) (children pf)\<rparr>) (surfaces s)\<rparr>))))
     = (None :: session_error option, s') \<and> surf_post fl s s'"
proof -
  define t where "t = s\<lparr>surfaces := hm_insert i (sf\<lparr>sf_parent := None, role := None, sync := False\<rparr>) (surfaces s)\<rparr>"
  have t: "surf_post fl s t" unfolding t_def by (rule surf_post_surface_keep [OF inv i]) simp_all
  have "surf_post fl s (t\<lparr>surfaces := hm_insert p (pf\<lparr>children := x\<rparr>) (surfaces t)\<rparr>)"
    if "hm_get (surfaces t) p = Some pf" for p pf x
    by (rule surf_post_trans [OF t surf_post_surface_keep [OF _ that]])
      (use t in \<open>simp_all add: surf_post_def\<close>)
  with t show ?thesis
    unfolding t_def [symmetric] Let_def by (auto split: option.splits)
qed

lemma detach_ok:
  assumes inv: "pool_inv fl s"
  shows "\<exists>s'. detach k i s = (None, s') \<and> surf_post fl s s'"
proof -
  obtain t where t: "(if is_cached (surfaces s) i then apply_surface k i s else (None, s)) = (None, t)"
      "surf_post fl s t"
    using apply_surface_ok [OF inv] surf_post_refl [OF inv] by (metis (full_types))
  then have inv_t: "pool_inv fl t" by (simp add: surf_post_def)
  show ?thesis
  proof (cases "hm_get (surfaces t) i")
    case None
    then show ?thesis using t by (simp add: detach_def)
  next
    case (Some sf)
    then show ?thesis
      using t detach_tail_ok [OF inv_t Some] surf_post_trans by (fastforce simp: detach_def)
  qed
qed

text \<open>A commit may also be refused, for too many cached commits; it never panics.\<close>

lemma hold_pending_cases:
  assumes inv: "pool_inv fl s"
  shows "\<exists>r s'. hold_pending i s = (r, s') \<and> r \<noteq> Some Panic \<and> surf_post fl s s'"
proof -
  consider (none) "hm_get (surfaces s) i = None"
    | (still) sf where "hm_get (surfaces s) i = Some sf" "pending sf = None"
    | (some) sf p where "hm_get (surfaces s) i = Some sf" "pending sf = Some p"
    by (metis option.exhaust)
  then show ?thesis
  proof cases
    case none
    then show ?thesis using surf_post_refl [OF inv] by (auto simp: hold_pending_def)
  next
    case still
    then show ?thesis using surf_post_refl [OF inv] by (auto simp: hold_pending_def)
  next
    case some
    let ?t = "s\<lparr>surfaces := hm_insert i (sf\<lparr>pending := None\<rparr>) (surfaces s)\<rparr>"
    let ?sf = "sf\<lparr>pending := None, held := held sf @ [p]\<rparr>"
    let ?u = "s\<lparr>surfaces := hm_insert i ?sf (surfaces s)\<rparr>"
    have sok: "surf_ok (next_pool s) sf" using pool_invD(6) [OF inv some(1)] .
    have cnt: "held_count g (hm_insert i sf' (surfaces s)) + count_list (held sf) (Some g)
        = count_list (held sf') (Some g) + held_count g (surfaces s)" for g sf'
      using hm_sum_insert_old [OF some(1), of "\<lambda>sf. count_list (held sf) (Some g)" sf']
      by (simp add: held_count_def)
    have t: "surf_post fl s ?t"
      using inv sok cnt [of _ "sf\<lparr>pending := None\<rparr>"]
      by (auto simp: surf_post_def pool_fds_def pool_inv_def budget_ok_def maps_ok_def ids_ok_def
          pool_ok_def surf_ok_def split: if_splits)
    show ?thesis
    proof (cases "(held sf \<noteq> [] \<and> last (held sf) = p) \<or> length (held sf) \<ge> MAX_HELD_PER_SURFACE")
      case True
      then show ?thesis using t some by (auto simp: hold_pending_def Let_def)
    next
      case False
      have uok: "surf_ok (next_pool s) ?sf"
        using sok some(2) False by (auto simp: surf_ok_def)
      show ?thesis
      proof (cases "\<exists>g q. p = Some g \<and> hm_get (pools s) g = Some q")
        case True
        then obtain g q where gq: "p = Some g" "hm_get (pools s) g = Some q" by blast
        let ?q = "q\<lparr>p_held := p_held q + 1\<rparr>"
        have "hm_sum p_range (hm_insert g ?q (pools s)) = hm_sum p_range (pools s)"
          using hm_sum_insert_old [OF gq(2), of p_range ?q] by simp
        moreover have "held_count g' (hm_insert i ?sf (surfaces s)) =
            held_count g' (surfaces s) + (if g' = g then 1 else 0)" for g'
          using cnt [of g' ?sf] gq(1) by auto
        ultimately have "pool_inv fl (?u\<lparr>pools := hm_insert g ?q (pools s)\<rparr>)"
          using inv uok hm_len_insert_old [OF gq(2)] gq
          by (auto simp: pool_inv_def budget_ok_def maps_ok_def ids_ok_def pool_ok_def split: if_splits)
        then have "surf_post fl s (?u\<lparr>pools := hm_insert g ?q (pools s)\<rparr>)"
          using mset_hm_insert_old [OF gq(2), of p_fd ?q]
          by (simp add: surf_post_def pool_fds_def pools_only_def)
        then show ?thesis using some False gq by (auto simp: hold_pending_def Let_def)
      next
        case 2: False
        have "held_count g (hm_insert i ?sf (surfaces s)) = held_count g (surfaces s)"
          if "hm_contains (pools s) g" for g
          using cnt [of g ?sf] 2 that by auto
        then have "pool_inv fl ?u"
          using inv uok
          by (auto simp: pool_inv_def budget_ok_def maps_ok_def ids_ok_def pool_ok_def split: if_splits)
        then have "surf_post fl s ?u" by (simp add: surf_post_def pool_fds_def)
        then show ?thesis using some False 2
          by (auto simp: hold_pending_def Let_def split: option.splits)
      qed
    qed
  qed
qed

lemma commit_tail_ok:
  assumes inv: "pool_inv fl t"
  shows "\<exists>u. (if synced t i
     then (case hm_get (surfaces t) i of
            None \<Rightarrow> (None, t)
          | Some sf \<Rightarrow> (None, t\<lparr>surfaces := hm_insert i (sf\<lparr>cached := True\<rparr>) (surfaces t)\<rparr>))
     else apply_surface k i t) = (None, u) \<and> surf_post fl t u"
proof (cases "synced t i")
  case True
  show ?thesis
  proof (cases "hm_get (surfaces t) i")
    case None
    then show ?thesis using True surf_post_refl [OF inv] by simp
  next
    case (Some sf)
    then show ?thesis using True surf_post_surface_keep [OF inv Some, of "sf\<lparr>cached := True\<rparr>"] by simp
  qed
next
  case False
  then show ?thesis using apply_surface_ok [OF inv, of k i] by auto
qed

lemma commit_cases:
  assumes inv: "pool_inv fl s"
  shows "\<exists>r s'. commit k i s = (r, s') \<and> r \<noteq> Some Panic \<and> surf_post fl s s'"
proof -
  obtain r t where t: "hold_pending i s = (r, t)" "r \<noteq> Some Panic" "surf_post fl s t"
    using hold_pending_cases [OF inv] by blast
  show ?thesis
  proof (cases r)
    case (Some e)
    then show ?thesis using t by (auto simp: commit_def)
  next
    case None
    have "pool_inv fl t" using t(3) by (simp add: surf_post_def)
    then show ?thesis
      using t(1,3) None commit_tail_ok [of fl t i k] surf_post_trans by (fastforce simp: commit_def)
  qed
qed

end
