(* ===== verification/Serve.thy ===== *)
theory Serve
  imports Pools
begin

text \<open>
  Messages of the proxy's own, and the data device it serves itself: the part of \<open>session.rs\<close> from
  \<open>emit\<close> to \<open>act\<close>. A descriptor passed by value is closed when its owner is dropped, on an error
  path as on any other.
\<close>

section \<open>Messages of the proxy's own\<close>

definition drop_fds :: "fd list \<Rightarrow> session \<Rightarrow> session" where
  "drop_fds fds s = s\<lparr>ses_closed := ses_closed s @ fds\<rparr>"

definition emit :: "bytes option \<Rightarrow> fd list \<Rightarrow> session \<Rightarrow> ses_eff" where
  "emit msg fds s = (case msg of
       None \<Rightarrow> (Some (ResourceLimit ''a message of the proxy's own does not fit''), drop_fds fds s)
     | Some m \<Rightarrow>
         if pending_out (client s) + length m > MAX_PENDING_BYTES
         then (Some (TooMuchPending ServerToClient), drop_fds fds s)
         else if pending_fds (client s) + length fds > MAX_PENDING_FDS
         then (Some TooManyFds, drop_fds fds s)
         else (None, s\<lparr>client := queue m fds (client s)\<rparr>))"

definition placeholder :: "u32 \<Rightarrow> session \<Rightarrow> ses_eff" where
  "placeholder i s = (case mw_finish (mw_u32 i (mw_new WL_DISPLAY WL_DISPLAY_SYNC)) of
       None \<Rightarrow> (Some (ResourceLimit ''a placeholder does not fit''), s)
     | Some m \<Rightarrow>
         if pending_out (server s) + length m > MAX_PENDING_BYTES
         then (Some (TooMuchPending ClientToServer), s)
         else (None, s\<lparr>server := queue m [] (server s),
           placeholders := hm_insert i
             ((case hm_get (placeholders s) i of Some n \<Rightarrow> n | None \<Rightarrow> 0) + 1) (placeholders s)\<rparr>))"

text \<open>The result is whether a placeholder was counted off; the error is an underflow's panic.\<close>

definition end_placeholder :: "u32 \<Rightarrow> session \<Rightarrow> (session_error + bool) \<times> session" where
  "end_placeholder i s = (case hm_get (placeholders s) i of
       None \<Rightarrow> (Inr False, s)
     | Some n \<Rightarrow>
         if n = 0 then (Inl Panic, s)
         else if n - 1 = 0 then (Inr True, s\<lparr>placeholders := hm_remove i (placeholders s)\<rparr>)
         else (Inr True, s\<lparr>placeholders := hm_insert i (n - 1) (placeholders s)\<rparr>))"

definition remove_object :: "u32 \<Rightarrow> session \<Rightarrow> ses_eff" where
  "remove_object i s =
     (case objects_remove i (ses_objects s) of (e, obs) \<Rightarrow> (e, s\<lparr>ses_objects := obs\<rparr>))"

definition served_gone :: "u32 \<Rightarrow> session \<Rightarrow> ses_eff" where
  "served_gone i s = andthen (remove_object i s)
     (emit (mw_finish (mw_u32 i (mw_new WL_DISPLAY WL_DISPLAY_DELETE_ID))) [])"

definition cancel :: "u32 \<Rightarrow> session \<Rightarrow> ses_eff" where
  "cancel src = emit (mw_finish (mw_new src WL_DATA_SOURCE_CANCELLED)) []"

fun emit_types :: "u32 \<Rightarrow> string list \<Rightarrow> session \<Rightarrow> ses_eff" where
  "emit_types offer [] s = (None, s)"
| "emit_types offer (t # ts) s =
     andthen (emit (mw_finish (mw_string t (mw_new offer WL_DATA_OFFER_OFFER))) [] s) (emit_types offer ts)"

text \<open>The body of the loop of \<open>offer_selection\<close> for one device, and the loop.\<close>

definition offer_to :: "clipboard \<Rightarrow> u32 \<Rightarrow> session \<Rightarrow> ses_eff" where
  "offer_to clip dev s = (case objects_get (ses_objects s) dev of
       None \<Rightarrow> (None, s)
     | Some (_, version) \<Rightarrow> (case selection clip of
           None \<Rightarrow> emit (mw_finish (mw_u32 0 (mw_new dev WL_DATA_DEVICE_SELECTION))) [] s
         | Some sel \<Rightarrow> (case free_server_id (ses_objects s) of
               None \<Rightarrow> (Some TooManyObjects, s)
             | Some offer \<Rightarrow>
                 andthen (register offer ''wl_data_offer'' version ServerToClient s) (\<lambda>s.
                 andthen (emit (mw_finish (mw_u32 offer (mw_new dev WL_DATA_DEVICE_DATA_OFFER))) []
                            (s\<lparr>offers := hm_insert offer (generation clip) (offers s)\<rparr>))
                   (\<lambda>s. andthen (emit_types offer (mimes sel) s)
                      (emit (mw_finish (mw_u32 offer (mw_new dev WL_DATA_DEVICE_SELECTION))) []))))))"

fun offer_selection :: "clipboard \<Rightarrow> u32 list \<Rightarrow> session \<Rightarrow> ses_eff" where
  "offer_selection clip [] s = (None, s)"
| "offer_selection clip (dev # devs) s = andthen (offer_to clip dev s) (offer_selection clip devs)"

section \<open>A message being handled\<close>

text \<open>
  The session and the zone's clipboard, with the local variables of \<open>pump\<close> that its parts change:
  the descriptors the message owns, whether it goes on, and what goes in its place or behind it.
\<close>

record turn =
  ses :: session
  clip :: clipboard
  fds :: "fd list"
  forward :: bool
  rewritten :: "bytes option"
  stamp :: "bytes option"

type_synonym turn_eff = "(session_error, turn) eff"

definition on_ses :: "(session \<Rightarrow> ses_eff) \<Rightarrow> turn \<Rightarrow> turn_eff" where
  "on_ses f t = (case f (ses t) of (e, s) \<Rightarrow> (e, t\<lparr>ses := s\<rparr>))"

definition wire :: "wire_error + 'a \<Rightarrow> session_error + 'a" where
  "wire r = map_sum Wire (\<lambda>x. x) r"

definition unwrap_str :: "bytes option \<Rightarrow> bytes" where
  "unwrap_str x = (case x of Some s \<Rightarrow> s | None \<Rightarrow> [])"

section \<open>Requests on the data device\<close>

definition serve_create_source :: "arg_reader \<Rightarrow> turn \<Rightarrow> turn_eff" where
  "serve_create_source r t =
     (if length (sources (ses t)) \<ge> MAX_DATA_SOURCES_PER_SESSION
      then (Some (ResourceLimit ''too many data sources in one session''), t)
      else try_val (wire (ar_u32 r)) t (\<lambda>(i, _).
        (None, t\<lparr>ses := (ses t)\<lparr>sources := hm_insert i [] (sources (ses t))\<rparr>\<rparr>)))"

definition serve_offer :: "u32 \<Rightarrow> arg_reader \<Rightarrow> turn \<Rightarrow> turn_eff" where
  "serve_offer obj r t =
     try_val (wire (ar_string r)) t (\<lambda>(ms, _).
       let mime = unwrap_str ms in
       (case hm_get (sources (ses t)) obj of
          None \<Rightarrow> (Some (UnknownObject obj), t)
        | Some types \<Rightarrow>
            if length types \<ge> MAX_MIME_TYPES \<or> length mime > MAX_MIME_BYTES
            then (Some (ResourceLimit ''a data source's types''), t)
            else if mime \<in> set types then (None, t)
            else (None, t\<lparr>ses := (ses t)\<lparr>sources := hm_insert obj (types @ [mime]) (sources (ses t))\<rparr>\<rparr>)))"

definition serve_source_destroy :: "u32 \<Rightarrow> turn \<Rightarrow> turn_eff" where
  "serve_source_destroy obj t =
     on_ses (served_gone obj) (t\<lparr>
       ses := (ses t)\<lparr>sources := hm_remove obj (sources (ses t))\<rparr>,
       clip := source_gone (ses_id (ses t)) obj (clip t)\<rparr>)"

definition serve_set_selection :: "arg_reader \<Rightarrow> turn \<Rightarrow> turn_eff" where
  "serve_set_selection r t =
     try_val (wire (ar_u32 r)) t (\<lambda>(src, _).
       let s = ses t in
       if src \<noteq> 0 \<and> \<not> hm_contains (sources s) src
       then (Some (Forbidden ''set_selection names no data source of this client's''), t)
       else if focus (clip t) = Some (ses_id s)
       then (if src \<noteq> 0
             then (case hm_get (sources s) src of
                     None \<Rightarrow> (Some Panic, t)
                   | Some types \<Rightarrow> (None, t\<lparr>clip := clip_set (Some \<lparr>owner = ses_id s, source = src,
                       mimes = types, sel_data = None\<rparr>) (clip t)\<rparr>))
             else (None, t\<lparr>clip := clip_set None (clip t)\<rparr>))
       else if src \<noteq> 0 \<and> \<not> held_by (ses_id s) src (selection (clip t))
       then on_ses (cancel src) t
       else (None, t))"

definition serve_start_drag :: "arg_reader \<Rightarrow> turn \<Rightarrow> turn_eff" where
  "serve_start_drag r t =
     try_val (wire (ar_u32 r)) t (\<lambda>(src, _).
       if hm_contains (sources (ses t)) src then on_ses (cancel src) t else (None, t))"

definition serve_release :: "u32 \<Rightarrow> turn \<Rightarrow> turn_eff" where
  "serve_release obj t =
     on_ses (served_gone obj) (t\<lparr>ses := (ses t)\<lparr>devices := filter (\<lambda>d. d \<noteq> obj) (devices (ses t))\<rparr>\<rparr>)"

text \<open>\<open>fds.pop()\<close> takes the last descriptor; unless it is passed on, it is dropped here.\<close>

definition serve_receive :: "u32 \<Rightarrow> arg_reader \<Rightarrow> turn \<Rightarrow> turn_eff" where
  "serve_receive obj r t =
     try_val (wire (ar_string r)) t (\<lambda>(ms, _).
       let mime = unwrap_str ms in
       if fds t = [] then (None, t)
       else
         let fd = last (fds t); t = t\<lparr>fds := butlast (fds t)\<rparr>;
             refused = (None, t\<lparr>ses := drop_fds [fd] (ses t)\<rparr>) in
         (case selection (clip t) of
            None \<Rightarrow> refused
          | Some sel \<Rightarrow>
              if hm_get (offers (ses t)) obj = Some (generation (clip t)) \<and> mime \<in> set (mimes sel)
              then (None, t\<lparr>clip := (clip t)\<lparr>actions :=
                     actions (clip t) @ [Send (owner sel) (source sel) mime fd]\<rparr>\<rparr>)
              else refused))"

definition serve_offer_destroy :: "u32 \<Rightarrow> turn \<Rightarrow> turn_eff" where
  "serve_offer_destroy obj t =
     on_ses (remove_object obj) (t\<lparr>ses := (ses t)\<lparr>offers := hm_remove obj (offers (ses t))\<rparr>\<rparr>)"

definition serve :: "string \<Rightarrow> string \<Rightarrow> u32 \<Rightarrow> bytes \<Rightarrow> turn \<Rightarrow> turn_eff" where
  "serve iface request obj body t =
     (let r = ar_new body in
      if (iface, request) = (''wl_data_device_manager'', ''create_data_source'') then serve_create_source r t
      else if (iface, request) = (''wl_data_device_manager'', ''get_data_device'') then
        try_val (wire (ar_u32 r)) t (\<lambda>(i, _). (None, t\<lparr>ses := (ses t)\<lparr>devices := devices (ses t) @ [i]\<rparr>\<rparr>))
      else if (iface, request) = (''wl_data_source'', ''offer'') then serve_offer obj r t
      else if (iface, request) = (''wl_data_source'', ''destroy'') then serve_source_destroy obj t
      else if (iface, request) = (''wl_data_device'', ''set_selection'') then serve_set_selection r t
      else if (iface, request) = (''wl_data_device'', ''start_drag'') then serve_start_drag r t
      else if (iface, request) = (''wl_data_device'', ''release'') then serve_release obj t
      else if (iface, request) = (''wl_data_offer'', ''receive'') then serve_receive obj r t
      else if (iface, request) = (''wl_data_offer'', ''destroy'') then serve_offer_destroy obj t
      else (None, t))"

text \<open>What another session's messages asked of this one.\<close>

definition act :: "action \<Rightarrow> clipboard \<Rightarrow> session \<Rightarrow> ses_eff" where
  "act a c s = (case a of
       Offer _ \<Rightarrow> if focus c = Some (ses_id s) then offer_selection c (devices s) s else (None, s)
     | Cancel _ src \<Rightarrow> if hm_contains (sources s) src then cancel src s else (None, s)
     | Send _ src mime fd \<Rightarrow>
         if hm_contains (sources s) src
         then emit (mw_finish (mw_string mime (mw_new src WL_DATA_SOURCE_SEND))) [fd] s
         else (None, drop_fds [fd] s))"

end
