(* ===== verification/Pump.thy ===== *)
theory Pump
  imports Serve
begin

text \<open>
  The handling of one message (\<open>Session::pump\<close> of \<open>session.rs\<close>), a definition per block of its policy,
  composed in the source's order, and the loop over a direction's pending input.
\<close>

section \<open>A decoded message\<close>

record mctx =
  x_dir :: dir
  x_h :: header
  x_iface :: interface
  x_m :: message
  x_version :: u32
  x_msg :: bytes
  x_dec :: decoded

definition x_body :: "mctx \<Rightarrow> bytes" where
  "x_body x = drop HEADER_LEN (x_msg x)"

abbreviation is_req :: "mctx \<Rightarrow> string \<Rightarrow> string \<Rightarrow> bool" where
  "is_req x iface name \<equiv> i_name (x_iface x) = iface \<and> m_name (x_m x) = name"

definition show_u32 :: "u32 \<Rightarrow> string" where
  "show_u32 w = nat_to_string (unat w)"

section \<open>Requests\<close>

definition c2s_bind :: "mctx \<Rightarrow> turn \<Rightarrow> turn_eff" where
  "c2s_bind x t =
     (if \<not> (i_name (x_iface x) = ''wl_registry'' \<and> hd_opcode (x_h x) = WL_REGISTRY_BIND) then (None, t)
      else case (new_object (x_dec x), bind_version (x_dec x)) of
        (Some (i, name), Some version) \<Rightarrow>
          (let s = ses t in
           case (case allowed_version name (hold_awake s) of Some v \<Rightarrow> Some v | None \<Rightarrow> own_version name) of
             None \<Rightarrow> (Some (HiddenInterface name), t)
           | Some most \<Rightarrow>
               try_val (wire (ar_u32 (ar_new (x_body x)))) t (\<lambda>(gname, _).
                 case hm_get (globals s) gname of
                   None \<Rightarrow> (Some (HiddenInterface (name @ '' (global '' @ show_u32 gname @ '' not advertised)'')), t)
                 | Some (advertised, cap) \<Rightarrow>
                     if advertised \<noteq> name \<or> version = 0
                     then (Some (HiddenInterface (name @ '' v'' @ show_u32 version @ '' (global '' @ show_u32 gname
                             @ '' advertises '' @ advertised @ '' v'' @ show_u32 cap @ '')'')), t)
                     else if version > min most cap
                     then (Some (VersionTooHigh name version (min most cap)), t)
                     else (None, t\<lparr>
                       ses := (if name = ''wl_output'' then s\<lparr>outputs := hm_insert i gname (outputs s)\<rparr> else s),
                       forward := \<not> served name\<rparr>)))
      | _ \<Rightarrow> (Some (Wire ArgOverrun), t))"

definition c2s_serve :: "mctx \<Rightarrow> turn \<Rightarrow> turn_eff" where
  "c2s_serve x t =
     (if \<not> served (i_name (x_iface x)) then (None, t)
      else serve (i_name (x_iface x)) (m_name (x_m x)) (hd_object (x_h x)) (x_body x) (t\<lparr>forward := False\<rparr>))"

definition c2s_identity :: "mctx \<Rightarrow> turn \<Rightarrow> turn_eff" where
  "c2s_identity x t =
     (if \<not> (i_name (x_iface x) = ''xdg_toplevel'' \<and> (m_name (x_m x) = ''set_title'' \<or> m_name (x_m x) = ''set_app_id''))
      then (None, t)
      else case d_strings (x_dec x) of
        [] \<Rightarrow> (None, t)
      | (_, str) # _ \<Rightarrow>
          (case (if m_name (x_m x) = ''set_title'' then title_for (zone (ses t)) str
                 else Some (app_id_for (zone (ses t)) str)) of
             None \<Rightarrow> (Some Panic, t)
           | Some new \<Rightarrow>
               (case mw_finish (mw_string new (mw_new (hd_object (x_h x)) (hd_opcode (x_h x)))) of
                  Some rebuilt \<Rightarrow> (None, t\<lparr>rewritten := Some rebuilt,
                    ses := (ses t)\<lparr>rewritten_count := rewritten_count (ses t) + 1\<rparr>\<rparr>)
                | None \<Rightarrow> (Some (Wire (BadSize (hd_size (x_h x)))), t))))"

definition c2s_create_pool :: "kernel \<Rightarrow> mctx \<Rightarrow> turn \<Rightarrow> turn_eff" where
  "c2s_create_pool k x t =
     (if \<not> is_req x ''wl_shm'' ''create_pool'' then (None, t)
      else try_val (wire (ar_u32 (ar_new (x_body x)))) t (\<lambda>(i, r).
        try_val (wire (ar_u32 r)) t (\<lambda>(w, _).
          let size = sint w; s = ses t in
          if size \<le> 0 \<or> nat size > MAX_SHM_POOL_BYTES then (Some (ResourceLimit ''wl_shm pool size''), t)
          else if shm_pool_count s \<ge> MAX_SHM_POOLS_PER_SESSION
                  \<or> shm_pool_bytes s + nat size > MAX_SHM_BYTES_PER_SESSION
          then (Some (ResourceLimit ''wl_shm pool budget in one session''), t)
          else (case fds t of
              [] \<Rightarrow> (Some (Wire ArgOverrun), t)
            | f # _ \<Rightarrow> try_val (pool_fd k f) t (\<lambda>(copy, file).
                let g = next_pool s + 1 in
                (None, t\<lparr>ses := s\<lparr>
                  next_pool := g,
                  shm_pool_count := shm_pool_count s + 1,
                  shm_pool_bytes := shm_pool_bytes s + nat size,
                  pool_ids := hm_insert i g (pool_ids s),
                  pools := hm_insert g \<lparr>p_size = nat size, p_buffers = 0, p_deleted = False, p_held = 0,
                             p_fd = copy, p_file = file, p_range = nat size\<rparr> (pools s),
                  ses_opened := ses_opened s @ [copy]\<rparr>\<rparr>))))))"

definition c2s_resize :: "mctx \<Rightarrow> turn \<Rightarrow> turn_eff" where
  "c2s_resize x t =
     (if \<not> is_req x ''wl_shm_pool'' ''resize'' then (None, t)
      else try_val (wire (ar_u32 (ar_new (x_body x)))) t (\<lambda>(w, _).
        let size = sint w; s = ses t in
        (case hm_get (pool_ids s) (hd_object (x_h x)) of
           None \<Rightarrow> (Some (ResourceLimit ''unknown wl_shm pool''), t)
         | Some g \<Rightarrow> (case hm_get (pools s) g of
               None \<Rightarrow> (Some Panic, t)
             | Some p \<Rightarrow>
                 if size \<le> 0 \<or> nat size > MAX_SHM_POOL_BYTES \<or> nat size < p_size p
                 then (Some (ResourceLimit ''wl_shm pool resize size''), t)
                 else let growth = nat size - p_range p in
                   if shm_pool_bytes s + growth > MAX_SHM_BYTES_PER_SESSION
                   then (Some (ResourceLimit ''wl_shm pool budget in one session''), t)
                   else (None, t\<lparr>ses := s\<lparr>shm_pool_bytes := shm_pool_bytes s + growth,
                     pools := hm_insert g (p\<lparr>p_size := nat size, p_range := p_range p + growth\<rparr>) (pools s)\<rparr>\<rparr>)))))"

definition c2s_create_buffer :: "mctx \<Rightarrow> turn \<Rightarrow> turn_eff" where
  "c2s_create_buffer x t =
     (if \<not> is_req x ''wl_shm_pool'' ''create_buffer'' then (None, t)
      else case new_object (x_dec x) of
        None \<Rightarrow> (Some (Wire ArgOverrun), t)
      | Some (i, _) \<Rightarrow>
          let s = ses t in
          (case hm_get (pool_ids s) (hd_object (x_h x)) of
             None \<Rightarrow> (Some (ResourceLimit ''unknown wl_shm pool''), t)
           | Some g \<Rightarrow>
               let s = s\<lparr>buffer_pools := hm_insert i g (buffer_pools s)\<rparr> in
               (case hm_get (pools s) g of
                  None \<Rightarrow> (Some Panic, t\<lparr>ses := s\<rparr>)
                | Some p \<Rightarrow> (None, t\<lparr>ses := s\<lparr>pools :=
                    hm_insert g (p\<lparr>p_buffers := p_buffers p + 1\<rparr>) (pools s)\<rparr>\<rparr>))))"

definition surface_or_default :: "session \<Rightarrow> u32 \<Rightarrow> surface" where
  "surface_or_default s i = (case hm_get (surfaces s) i of Some sf \<Rightarrow> sf | None \<Rightarrow> surface_default)"

definition c2s_attach :: "mctx \<Rightarrow> turn \<Rightarrow> turn_eff" where
  "c2s_attach x t =
     (if \<not> is_req x ''wl_surface'' ''attach'' then (None, t)
      else try_val (wire (ar_u32 (ar_new (x_body x)))) t (\<lambda>(buffer, _).
        let s = ses t; i = hd_object (x_h x) in
        (None, t\<lparr>ses := s\<lparr>surfaces := hm_insert i
          ((surface_or_default s i)\<lparr>pending := Some (hm_get (buffer_pools s) buffer)\<rparr>) (surfaces s)\<rparr>\<rparr>)))"

definition c2s_commit :: "kernel \<Rightarrow> mctx \<Rightarrow> turn \<Rightarrow> turn_eff" where
  "c2s_commit k x t =
     (if \<not> is_req x ''wl_surface'' ''commit'' then (None, t) else on_ses (commit k (hd_object (x_h x))) t)"

definition c2s_get_subsurface :: "mctx \<Rightarrow> turn \<Rightarrow> turn_eff" where
  "c2s_get_subsurface x t =
     (if \<not> is_req x ''wl_subcompositor'' ''get_subsurface'' then (None, t)
      else if length (subsurfaces (ses t)) \<ge> MAX_SUBSURFACES_PER_SESSION
      then (Some (ResourceLimit ''too many subsurfaces in one session''), t)
      else try_val (wire (ar_u32 (ar_new (x_body x)))) t (\<lambda>(i, r).
        try_val (wire (ar_u32 r)) t (\<lambda>(surf, r).
        try_val (wire (ar_u32 r)) t (\<lambda>(par, _).
          let s = ses t in
          if (case hm_get (surfaces s) surf of Some sf \<Rightarrow> role sf \<noteq> None | None \<Rightarrow> False)
             \<or> surf \<in> set (up s par)
          then (Some (Forbidden ''get_subsurface on a subsurface or above its parent''), t)
          else
            let s = s\<lparr>surfaces := hm_insert surf ((surface_or_default s surf)\<lparr>role := Some i, sf_parent := Some par,
                        sync := True\<rparr>) (surfaces s)\<rparr>;
                pf = surface_or_default s par;
                s = s\<lparr>surfaces := hm_insert par (pf\<lparr>children := children pf @ [surf]\<rparr>) (surfaces s),
                      subsurfaces := hm_insert i surf (subsurfaces s)\<rparr> in
            (None, t\<lparr>ses := s\<rparr>)))))"

text \<open>The surface a \<open>wl_subsurface\<close> object still makes a subsurface, if it does.\<close>

definition live_subsurface :: "session \<Rightarrow> u32 \<Rightarrow> u32 option" where
  "live_subsurface s ob = (case hm_get (subsurfaces s) ob of
       None \<Rightarrow> None
     | Some i \<Rightarrow> (case hm_get (surfaces s) i of
           Some sf \<Rightarrow> if role sf = Some ob then Some i else None
         | None \<Rightarrow> None))"

definition set_desync :: "kernel \<Rightarrow> u32 \<Rightarrow> session \<Rightarrow> ses_eff" where
  "set_desync k i s = (case hm_get (surfaces s) i of
       None \<Rightarrow> (Some Panic, s)
     | Some sf \<Rightarrow>
         let s = s\<lparr>surfaces := hm_insert i (sf\<lparr>sync := False\<rparr>) (surfaces s)\<rparr> in
         if sync sf \<and> cached sf \<and> \<not> synced s i then apply_surface k i s else (None, s))"

definition c2s_subsurface :: "kernel \<Rightarrow> mctx \<Rightarrow> turn \<Rightarrow> turn_eff" where
  "c2s_subsurface k x t =
     (if i_name (x_iface x) \<noteq> ''wl_subsurface'' then (None, t)
      else
        let s = ses t; ob = hd_object (x_h x); live = live_subsurface s ob in
        if m_name (x_m x) = ''set_sync'' \<and> live \<noteq> None
        then (case hm_get (surfaces s) (the live) of
                None \<Rightarrow> (Some Panic, t)
              | Some sf \<Rightarrow> (None, t\<lparr>ses := s\<lparr>surfaces := hm_insert (the live) (sf\<lparr>sync := True\<rparr>) (surfaces s)\<rparr>\<rparr>))
        else if m_name (x_m x) = ''set_desync'' \<and> live \<noteq> None
        then on_ses (set_desync k (the live)) t
        else if m_name (x_m x) = ''destroy''
        then (let t = t\<lparr>ses := s\<lparr>subsurfaces := hm_remove ob (subsurfaces s)\<rparr>\<rparr> in
              case live of Some i \<Rightarrow> on_ses (detach k i) t | None \<Rightarrow> (None, t))
        else (None, t))"

fun position :: "('a \<Rightarrow> bool) \<Rightarrow> 'a list \<Rightarrow> nat option" where
  "position P [] = None"
| "position P (a # as) = (if P a then Some 0 else map_option Suc (position P as))"

definition SET_APP_ID :: "u16 option" where
  "SET_APP_ID = (case find ''xdg_toplevel'' of
       None \<Rightarrow> None
     | Some i \<Rightarrow> map_option of_nat (position (\<lambda>r. m_name r = ''set_app_id'') (i_requests i)))"

definition c2s_stamp :: "mctx \<Rightarrow> turn \<Rightarrow> turn_eff" where
  "c2s_stamp x t =
     (if \<not> is_req x ''xdg_surface'' ''get_toplevel'' then (None, t)
      else case new_object (x_dec x) of
        None \<Rightarrow> (None, t)
      | Some (i, _) \<Rightarrow> (case SET_APP_ID of
            None \<Rightarrow> (Some (Forbidden ''no xdg_toplevel.set_app_id in the tables''), t)
          | Some opcode \<Rightarrow> (case mw_finish (mw_string (app_id_for (zone (ses t)) []) (mw_new i opcode)) of
                None \<Rightarrow> (Some (Forbidden ''the zone's app_id does not fit a message''), t)
              | Some app_id \<Rightarrow> (None, t\<lparr>stamp := Some app_id\<rparr>))))"

definition c2s :: "kernel \<Rightarrow> mctx \<Rightarrow> turn \<Rightarrow> turn_eff" where
  "c2s k x t =
     andthen (c2s_bind x t) (\<lambda>t.
     andthen (c2s_serve x t) (\<lambda>t.
     andthen (c2s_identity x t) (\<lambda>t.
     andthen (c2s_create_pool k x t) (\<lambda>t.
     andthen (c2s_resize x t) (\<lambda>t.
     andthen (c2s_create_buffer x t) (\<lambda>t.
     andthen (c2s_attach x t) (\<lambda>t.
     andthen (c2s_commit k x t) (\<lambda>t.
     andthen (c2s_get_subsurface x t) (\<lambda>t.
     andthen (c2s_subsurface k x t) (c2s_stamp x))))))))))"

section \<open>Events\<close>

definition s2c_global :: "mctx \<Rightarrow> turn \<Rightarrow> turn_eff" where
  "s2c_global x t =
     (if \<not> (i_name (x_iface x) = ''wl_registry'' \<and> hd_opcode (x_h x) = WL_REGISTRY_GLOBAL) then (None, t)
      else try_val (wire (ar_u32 (ar_new (x_body x)))) t (\<lambda>(gname, r).
        try_val (wire (ar_string r)) t (\<lambda>(n, r).
        try_val (wire (ar_u32 r)) t (\<lambda>(version, _).
          let iname = unwrap_str n; s = ses t in
          (case allowed_version iname (hold_awake s) of
             Some allowed \<Rightarrow>
               let cap = min allowed version;
                   iface_static = (case find iname of Some i \<Rightarrow> i_name i | None \<Rightarrow> ''?'') in
               (None, t\<lparr>
                 rewritten := (if cap \<noteq> version
                   then mw_finish (mw_u32 cap (mw_string iname (mw_u32 gname (mw_new (hd_object (x_h x)) (hd_opcode (x_h x))))))
                   else rewritten t),
                 ses := s\<lparr>globals := hm_insert gname (iface_static, cap) (globals s)\<rparr>\<rparr>)
           | None \<Rightarrow> (None, t\<lparr>ses := s\<lparr>hidden_count := hidden_count s + 1\<rparr>, forward := False\<rparr>))))))"

definition s2c_global_remove :: "mctx \<Rightarrow> turn \<Rightarrow> turn_eff" where
  "s2c_global_remove x t =
     (if \<not> (i_name (x_iface x) = ''wl_registry'' \<and> hd_opcode (x_h x) = WL_REGISTRY_GLOBAL_REMOVE) then (None, t)
      else try_val (wire (ar_u32 (ar_new (x_body x)))) t (\<lambda>(gname, _).
        (None, t\<lparr>forward := hm_contains (globals (ses t)) gname\<rparr>)))"

text \<open>The eight arguments of \<open>wl_output.geometry\<close>, its two strings blanked.\<close>

definition blank_geometry :: "mctx \<Rightarrow> wire_error + message_writer" where
  "blank_geometry x =
     bind_res (ar_u32 (ar_new (x_body x))) (\<lambda>(a, r).
     bind_res (ar_u32 r) (\<lambda>(b, r).
     bind_res (ar_u32 r) (\<lambda>(mm_w, r).
     bind_res (ar_u32 r) (\<lambda>(mm_h, r).
     bind_res (ar_u32 r) (\<lambda>(subpixel, r).
     bind_res (ar_string r) (\<lambda>(_, r).
     bind_res (ar_string r) (\<lambda>(_, r).
     bind_res (ar_u32 r) (\<lambda>(transform, _).
       Inr (mw_u32 transform (mw_string [] (mw_string [] (mw_u32 subpixel (mw_u32 mm_h (mw_u32 mm_w
         (mw_u32 b (mw_u32 a (mw_new (hd_object (x_h x)) (hd_opcode (x_h x)))))))))))))))))))"

definition s2c_output :: "mctx \<Rightarrow> turn \<Rightarrow> turn_eff" where
  "s2c_output x t =
     (if \<not> (i_name (x_iface x) = ''wl_output'' \<and> m_name (x_m x) \<in> {''geometry'', ''name'', ''description''})
      then (None, t)
      else try_val (wire (if m_name (x_m x) = ''geometry'' then blank_geometry x
          else Inr (mw_string (''output-'' @ show_u32 (case hm_get (outputs (ses t)) (hd_object (x_h x)) of
                 Some n \<Rightarrow> n | None \<Rightarrow> 0)) (mw_new (hd_object (x_h x)) (hd_opcode (x_h x)))))) t (\<lambda>w.
        case mw_finish w of
          None \<Rightarrow> (Some (Wire (BadSize (hd_size (x_h x)))), t)
        | Some m \<Rightarrow> (None, t\<lparr>rewritten := Some m\<rparr>)))"

definition s2c_keyboard :: "mctx \<Rightarrow> turn \<Rightarrow> turn_eff" where
  "s2c_keyboard x t =
     andthen (if is_req x ''wl_keyboard'' ''enter''
              then (let t = t\<lparr>clip := (clip t)\<lparr>focus := Some (ses_id (ses t))\<rparr>\<rparr> in
                    on_ses (offer_selection (clip t) (devices (ses t))) t)
              else (None, t)) (\<lambda>t.
       if is_req x ''wl_keyboard'' ''leave'' \<and> focus (clip t) = Some (ses_id (ses t))
       then (None, t\<lparr>clip := (clip t)\<lparr>focus := None\<rparr>\<rparr>)
       else (None, t))"

definition count_off :: "u32 \<Rightarrow> session \<Rightarrow> ses_eff" where
  "count_off i s = (case objects_get (ses_objects s) i of
       None \<Rightarrow> (None, s)
     | Some (iface, _) \<Rightarrow>
         if i_name iface = ''xdg_toplevel''
         then (if toplevels s = 0 then (Some Panic, s) else (None, s\<lparr>toplevels := toplevels s - 1\<rparr>))
         else if i_name iface = ''xdg_popup''
         then (if popups s = 0 then (Some Panic, s) else (None, s\<lparr>popups := popups s - 1\<rparr>))
         else (None, s))"

definition delete_pool :: "kernel \<Rightarrow> u32 \<Rightarrow> session \<Rightarrow> ses_eff" where
  "delete_pool k i s = (case hm_get (pool_ids s) i of
       None \<Rightarrow> (None, s)
     | Some g \<Rightarrow>
         let s = s\<lparr>pool_ids := hm_remove i (pool_ids s)\<rparr> in
         (case hm_get (pools s) g of
            None \<Rightarrow> (Some Panic, s)
          | Some p \<Rightarrow> release_pool_if_unused k g
              (s\<lparr>pools := hm_insert g (p\<lparr>p_deleted := True\<rparr>) (pools s)\<rparr>)))"

definition delete_buffer :: "kernel \<Rightarrow> u32 \<Rightarrow> session \<Rightarrow> ses_eff" where
  "delete_buffer k i s = (case hm_get (buffer_pools s) i of
       None \<Rightarrow> (None, s)
     | Some g \<Rightarrow>
         let s = s\<lparr>buffer_pools := hm_remove i (buffer_pools s)\<rparr> in
         (case hm_get (pools s) g of
            None \<Rightarrow> (Some Panic, s)
          | Some p \<Rightarrow>
              if p_buffers p = 0 then (Some Panic, s)
              else release_pool_if_unused k g
                (s\<lparr>pools := hm_insert g (p\<lparr>p_buffers := p_buffers p - 1\<rparr>) (pools s)\<rparr>)))"

fun detach_all :: "kernel \<Rightarrow> u32 list \<Rightarrow> session \<Rightarrow> ses_eff" where
  "detach_all k [] s = (None, s)"
| "detach_all k (c # cs) s = andthen (detach k c s) (detach_all k cs)"

definition delete_surface :: "kernel \<Rightarrow> u32 \<Rightarrow> session \<Rightarrow> ses_eff" where
  "delete_surface k i s = (case hm_get (surfaces s) i of
       None \<Rightarrow> (None, s)
     | Some sf \<Rightarrow>
         andthen (detach_all k (children sf) (s\<lparr>surfaces := hm_remove i (surfaces s)\<rparr>)) (\<lambda>s.
           let s = (case sf_parent sf of
                      None \<Rightarrow> s
                    | Some p \<Rightarrow> (case hm_get (surfaces s) p of
                          None \<Rightarrow> s
                        | Some pf \<Rightarrow> s\<lparr>surfaces :=
                            hm_insert p (pf\<lparr>children := filter (\<lambda>c. c \<noteq> i) (children pf)\<rparr>) (surfaces s)\<rparr>)) in
           unhold_all k (somes (held sf)) s))"

text \<open>\<open>delete_id\<close> of an object the client made.\<close>

definition delete_object :: "kernel \<Rightarrow> u32 \<Rightarrow> session \<Rightarrow> ses_eff" where
  "delete_object k i s =
     andthen (count_off i s) (\<lambda>s.
     andthen (delete_pool k i (s\<lparr>outputs := hm_remove i (outputs s)\<rparr>)) (\<lambda>s.
     andthen (delete_buffer k i s) (\<lambda>s.
     andthen (delete_surface k i s) (remove_object i))))"

definition s2c_delete_id :: "kernel \<Rightarrow> mctx \<Rightarrow> turn \<Rightarrow> turn_eff" where
  "s2c_delete_id k x t =
     (if \<not> (hd_object (x_h x) = WL_DISPLAY \<and> hd_opcode (x_h x) = WL_DISPLAY_DELETE_ID) then (None, t)
      else try_val (wire (ar_u32 (ar_new (x_body x)))) t (\<lambda>(i, _).
        case end_placeholder i (ses t) of
          (Inl e, s) \<Rightarrow> (Some e, t\<lparr>ses := s\<rparr>)
        | (Inr True, s) \<Rightarrow> (None, t\<lparr>ses := s, forward := False\<rparr>)
        | (Inr False, s) \<Rightarrow> on_ses (delete_object k i) (t\<lparr>ses := s\<rparr>)))"

definition s2c :: "kernel \<Rightarrow> mctx \<Rightarrow> turn \<Rightarrow> turn_eff" where
  "s2c k x t =
     andthen (s2c_global x t) (\<lambda>t.
     andthen (s2c_global_remove x t) (\<lambda>t.
     andthen (s2c_output x t) (\<lambda>t.
     andthen (s2c_keyboard x t) (s2c_delete_id k x))))"

section \<open>After the policy\<close>

text \<open>The proxy's own globals, told to a new registry; \<open>n\<close> counts them.\<close>

fun own_globals :: "u32 \<Rightarrow> nat \<Rightarrow> (string \<times> u32) list \<Rightarrow> session \<Rightarrow> ses_eff" where
  "own_globals i n [] s = (None, s)"
| "own_globals i n ((iface, v) # gs) s =
     (let gname = OWN_GLOBAL_BASE + of_nat n in
      andthen (emit (mw_finish (mw_u32 v (mw_string iface (mw_u32 gname (mw_new i WL_REGISTRY_GLOBAL))))) []
                 (s\<lparr>globals := hm_insert gname (iface, v) (globals s)\<rparr>))
        (own_globals i (Suc n) gs))"

definition new_obj :: "mctx \<Rightarrow> turn \<Rightarrow> turn_eff" where
  "new_obj x t = (case new_object (x_dec x) of
       None \<Rightarrow> (None, t)
     | Some (i, name) \<Rightarrow>
         andthen (on_ses (register i name
             (case bind_version (x_dec x) of Some v \<Rightarrow> v | None \<Rightarrow> x_version x) (x_dir x)) t) (\<lambda>t.
         andthen (if name = ''wl_registry'' then on_ses (own_globals i 0 OWN_GLOBALS) t else (None, t)) (\<lambda>t.
           if x_dir x = ClientToServer \<and> \<not> forward t
           then andthen (on_ses (placeholder i) t) (\<lambda>t.
                  if name = ''wl_data_device'' \<and> focus (clip t) = Some (ses_id (ses t))
                  then on_ses (offer_selection (clip t) [i]) t
                  else (None, t))
           else (None, t))))"

definition dst :: "dir \<Rightarrow> session \<Rightarrow> endpoint" where
  "dst d s = (case d of ClientToServer \<Rightarrow> server s | ServerToClient \<Rightarrow> client s)"

definition set_dst :: "dir \<Rightarrow> endpoint \<Rightarrow> session \<Rightarrow> session" where
  "set_dst d e s = (case d of ClientToServer \<Rightarrow> s\<lparr>server := e\<rparr> | ServerToClient \<Rightarrow> s\<lparr>client := e\<rparr>)"

definition src :: "dir \<Rightarrow> session \<Rightarrow> endpoint" where
  "src d s = (case d of ClientToServer \<Rightarrow> client s | ServerToClient \<Rightarrow> server s)"

definition set_src :: "dir \<Rightarrow> endpoint \<Rightarrow> session \<Rightarrow> session" where
  "set_src d e s = (case d of ClientToServer \<Rightarrow> s\<lparr>client := e\<rparr> | ServerToClient \<Rightarrow> s\<lparr>server := e\<rparr>)"

definition bump_forwarded :: "dir \<Rightarrow> session \<Rightarrow> session" where
  "bump_forwarded d s = (case d of
       ClientToServer \<Rightarrow> s\<lparr>forwarded_c2s := forwarded_c2s s + 1\<rparr>
     | ServerToClient \<Rightarrow> s\<lparr>forwarded_s2c := forwarded_s2c s + 1\<rparr>)"

definition out_msg :: "mctx \<Rightarrow> turn \<Rightarrow> bytes" where
  "out_msg x t = (case rewritten t of Some m \<Rightarrow> m | None \<Rightarrow> x_msg x)"

definition send_on :: "mctx \<Rightarrow> turn \<Rightarrow> turn_eff" where
  "send_on x t =
     (if \<not> forward t then (None, t)
      else
        let d = x_dir x; e = dst d (ses t); msg = out_msg x t;
            extra = (case stamp t of Some b \<Rightarrow> length b | None \<Rightarrow> 0) in
        if pending_out e + length msg + extra > MAX_PENDING_BYTES then (Some (TooMuchPending d), t)
        else if pending_fds e + length (fds t) > MAX_PENDING_FDS then (Some TooManyFds, t)
        else
          let e = queue msg (fds t) e;
              e = (case stamp t of Some b \<Rightarrow> queue b [] e | None \<Rightarrow> e);
              s = set_dst d e (ses t);
              s = (if stamp t \<noteq> None then s\<lparr>rewritten_count := rewritten_count s + 1\<rparr> else s) in
          (None, t\<lparr>ses := bump_forwarded d s, fds := []\<rparr>))"

definition handle :: "kernel \<Rightarrow> mctx \<Rightarrow> turn \<Rightarrow> turn_eff" where
  "handle k x t =
     andthen (case x_dir x of ClientToServer \<Rightarrow> c2s k x t | ServerToClient \<Rightarrow> s2c k x t) (\<lambda>t.
     andthen (new_obj x t) (send_on x))"

section \<open>The loop\<close>

datatype 'a outcome =
    Wait 'a                 \<comment> \<open>more input is needed\<close>
  | Next 'a                 \<comment> \<open>a message was handled\<close>
  | Refuse session_error 'a

text \<open>One pass of the loop; what the message still owns when it ends is dropped.\<close>

definition end_turn :: "turn_eff \<Rightarrow> (session \<times> clipboard) outcome" where
  "end_turn r = (case r of
       (None, t) \<Rightarrow> Next (drop_fds (fds t) (ses t), clip t)
     | (Some e, t) \<Rightarrow> Refuse e (drop_fds (fds t) (ses t), clip t))"

definition take_message :: "kernel \<Rightarrow> dir \<Rightarrow> header \<Rightarrow> interface \<Rightarrow> message \<Rightarrow> u32 \<Rightarrow>
    session \<Rightarrow> clipboard \<Rightarrow> (session \<times> clipboard) outcome" where
  "take_message k d h iface m version s c =
     (case ep_take (unat (hd_size h)) (src d s) of
        Inl e \<Rightarrow> Refuse e (s, c)
      | Inr (msg, e) \<Rightarrow>
          let s = set_src d (e\<lparr>in_fds := drop (fd_count m) (in_fds e)\<rparr>) s;
              t = \<lparr>ses = s, clip = c, fds = take (fd_count m) (in_fds e), forward = True,
                   rewritten = None, stamp = None\<rparr> in
          (case decode m (drop HEADER_LEN msg) of
             Inl e \<Rightarrow> end_turn (Some (Wire e), t)
           | Inr dec \<Rightarrow> end_turn (handle k \<lparr>x_dir = d, x_h = h, x_iface = iface, x_m = m,
               x_version = version, x_msg = msg, x_dec = dec\<rparr> t)))"

definition pump_one :: "kernel \<Rightarrow> dir \<Rightarrow> session \<Rightarrow> clipboard \<Rightarrow> (session \<times> clipboard) outcome" where
  "pump_one k d s c =
     (let inp = pending_in (src d s) in
      if length inp < HEADER_LEN then Wait (s, c)
      else case header_parse inp of
        Inl e \<Rightarrow> Refuse (Wire e) (s, c)
      | Inr h \<Rightarrow>
          if length inp < unat (hd_size h) then Wait (s, c)
          else if d = ServerToClient \<and> hm_contains (placeholders s) (hd_object h)
          then (case ep_take (unat (hd_size h)) (src d s) of
                  Inl e \<Rightarrow> Refuse e (s, c)
                | Inr (_, e) \<Rightarrow> Next (set_src d e s, c))
          else (case lookup s (hd_object h) d (hd_opcode h) of
                  Inl e \<Rightarrow> Refuse e (s, c)
                | Inr (iface, m, version) \<Rightarrow>
                    if length (in_fds (src d s)) < fd_count m then Wait (s, c)
                    else take_message k d h iface m version s c))"

text \<open>
  The loop with a bound on its passes: \<^const>\<open>None\<close> is running out of it. A pass takes at least a
  header off the input, so the length of the input bounds them (\<open>pump_returns\<close>).
\<close>

fun pump_loop :: "nat \<Rightarrow> kernel \<Rightarrow> dir \<Rightarrow> session \<Rightarrow> clipboard \<Rightarrow> (session_error option \<times> session \<times> clipboard) option" where
  "pump_loop 0 k d s c = None"
| "pump_loop (Suc n) k d s c = (case pump_one k d s c of
     Wait (s, c) \<Rightarrow> Some (None, s, c)
   | Refuse e (s, c) \<Rightarrow> Some (Some e, s, c)
   | Next (s, c) \<Rightarrow> pump_loop n k d s c)"

definition pump :: "kernel \<Rightarrow> dir \<Rightarrow> session \<Rightarrow> clipboard \<Rightarrow> (session_error option \<times> session \<times> clipboard) option" where
  "pump k d s c = pump_loop (length (pending_in (src d s)) + 1) k d s c"

definition refuse :: "(bytes \<Rightarrow> fd list \<Rightarrow> send_answer) list \<Rightarrow> string \<Rightarrow> session \<Rightarrow> session" where
  "refuse sends why s =
     (let text = ''kryptik-wlproxy: '' @ why;
          s = (case mw_finish (mw_string text (mw_u32 3 (mw_u32 WL_DISPLAY (mw_new WL_DISPLAY WL_DISPLAY_ERROR)))) of
                 Some m \<Rightarrow> s\<lparr>client := snd (ep_flush sends (queue m [] (client s)))\<rparr>
               | None \<Rightarrow> s) in
      s\<lparr>client := close_all (client s), server := close_all (server s)\<rparr>)"

end
