(* ===== verification/Session_Inv.thy ===== *)
theory Session_Inv
  imports Pump
begin

text \<open>
  The invariant of a proxied connection and its preservation by the session's own methods: object
  ids and their counts, the types of the ids that name pools and buffers, the globals shown, the
  bounds on everything a client can make the proxy hold, and the account of every descriptor.
\<close>

section \<open>The invariant\<close>

definition named :: "string \<Rightarrow> obj \<Rightarrow> bool" where
  "named n ob \<longleftrightarrow> i_name (fst ob) = n"

definition obj_get :: "session \<Rightarrow> u32 \<Rightarrow> obj option" where
  "obj_get s = objects_get (ses_objects s)"

definition has_name :: "session \<Rightarrow> u32 \<Rightarrow> string \<Rightarrow> bool" where
  "has_name s i n \<longleftrightarrow> (case obj_get s i of Some ob \<Rightarrow> named n ob | None \<Rightarrow> False)"

definition obj_inv :: "session \<Rightarrow> bool" where
  "obj_inv s \<longleftrightarrow>
     ob_live (ses_objects s) = table_count (obj_get s) (\<lambda>_. True)
     \<and> ob_live (ses_objects s) \<le> MAX_OBJECTS \<and> slots_ok (ses_objects s)
     \<and> toplevels s = table_count (obj_get s) (named ''xdg_toplevel'') \<and> toplevels s \<le> MAX_TOPLEVELS_PER_SESSION
     \<and> popups s = table_count (obj_get s) (named ''xdg_popup'') \<and> popups s \<le> MAX_POPUPS_PER_SESSION
     \<and> (\<forall>i ob. obj_get s i = Some ob \<longrightarrow> fst ob \<in> set INTERFACES)"

text \<open>A global a zone was told of: allowlisted and capped, or the proxy's own.\<close>

definition global_ok :: "bool \<Rightarrow> string \<times> u32 \<Rightarrow> bool" where
  "global_ok hold gv \<longleftrightarrow>
     (case allowed_version (fst gv) hold of Some a \<Rightarrow> snd gv \<le> a | None \<Rightarrow> own_version (fst gv) = Some (snd gv))"

definition types_ok :: "string list \<Rightarrow> bool" where
  "types_ok ts \<longleftrightarrow> length ts \<le> MAX_MIME_TYPES \<and> list_all (\<lambda>t. length t \<le> MAX_MIME_BYTES) ts"

definition misc_inv :: "session \<Rightarrow> bool" where
  "misc_inv s \<longleftrightarrow>
     (\<forall>i n. hm_get (placeholders s) i = Some n \<longrightarrow> 0 < n)
     \<and> length (sources s) \<le> MAX_DATA_SOURCES_PER_SESSION
     \<and> (\<forall>i ts. hm_get (sources s) i = Some ts \<longrightarrow> types_ok ts)
     \<and> length (subsurfaces s) \<le> MAX_SUBSURFACES_PER_SESSION
     \<and> (\<forall>n gv. hm_get (globals s) n = Some gv \<longrightarrow> global_ok (hold_awake s) gv)"

definition ep_inv :: "endpoint \<Rightarrow> bool" where
  "ep_inv e \<longleftrightarrow> ep_ok e \<and> pending_out e \<le> MAX_PENDING_BYTES \<and> pending_fds e \<le> MAX_PENDING_FDS"

definition base_inv :: "session \<Rightarrow> bool" where
  "base_inv s \<longleftrightarrow> obj_inv s \<and> misc_inv s \<and> ep_inv (client s) \<and> ep_inv (server s)"

text \<open>The ids that name pools and buffers; a pair of an id and an interface is one about to be registered.\<close>

definition typed_new :: "(u32 \<times> string) option \<Rightarrow> session \<Rightarrow> bool" where
  "typed_new nw s \<longleftrightarrow>
     (\<forall>i. hm_contains (pool_ids s) i \<longrightarrow> has_name s i ''wl_shm_pool'' \<or> nw = Some (i, ''wl_shm_pool''))
     \<and> (\<forall>i. hm_contains (buffer_pools s) i \<longrightarrow> has_name s i ''wl_buffer'' \<or> nw = Some (i, ''wl_buffer''))"

definition ses_inv :: "session \<Rightarrow> bool" where
  "ses_inv s \<longleftrightarrow> base_inv s \<and> pool_inv [] s \<and> typed_new None s"

lemmas inv_defs = base_inv_def obj_inv_def misc_inv_def obj_get_def

text \<open>What each part of the invariant does not depend on.\<close>

lemma pool_inv_frame [simp]:
  "pool_inv fl (s\<lparr>zone := x1\<rparr>) = pool_inv fl s"
  "pool_inv fl (s\<lparr>hold_awake := x2\<rparr>) = pool_inv fl s"
  "pool_inv fl (s\<lparr>ses_id := x3\<rparr>) = pool_inv fl s"
  "pool_inv fl (s\<lparr>client := x4\<rparr>) = pool_inv fl s"
  "pool_inv fl (s\<lparr>server := x5\<rparr>) = pool_inv fl s"
  "pool_inv fl (s\<lparr>ses_objects := x6\<rparr>) = pool_inv fl s"
  "pool_inv fl (s\<lparr>subsurfaces := x7\<rparr>) = pool_inv fl s"
  "pool_inv fl (s\<lparr>unpunched := x8\<rparr>) = pool_inv fl s"
  "pool_inv fl (s\<lparr>toplevels := x9\<rparr>) = pool_inv fl s"
  "pool_inv fl (s\<lparr>popups := x10\<rparr>) = pool_inv fl s"
  "pool_inv fl (s\<lparr>globals := x11\<rparr>) = pool_inv fl s"
  "pool_inv fl (s\<lparr>outputs := x12\<rparr>) = pool_inv fl s"
  "pool_inv fl (s\<lparr>sources := x13\<rparr>) = pool_inv fl s"
  "pool_inv fl (s\<lparr>devices := x14\<rparr>) = pool_inv fl s"
  "pool_inv fl (s\<lparr>offers := x15\<rparr>) = pool_inv fl s"
  "pool_inv fl (s\<lparr>placeholders := x16\<rparr>) = pool_inv fl s"
  "pool_inv fl (s\<lparr>hidden_count := x17\<rparr>) = pool_inv fl s"
  "pool_inv fl (s\<lparr>forwarded_c2s := x18\<rparr>) = pool_inv fl s"
  "pool_inv fl (s\<lparr>forwarded_s2c := x19\<rparr>) = pool_inv fl s"
  "pool_inv fl (s\<lparr>rewritten_count := x20\<rparr>) = pool_inv fl s"
  "pool_inv fl (s\<lparr>ses_opened := x21\<rparr>) = pool_inv fl s"
  "pool_inv fl (s\<lparr>ses_closed := x22\<rparr>) = pool_inv fl s"
  "pool_inv fl (s\<lparr>ses_punched := x23\<rparr>) = pool_inv fl s"
  by (simp_all add: pool_inv_def maps_ok_def budget_ok_def ids_ok_def pool_ok_def)

lemma obj_get_frame [simp]:
  "obj_get (s\<lparr>zone := x24\<rparr>) = obj_get s"
  "obj_get (s\<lparr>hold_awake := x25\<rparr>) = obj_get s"
  "obj_get (s\<lparr>ses_id := x26\<rparr>) = obj_get s"
  "obj_get (s\<lparr>client := x27\<rparr>) = obj_get s"
  "obj_get (s\<lparr>server := x28\<rparr>) = obj_get s"
  "obj_get (s\<lparr>pools := x29\<rparr>) = obj_get s"
  "obj_get (s\<lparr>pool_ids := x30\<rparr>) = obj_get s"
  "obj_get (s\<lparr>buffer_pools := x31\<rparr>) = obj_get s"
  "obj_get (s\<lparr>surfaces := x32\<rparr>) = obj_get s"
  "obj_get (s\<lparr>subsurfaces := x33\<rparr>) = obj_get s"
  "obj_get (s\<lparr>next_pool := x34\<rparr>) = obj_get s"
  "obj_get (s\<lparr>shm_pool_bytes := x35\<rparr>) = obj_get s"
  "obj_get (s\<lparr>shm_pool_count := x36\<rparr>) = obj_get s"
  "obj_get (s\<lparr>unpunched := x37\<rparr>) = obj_get s"
  "obj_get (s\<lparr>toplevels := x38\<rparr>) = obj_get s"
  "obj_get (s\<lparr>popups := x39\<rparr>) = obj_get s"
  "obj_get (s\<lparr>globals := x40\<rparr>) = obj_get s"
  "obj_get (s\<lparr>outputs := x41\<rparr>) = obj_get s"
  "obj_get (s\<lparr>sources := x42\<rparr>) = obj_get s"
  "obj_get (s\<lparr>devices := x43\<rparr>) = obj_get s"
  "obj_get (s\<lparr>offers := x44\<rparr>) = obj_get s"
  "obj_get (s\<lparr>placeholders := x45\<rparr>) = obj_get s"
  "obj_get (s\<lparr>hidden_count := x46\<rparr>) = obj_get s"
  "obj_get (s\<lparr>forwarded_c2s := x47\<rparr>) = obj_get s"
  "obj_get (s\<lparr>forwarded_s2c := x48\<rparr>) = obj_get s"
  "obj_get (s\<lparr>rewritten_count := x49\<rparr>) = obj_get s"
  "obj_get (s\<lparr>ses_opened := x50\<rparr>) = obj_get s"
  "obj_get (s\<lparr>ses_closed := x51\<rparr>) = obj_get s"
  "obj_get (s\<lparr>ses_punched := x52\<rparr>) = obj_get s"
  by (simp_all add: obj_get_def)

lemma obj_inv_frame [simp]:
  "obj_inv (s\<lparr>zone := x53\<rparr>) = obj_inv s"
  "obj_inv (s\<lparr>hold_awake := x54\<rparr>) = obj_inv s"
  "obj_inv (s\<lparr>ses_id := x55\<rparr>) = obj_inv s"
  "obj_inv (s\<lparr>client := x56\<rparr>) = obj_inv s"
  "obj_inv (s\<lparr>server := x57\<rparr>) = obj_inv s"
  "obj_inv (s\<lparr>pools := x58\<rparr>) = obj_inv s"
  "obj_inv (s\<lparr>pool_ids := x59\<rparr>) = obj_inv s"
  "obj_inv (s\<lparr>buffer_pools := x60\<rparr>) = obj_inv s"
  "obj_inv (s\<lparr>surfaces := x61\<rparr>) = obj_inv s"
  "obj_inv (s\<lparr>subsurfaces := x62\<rparr>) = obj_inv s"
  "obj_inv (s\<lparr>next_pool := x63\<rparr>) = obj_inv s"
  "obj_inv (s\<lparr>shm_pool_bytes := x64\<rparr>) = obj_inv s"
  "obj_inv (s\<lparr>shm_pool_count := x65\<rparr>) = obj_inv s"
  "obj_inv (s\<lparr>unpunched := x66\<rparr>) = obj_inv s"
  "obj_inv (s\<lparr>globals := x67\<rparr>) = obj_inv s"
  "obj_inv (s\<lparr>outputs := x68\<rparr>) = obj_inv s"
  "obj_inv (s\<lparr>sources := x69\<rparr>) = obj_inv s"
  "obj_inv (s\<lparr>devices := x70\<rparr>) = obj_inv s"
  "obj_inv (s\<lparr>offers := x71\<rparr>) = obj_inv s"
  "obj_inv (s\<lparr>placeholders := x72\<rparr>) = obj_inv s"
  "obj_inv (s\<lparr>hidden_count := x73\<rparr>) = obj_inv s"
  "obj_inv (s\<lparr>forwarded_c2s := x74\<rparr>) = obj_inv s"
  "obj_inv (s\<lparr>forwarded_s2c := x75\<rparr>) = obj_inv s"
  "obj_inv (s\<lparr>rewritten_count := x76\<rparr>) = obj_inv s"
  "obj_inv (s\<lparr>ses_opened := x77\<rparr>) = obj_inv s"
  "obj_inv (s\<lparr>ses_closed := x78\<rparr>) = obj_inv s"
  "obj_inv (s\<lparr>ses_punched := x79\<rparr>) = obj_inv s"
  by (simp_all add: obj_inv_def)

lemma has_name_frame [simp]:
  "has_name (s\<lparr>zone := x80\<rparr>) = has_name s"
  "has_name (s\<lparr>hold_awake := x81\<rparr>) = has_name s"
  "has_name (s\<lparr>ses_id := x82\<rparr>) = has_name s"
  "has_name (s\<lparr>client := x83\<rparr>) = has_name s"
  "has_name (s\<lparr>server := x84\<rparr>) = has_name s"
  "has_name (s\<lparr>pools := x85\<rparr>) = has_name s"
  "has_name (s\<lparr>pool_ids := x86\<rparr>) = has_name s"
  "has_name (s\<lparr>buffer_pools := x87\<rparr>) = has_name s"
  "has_name (s\<lparr>surfaces := x88\<rparr>) = has_name s"
  "has_name (s\<lparr>subsurfaces := x89\<rparr>) = has_name s"
  "has_name (s\<lparr>next_pool := x90\<rparr>) = has_name s"
  "has_name (s\<lparr>shm_pool_bytes := x91\<rparr>) = has_name s"
  "has_name (s\<lparr>shm_pool_count := x92\<rparr>) = has_name s"
  "has_name (s\<lparr>unpunched := x93\<rparr>) = has_name s"
  "has_name (s\<lparr>toplevels := x94\<rparr>) = has_name s"
  "has_name (s\<lparr>popups := x95\<rparr>) = has_name s"
  "has_name (s\<lparr>globals := x96\<rparr>) = has_name s"
  "has_name (s\<lparr>outputs := x97\<rparr>) = has_name s"
  "has_name (s\<lparr>sources := x98\<rparr>) = has_name s"
  "has_name (s\<lparr>devices := x99\<rparr>) = has_name s"
  "has_name (s\<lparr>offers := x100\<rparr>) = has_name s"
  "has_name (s\<lparr>placeholders := x101\<rparr>) = has_name s"
  "has_name (s\<lparr>hidden_count := x102\<rparr>) = has_name s"
  "has_name (s\<lparr>forwarded_c2s := x103\<rparr>) = has_name s"
  "has_name (s\<lparr>forwarded_s2c := x104\<rparr>) = has_name s"
  "has_name (s\<lparr>rewritten_count := x105\<rparr>) = has_name s"
  "has_name (s\<lparr>ses_opened := x106\<rparr>) = has_name s"
  "has_name (s\<lparr>ses_closed := x107\<rparr>) = has_name s"
  "has_name (s\<lparr>ses_punched := x108\<rparr>) = has_name s"
  by (simp_all add: has_name_def fun_eq_iff)

lemma misc_inv_frame [simp]:
  "misc_inv (s\<lparr>zone := x109\<rparr>) = misc_inv s"
  "misc_inv (s\<lparr>ses_id := x110\<rparr>) = misc_inv s"
  "misc_inv (s\<lparr>client := x111\<rparr>) = misc_inv s"
  "misc_inv (s\<lparr>server := x112\<rparr>) = misc_inv s"
  "misc_inv (s\<lparr>ses_objects := x113\<rparr>) = misc_inv s"
  "misc_inv (s\<lparr>pools := x114\<rparr>) = misc_inv s"
  "misc_inv (s\<lparr>pool_ids := x115\<rparr>) = misc_inv s"
  "misc_inv (s\<lparr>buffer_pools := x116\<rparr>) = misc_inv s"
  "misc_inv (s\<lparr>surfaces := x117\<rparr>) = misc_inv s"
  "misc_inv (s\<lparr>next_pool := x118\<rparr>) = misc_inv s"
  "misc_inv (s\<lparr>shm_pool_bytes := x119\<rparr>) = misc_inv s"
  "misc_inv (s\<lparr>shm_pool_count := x120\<rparr>) = misc_inv s"
  "misc_inv (s\<lparr>unpunched := x121\<rparr>) = misc_inv s"
  "misc_inv (s\<lparr>toplevels := x122\<rparr>) = misc_inv s"
  "misc_inv (s\<lparr>popups := x123\<rparr>) = misc_inv s"
  "misc_inv (s\<lparr>outputs := x124\<rparr>) = misc_inv s"
  "misc_inv (s\<lparr>devices := x125\<rparr>) = misc_inv s"
  "misc_inv (s\<lparr>offers := x126\<rparr>) = misc_inv s"
  "misc_inv (s\<lparr>hidden_count := x127\<rparr>) = misc_inv s"
  "misc_inv (s\<lparr>forwarded_c2s := x128\<rparr>) = misc_inv s"
  "misc_inv (s\<lparr>forwarded_s2c := x129\<rparr>) = misc_inv s"
  "misc_inv (s\<lparr>rewritten_count := x130\<rparr>) = misc_inv s"
  "misc_inv (s\<lparr>ses_opened := x131\<rparr>) = misc_inv s"
  "misc_inv (s\<lparr>ses_closed := x132\<rparr>) = misc_inv s"
  "misc_inv (s\<lparr>ses_punched := x133\<rparr>) = misc_inv s"
  by (simp_all add: misc_inv_def)

lemma typed_new_frame [simp]:
  "typed_new nw (s\<lparr>zone := x134\<rparr>) = typed_new nw s"
  "typed_new nw (s\<lparr>hold_awake := x135\<rparr>) = typed_new nw s"
  "typed_new nw (s\<lparr>ses_id := x136\<rparr>) = typed_new nw s"
  "typed_new nw (s\<lparr>client := x137\<rparr>) = typed_new nw s"
  "typed_new nw (s\<lparr>server := x138\<rparr>) = typed_new nw s"
  "typed_new nw (s\<lparr>pools := x139\<rparr>) = typed_new nw s"
  "typed_new nw (s\<lparr>surfaces := x140\<rparr>) = typed_new nw s"
  "typed_new nw (s\<lparr>subsurfaces := x141\<rparr>) = typed_new nw s"
  "typed_new nw (s\<lparr>next_pool := x142\<rparr>) = typed_new nw s"
  "typed_new nw (s\<lparr>shm_pool_bytes := x143\<rparr>) = typed_new nw s"
  "typed_new nw (s\<lparr>shm_pool_count := x144\<rparr>) = typed_new nw s"
  "typed_new nw (s\<lparr>unpunched := x145\<rparr>) = typed_new nw s"
  "typed_new nw (s\<lparr>toplevels := x146\<rparr>) = typed_new nw s"
  "typed_new nw (s\<lparr>popups := x147\<rparr>) = typed_new nw s"
  "typed_new nw (s\<lparr>globals := x148\<rparr>) = typed_new nw s"
  "typed_new nw (s\<lparr>outputs := x149\<rparr>) = typed_new nw s"
  "typed_new nw (s\<lparr>sources := x150\<rparr>) = typed_new nw s"
  "typed_new nw (s\<lparr>devices := x151\<rparr>) = typed_new nw s"
  "typed_new nw (s\<lparr>offers := x152\<rparr>) = typed_new nw s"
  "typed_new nw (s\<lparr>placeholders := x153\<rparr>) = typed_new nw s"
  "typed_new nw (s\<lparr>hidden_count := x154\<rparr>) = typed_new nw s"
  "typed_new nw (s\<lparr>forwarded_c2s := x155\<rparr>) = typed_new nw s"
  "typed_new nw (s\<lparr>forwarded_s2c := x156\<rparr>) = typed_new nw s"
  "typed_new nw (s\<lparr>rewritten_count := x157\<rparr>) = typed_new nw s"
  "typed_new nw (s\<lparr>ses_opened := x158\<rparr>) = typed_new nw s"
  "typed_new nw (s\<lparr>ses_closed := x159\<rparr>) = typed_new nw s"
  "typed_new nw (s\<lparr>ses_punched := x160\<rparr>) = typed_new nw s"
  by (simp_all add: typed_new_def)

lemma pool_fds_frame [simp]:
  "pool_fds (s\<lparr>zone := x161\<rparr>) = pool_fds s"
  "pool_fds (s\<lparr>hold_awake := x162\<rparr>) = pool_fds s"
  "pool_fds (s\<lparr>ses_id := x163\<rparr>) = pool_fds s"
  "pool_fds (s\<lparr>client := x164\<rparr>) = pool_fds s"
  "pool_fds (s\<lparr>server := x165\<rparr>) = pool_fds s"
  "pool_fds (s\<lparr>ses_objects := x166\<rparr>) = pool_fds s"
  "pool_fds (s\<lparr>pool_ids := x167\<rparr>) = pool_fds s"
  "pool_fds (s\<lparr>buffer_pools := x168\<rparr>) = pool_fds s"
  "pool_fds (s\<lparr>surfaces := x169\<rparr>) = pool_fds s"
  "pool_fds (s\<lparr>subsurfaces := x170\<rparr>) = pool_fds s"
  "pool_fds (s\<lparr>next_pool := x171\<rparr>) = pool_fds s"
  "pool_fds (s\<lparr>shm_pool_bytes := x172\<rparr>) = pool_fds s"
  "pool_fds (s\<lparr>shm_pool_count := x173\<rparr>) = pool_fds s"
  "pool_fds (s\<lparr>unpunched := x174\<rparr>) = pool_fds s"
  "pool_fds (s\<lparr>toplevels := x175\<rparr>) = pool_fds s"
  "pool_fds (s\<lparr>popups := x176\<rparr>) = pool_fds s"
  "pool_fds (s\<lparr>globals := x177\<rparr>) = pool_fds s"
  "pool_fds (s\<lparr>outputs := x178\<rparr>) = pool_fds s"
  "pool_fds (s\<lparr>sources := x179\<rparr>) = pool_fds s"
  "pool_fds (s\<lparr>devices := x180\<rparr>) = pool_fds s"
  "pool_fds (s\<lparr>offers := x181\<rparr>) = pool_fds s"
  "pool_fds (s\<lparr>placeholders := x182\<rparr>) = pool_fds s"
  "pool_fds (s\<lparr>hidden_count := x183\<rparr>) = pool_fds s"
  "pool_fds (s\<lparr>forwarded_c2s := x184\<rparr>) = pool_fds s"
  "pool_fds (s\<lparr>forwarded_s2c := x185\<rparr>) = pool_fds s"
  "pool_fds (s\<lparr>rewritten_count := x186\<rparr>) = pool_fds s"
  "pool_fds (s\<lparr>ses_opened := x187\<rparr>) = pool_fds s"
  "pool_fds (s\<lparr>ses_punched := x188\<rparr>) = pool_fds s"
  by (simp_all add: pool_fds_def)

section \<open>What a step keeps\<close>

text \<open>Every descriptor a session was given or opened: queued, kept by a pool, or closed.\<close>

definition ses_fds :: "session \<Rightarrow> fd multiset" where
  "ses_fds s = ep_all_fds (client s) + ep_all_fds (server s) + pool_fds s"

lemma ses_fds_frame [simp]:
  "ses_fds (s\<lparr>zone := x189\<rparr>) = ses_fds s"
  "ses_fds (s\<lparr>hold_awake := x190\<rparr>) = ses_fds s"
  "ses_fds (s\<lparr>ses_id := x191\<rparr>) = ses_fds s"
  "ses_fds (s\<lparr>ses_objects := x192\<rparr>) = ses_fds s"
  "ses_fds (s\<lparr>pool_ids := x193\<rparr>) = ses_fds s"
  "ses_fds (s\<lparr>buffer_pools := x194\<rparr>) = ses_fds s"
  "ses_fds (s\<lparr>surfaces := x195\<rparr>) = ses_fds s"
  "ses_fds (s\<lparr>subsurfaces := x196\<rparr>) = ses_fds s"
  "ses_fds (s\<lparr>next_pool := x197\<rparr>) = ses_fds s"
  "ses_fds (s\<lparr>shm_pool_bytes := x198\<rparr>) = ses_fds s"
  "ses_fds (s\<lparr>shm_pool_count := x199\<rparr>) = ses_fds s"
  "ses_fds (s\<lparr>unpunched := x200\<rparr>) = ses_fds s"
  "ses_fds (s\<lparr>toplevels := x201\<rparr>) = ses_fds s"
  "ses_fds (s\<lparr>popups := x202\<rparr>) = ses_fds s"
  "ses_fds (s\<lparr>globals := x203\<rparr>) = ses_fds s"
  "ses_fds (s\<lparr>outputs := x204\<rparr>) = ses_fds s"
  "ses_fds (s\<lparr>sources := x205\<rparr>) = ses_fds s"
  "ses_fds (s\<lparr>devices := x206\<rparr>) = ses_fds s"
  "ses_fds (s\<lparr>offers := x207\<rparr>) = ses_fds s"
  "ses_fds (s\<lparr>placeholders := x208\<rparr>) = ses_fds s"
  "ses_fds (s\<lparr>hidden_count := x209\<rparr>) = ses_fds s"
  "ses_fds (s\<lparr>forwarded_c2s := x210\<rparr>) = ses_fds s"
  "ses_fds (s\<lparr>forwarded_s2c := x211\<rparr>) = ses_fds s"
  "ses_fds (s\<lparr>rewritten_count := x212\<rparr>) = ses_fds s"
  "ses_fds (s\<lparr>ses_opened := x213\<rparr>) = ses_fds s"
  "ses_fds (s\<lparr>ses_punched := x214\<rparr>) = ses_fds s"
  by (simp_all add: ses_fds_def)

definition same_in :: "session \<Rightarrow> session \<Rightarrow> bool" where
  "same_in s s' \<longleftrightarrow> pending_in (client s') = pending_in (client s) \<and> in_fds (client s') = in_fds (client s)
     \<and> pending_in (server s') = pending_in (server s) \<and> in_fds (server s') = in_fds (server s)
     \<and> zone s' = zone s \<and> hold_awake s' = hold_awake s \<and> ses_id s' = ses_id s"

text \<open>\<open>fs\<close> are the descriptors handed over in the call.\<close>

definition keeps :: "fd list \<Rightarrow> session \<Rightarrow> session \<Rightarrow> bool" where
  "keeps fs s s' \<longleftrightarrow> same_in s s' \<and> ses_fds s' + mset (ses_opened s) = ses_fds s + mset fs + mset (ses_opened s')"

definition safe :: "fd list \<Rightarrow> (session \<Rightarrow> bool) \<Rightarrow> session \<Rightarrow> ses_eff \<Rightarrow> bool" where
  "safe fs Q s r \<longleftrightarrow> fst r \<noteq> Some Panic \<and> keeps fs s (snd r) \<and> (fst r = None \<longrightarrow> Q (snd r))"

lemma keeps_refl [simp]: "keeps [] s s"
  by (simp add: keeps_def same_in_def)

lemma keeps_trans: "keeps fs s t \<Longrightarrow> keeps gs t u \<Longrightarrow> keeps (fs @ gs) s u"
proof -
  assume a: "keeps fs s t" "keeps gs t u"
  then have "ses_fds t + mset (ses_opened s) = ses_fds s + mset fs + mset (ses_opened t)"
    "ses_fds u + mset (ses_opened t) = ses_fds t + mset gs + mset (ses_opened u)"
    by (simp_all add: keeps_def)
  then have "ses_fds u + mset (ses_opened s) = ses_fds s + (mset fs + mset gs) + mset (ses_opened u)"
    by (smt (verit) add.assoc add.commute add_left_cancel)
  with a show ?thesis by (simp add: keeps_def same_in_def)
qed

lemma keeps_trans0: "keeps [] s t \<Longrightarrow> keeps gs t u \<Longrightarrow> keeps gs s u"
  using keeps_trans [of "[]" s t gs u] by simp

lemma safe_ret: "Q s \<Longrightarrow> safe [] Q s (None, s)"
  by (simp add: safe_def)

lemma safe_err: "e \<noteq> Panic \<Longrightarrow> safe [] Q s (Some e, s)"
  by (simp add: safe_def)

lemma safe_andthen:
  assumes "safe fs P s r" and "\<And>s'. P s' \<Longrightarrow> safe [] Q s' (f s')"
  shows "safe fs Q s (andthen r f)"
proof (cases r)
  case (Pair e s')
  show ?thesis
  proof (cases e)
    case None
    then have "safe [] Q s' (f s')" "keeps fs s s'" using assms Pair by (auto simp: safe_def)
    then show ?thesis using None Pair keeps_trans [of fs s s' "[]"] by (simp add: safe_def)
  qed (use assms(1) Pair in \<open>simp add: safe_def\<close>)
qed

lemma safe_weaken: "safe fs P s r \<Longrightarrow> (\<And>s'. P s' \<Longrightarrow> Q s') \<Longrightarrow> safe fs Q s r"
  by (auto simp: safe_def)

lemma safe_from: "keeps [] s t \<Longrightarrow> safe fs Q t r \<Longrightarrow> safe fs Q s r"
  using keeps_trans0 by (auto simp: safe_def)

section \<open>Messages of the proxy's own\<close>

lemma mw_finish_fits: "mw_finish w = Some b \<Longrightarrow> fits_batch b []"
proof -
  assume "mw_finish w = Some b"
  then have "length b = HEADER_LEN + length (mw_body w)" "length b \<le> MAX_MESSAGE_LEN"
    by (auto simp: mw_finish_def Let_def header_encode_def HEADER_LEN_def split: if_splits)
  then show ?thesis by (auto simp: fits_batch_def BATCH_BYTES_def HEADER_LEN_def)
qed

lemma mw_finish_fits_one: "mw_finish w = Some b \<Longrightarrow> fits_batch b [f]"
  using mw_finish_fits [of w b] by (simp add: fits_batch_def BATCH_FDS_def)

lemma ep_inv_queue:
  assumes "ep_inv e" "fits_batch b fs" "pending_out e + length b \<le> MAX_PENDING_BYTES"
    "pending_fds e + length fs \<le> MAX_PENDING_FDS"
  shows "ep_inv (queue b fs e)"
  using assms queue_ok [of e b fs] by (simp add: ep_inv_def fits_batch_def)

lemma ep_all_fds_queue [simp]: "ep_all_fds (queue b fs e) = ep_all_fds e + mset fs"
  by (simp add: ep_all_fds_def)

lemma ses_inv_client:
  "ses_inv s \<Longrightarrow> ep_inv e \<Longrightarrow> ses_inv (s\<lparr>client := e\<rparr>)"
  by (simp add: ses_inv_def base_inv_def)

lemma keeps_drop_fds: "keeps fs s (drop_fds fs s)"
  by (simp add: keeps_def same_in_def drop_fds_def ses_fds_def pool_fds_def)

lemma emit_safe:
  assumes "ses_inv s" "\<And>b. m = Some b \<Longrightarrow> fits_batch b fs"
  shows "safe fs ses_inv s (emit m fs s)"
proof (cases "\<exists>b. m = Some b \<and> pending_out (client s) + length b \<le> MAX_PENDING_BYTES
    \<and> pending_fds (client s) + length fs \<le> MAX_PENDING_FDS")
  case True
  then obtain b where b: "m = Some b" "pending_out (client s) + length b \<le> MAX_PENDING_BYTES"
      "pending_fds (client s) + length fs \<le> MAX_PENDING_FDS" by blast
  have "ep_inv (queue b fs (client s))"
    using assms b by (intro ep_inv_queue) (simp_all add: ses_inv_def base_inv_def)
  then have "ses_inv (s\<lparr>client := queue b fs (client s)\<rparr>)" using assms(1) ses_inv_client by blast
  moreover have "keeps fs s (s\<lparr>client := queue b fs (client s)\<rparr>)"
    by (simp add: keeps_def same_in_def ses_fds_def pool_fds_def)
  ultimately show ?thesis using b by (simp add: safe_def emit_def)
next
  case False
  then show ?thesis using keeps_drop_fds [of fs s]
    by (auto simp: safe_def emit_def not_less split: option.splits)
qed

lemma cancel_safe: "ses_inv s \<Longrightarrow> safe [] ses_inv s (cancel i s)"
  unfolding cancel_def by (intro emit_safe) (auto dest: mw_finish_fits)

lemma emit_types_safe: "ses_inv s \<Longrightarrow> safe [] ses_inv s (emit_types offer ts s)"
proof (induction ts arbitrary: s)
  case (Cons t ts)
  show ?case
    unfolding emit_types.simps
    by (rule safe_andthen [OF emit_safe [OF Cons.prems]]) (auto dest: mw_finish_fits intro: Cons.IH)
qed (simp add: safe_ret)

lemma placeholder_safe:
  assumes inv: "ses_inv s"
  shows "safe [] ses_inv s (placeholder i s)"
proof (cases "mw_finish (mw_u32 i (mw_new WL_DISPLAY WL_DISPLAY_SYNC))")
  case None
  then show ?thesis by (simp add: placeholder_def safe_err)
next
  case (Some m)
  show ?thesis
  proof (cases "pending_out (server s) + length m > MAX_PENDING_BYTES")
    case True
    then show ?thesis by (simp add: placeholder_def Some safe_err)
  next
    case False
    let ?n = "(case hm_get (placeholders s) i of Some n \<Rightarrow> n | None \<Rightarrow> 0) + 1"
    let ?t = "s\<lparr>server := queue m [] (server s), placeholders := hm_insert i ?n (placeholders s)\<rparr>"
    have "ep_inv (queue m [] (server s))"
      using inv False mw_finish_fits [OF Some]
      by (intro ep_inv_queue) (simp_all add: ses_inv_def base_inv_def ep_inv_def)
    then have "ses_inv ?t"
      using inv by (simp add: ses_inv_def base_inv_def misc_inv_def)
    moreover have "keeps [] s ?t" by (simp add: keeps_def same_in_def ses_fds_def pool_fds_def)
    ultimately show ?thesis using False by (simp add: placeholder_def Some safe_def)
  qed
qed

section \<open>Objects\<close>

lemma find_tables: "find n = Some i \<Longrightarrow> i \<in> set INTERFACES \<and> i_name i = n"
  by (simp add: find_Some)

lemma has_name_insert:
  assumes "obj_get s' = (obj_get s)(i \<mapsto> ob)" "obj_get s i = None" "has_name s j n"
  shows "has_name s' j n"
  using assms by (auto simp: has_name_def split: option.splits)

text \<open>
  Registering an object makes the ids of a pool or buffer it is the object of typed; if its id were
  taken, it is refused, and the session ends.
\<close>

lemma register_safe:
  assumes base: "base_inv s"
    and new: "obj_get s i = None \<Longrightarrow> pool_inv [] s \<and> typed_new (Some (i, n)) s"
  shows "safe [] (\<lambda>s'. ses_inv s' \<and> (\<exists>ob. fst ob \<in> set INTERFACES \<and> named n ob \<and> obj_get s' = (obj_get s)(i \<mapsto> ob))) s
    (register i n v d s)"
proof (cases "\<exists>iface obs. find n = Some iface
    \<and> objects_insert i (iface, v) (ses_objects s) = (None, obs)
    \<and> \<not> (i_name iface = ''xdg_toplevel'' \<and> toplevels s \<ge> MAX_TOPLEVELS_PER_SESSION)
    \<and> \<not> (i_name iface = ''xdg_popup'' \<and> popups s \<ge> MAX_POPUPS_PER_SESSION)
    \<and> (case d of ClientToServer \<Rightarrow> in_client_range i | ServerToClient \<Rightarrow> \<not> in_client_range i) \<and> i \<noteq> 0")
  case True
  then obtain iface obs where f: "find n = Some iface"
      and ins: "objects_insert i (iface, v) (ses_objects s) = (None, obs)"
      and lim: "\<not> (i_name iface = ''xdg_toplevel'' \<and> toplevels s \<ge> MAX_TOPLEVELS_PER_SESSION)"
        "\<not> (i_name iface = ''xdg_popup'' \<and> popups s \<ge> MAX_POPUPS_PER_SESSION)"
      and rng: "(case d of ClientToServer \<Rightarrow> in_client_range i | ServerToClient \<Rightarrow> \<not> in_client_range i)" "i \<noteq> 0"
    by blast
  note tab = find_tables [OF f]
  define s' where "s' = (if i_name iface = ''xdg_toplevel'' then s\<lparr>ses_objects := obs, toplevels := toplevels s + 1\<rparr>
      else if i_name iface = ''xdg_popup'' then s\<lparr>ses_objects := obs, popups := popups s + 1\<rparr>
      else s\<lparr>ses_objects := obs\<rparr>)"
  have run: "register i n v d s = (None, s')"
    using f ins lim rng by (simp add: register_def s'_def Let_def split: dir.splits)
  have obs': "ses_objects s' = obs" by (simp add: s'_def)
  note io = objs.ins_ok [OF ins]
  have get: "obj_get s i = None" "obj_get s' = (obj_get s)(i \<mapsto> (iface, v))"
    using io by (simp_all add: obj_get_def obs')
  have oi: "obj_inv s" "misc_inv s" "ep_inv (client s)" "ep_inv (server s)"
    using base by (simp_all add: base_inv_def)
  have live: "ob_live obs = table_count (obj_get s') (\<lambda>_. True)" "ob_live obs \<le> MAX_OBJECTS"
    using objs.live_insert [OF ins] oi(1) by (simp_all add: obj_inv_def obj_get_def obs')
  have cnt: "table_count (obj_get s') P = table_count (obj_get s) P + (if P (iface, v) then 1 else 0)" for P
    using objs.count_insert [OF ins] by (simp add: obj_get_def obs')
  have sl: "slots_ok obs" using slots_ok_insert [of "ses_objects s" i "(iface, v)"] oi(1) ins
    by (simp add: obj_inv_def)
  have "obj_inv s'"
    using oi(1) live sl lim tab cnt [of "named ''xdg_toplevel''"] cnt [of "named ''xdg_popup''"]
    unfolding obj_inv_def obs' get(2)
    by (auto simp: s'_def named_def)
  moreover have "misc_inv s'" "ep_inv (client s')" "ep_inv (server s')"
    using oi by (simp_all add: s'_def)
  moreover have "pool_inv [] s'" using new [OF get(1)] by (simp add: s'_def)
  moreover have "typed_new None s'"
  proof -
    have "typed_new (Some (i, n)) s" using new [OF get(1)] by simp
    moreover have "has_name s' i n" using tab by (simp add: has_name_def get(2) named_def)
    moreover have "pool_ids s' = pool_ids s" "buffer_pools s' = buffer_pools s" by (simp_all add: s'_def)
    ultimately show ?thesis
      using has_name_insert [OF get(2,1)] unfolding typed_new_def by auto
  qed
  moreover have "keeps [] s s'" by (simp add: s'_def keeps_def same_in_def)
  ultimately show ?thesis
    unfolding run using tab get(2) by (auto simp: safe_def ses_inv_def base_inv_def named_def)
next
  case False
  then have "\<exists>e s'. register i n v d s = (Some e, s') \<and> s' = s \<and> e \<noteq> Panic"
    using objs.ins_err [of i _ "ses_objects s"]
    by (auto simp: register_def Let_def split: option.splits dir.splits prod.splits)
  then show ?thesis using safe_err by auto
qed

lemma typed_new_mono: "typed_new None s \<Longrightarrow> typed_new nw s"
  by (auto simp: typed_new_def)

text \<open>An object the proxy serves is no pool and no window: its id may go.\<close>

lemma remove_served_safe:
  assumes inv: "ses_inv s" and served: "\<And>ob. obj_get s i = Some ob \<Longrightarrow> served (i_name (fst ob))"
  shows "safe [] ses_inv s (remove_object i s)"
proof -
  have oi: "obj_inv s" using inv by (simp add: ses_inv_def base_inv_def)
  have "ob_live (ses_objects s) = table_count (objects_get (ses_objects s)) (\<lambda>_. True)"
    using oi by (simp add: obj_inv_def obj_get_def)
  then obtain obs where obs: "objects_remove i (ses_objects s) = (None, obs)"
      "objects_get obs = (objects_get (ses_objects s))(i := None)"
      "ob_live obs = table_count (objects_get obs) (\<lambda>_. True)" "ob_live obs \<le> ob_live (ses_objects s)"
    using objs.live_remove by blast
  let ?s = "s\<lparr>ses_objects := obs\<rparr>"
  have get: "obj_get ?s = (obj_get s)(i := None)" using obs(2) by (simp add: obj_get_def)
  have nn: "\<not> has_name s i n" if "\<not> served n" for n
    using served that by (auto simp: has_name_def named_def split: option.splits)
  have cnt: "table_count (obj_get ?s) (named n) = table_count (obj_get s) (named n)" if "\<not> served n" for n
    using table_count_remove [of "obj_get s" i "named n"] nn [OF that] unfolding get
    by (auto simp: has_name_def split: option.splits)
  have nots: "\<not> served ''xdg_toplevel''" "\<not> served ''xdg_popup''" "\<not> served ''wl_shm_pool''" "\<not> served ''wl_buffer''"
    by (simp_all add: served_def SERVED_def)
  have "slots_ok obs" using slots_ok_remove [of "ses_objects s" i] obs(1) oi by (simp add: obj_inv_def)
  then have "obj_inv ?s"
    using oi obs cnt [OF nots(1)] cnt [OF nots(2)] unfolding obj_inv_def get by (auto simp: obj_get_def)
  moreover have "typed_new None ?s"
    using inv nn [OF nots(3)] nn [OF nots(4)] get
    by (auto simp: ses_inv_def typed_new_def has_name_def)
  ultimately have "ses_inv ?s" using inv by (simp add: ses_inv_def base_inv_def)
  then show ?thesis using obs(1) by (simp add: remove_object_def safe_def keeps_def same_in_def)
qed

lemma served_gone_safe:
  assumes "ses_inv s" "\<And>ob. obj_get s i = Some ob \<Longrightarrow> served (i_name (fst ob))"
  shows "safe [] ses_inv s (served_gone i s)"
  unfolding served_gone_def
  by (rule safe_andthen [OF remove_served_safe [OF assms]]) (auto intro!: emit_safe dest: mw_finish_fits)

section \<open>Offers\<close>

lemma ses_inv_offers: "ses_inv s \<Longrightarrow> ses_inv (s\<lparr>offers := x\<rparr>)"
  by (simp add: ses_inv_def base_inv_def)

lemma keeps_offers: "keeps [] s (s\<lparr>offers := x\<rparr>)"
  by (simp add: keeps_def same_in_def)

lemma emit_own_safe: "ses_inv s \<Longrightarrow> safe [] ses_inv s (emit (mw_finish w) [] s)"
  by (intro emit_safe) (auto dest: mw_finish_fits)

lemma offer_to_safe:
  assumes inv: "ses_inv s"
  shows "safe [] ses_inv s (offer_to c dev s)"
proof -
  have reg: "safe [] ses_inv s (register i ''wl_data_offer'' v ServerToClient s)" for i v
    using inv typed_new_mono
    by (intro safe_weaken [OF register_safe]) (auto simp: ses_inv_def)
  have rest: "safe [] ses_inv s' (andthen (emit (mw_finish w) [] (s'\<lparr>offers := x\<rparr>))
      (\<lambda>s. andthen (emit_types i ts s) (emit (mw_finish w') [])))" if "ses_inv s'" for s' w x i ts w'
    by (rule safe_from [OF keeps_offers [of s' x]],
        rule safe_andthen [OF emit_own_safe [OF ses_inv_offers [OF that]]],
        erule safe_andthen [OF emit_types_safe], erule emit_own_safe)
  show ?thesis
    using emit_own_safe [OF inv] safe_ret [of ses_inv s] inv
    by (auto simp: offer_to_def safe_err intro!: safe_andthen [OF reg] rest split: option.splits)
qed

lemma offer_selection_safe: "ses_inv s \<Longrightarrow> safe [] ses_inv s (offer_selection c devs s)"
proof (induction devs arbitrary: s)
  case (Cons d devs)
  show ?case unfolding offer_selection.simps
    by (rule safe_andthen [OF offer_to_safe [OF Cons.prems] Cons.IH])
qed (simp add: safe_ret)

text \<open>What another session asks keeps the invariant; its descriptor is queued or closed.\<close>

lemma act_safe:
  assumes "ses_inv s"
  shows "safe (action_fds a) ses_inv s (act a c s)"
proof (cases a)
  case (Send x1 x2 x3 x4)
  have "ses_inv (drop_fds [x4] s)" using assms by (simp add: drop_fds_def ses_inv_def base_inv_def)
  then show ?thesis
    using Send emit_safe [OF assms, of _ "[x4]"] mw_finish_fits_one keeps_drop_fds [of "[x4]" s]
    by (auto simp: act_def safe_def)
qed (use assms in \<open>auto simp: act_def intro: offer_selection_safe cancel_safe safe_ret\<close>)

end
