(* ===== verification/Pump_Inv.thy ===== *)
theory Pump_Inv
  imports Session_Inv
begin

text \<open>
  Every block of \<open>pump\<close> keeps the session's invariant, and so does every pass of its loop: whatever
  bytes and descriptors the two sides send, the proxy never panics, stays within its bounds, loses
  no descriptor and returns.
\<close>

declare map_of_eq_Some_iff [simp del]

section \<open>Deleting an object\<close>

lemma hm_remove_none: "hm_get m i = None \<Longrightarrow> hm_remove i m = m"
  by (simp add: delete_id map_of_eq_None_iff)

lemma delete_pool_ok:
  assumes inv: "pool_inv [] s"
  shows "\<exists>s'. delete_pool k i s = (None, s') \<and> pool_inv [] s'
    \<and> pools_only (s\<lparr>pool_ids := hm_remove i (pool_ids s)\<rparr>) s' \<and> pool_fds s' = pool_fds s"
proof (cases "hm_get (pool_ids s) i")
  case None
  then show ?thesis using inv by (simp add: delete_pool_def hm_remove_none)
next
  case (Some g)
  then obtain p where p: "hm_get (pools s) g = Some p"
    using pool_invD(3) [OF inv] unfolding ids_ok_def by blast
  let ?p = "p\<lparr>p_deleted := True\<rparr>"
  define t where "t = s\<lparr>pool_ids := hm_remove i (pool_ids s), pools := hm_insert g ?p (pools s)\<rparr>"
  have "hm_get (pool_ids s) j = Some g \<Longrightarrow> j = i" for j
    using pool_invD(3) [OF inv] Some unfolding ids_ok_def by blast
  moreover have "hm_sum p_range (hm_insert g ?p (pools s)) = hm_sum p_range (pools s)"
    using hm_sum_insert_old [OF p, of p_range ?p] by simp
  ultimately have t: "pool_inv [] t"
    using inv p Some hm_len_insert_old [OF p]
    by (auto simp: t_def pool_inv_def budget_ok_def maps_ok_def ids_ok_def pool_ok_def split: if_splits)
      (metis option.inject)
  have "pool_fds t = pool_fds s"
    using mset_hm_insert_old [OF p, of p_fd ?p] by (simp add: t_def pool_fds_def)
  moreover have "pools_only (s\<lparr>pool_ids := hm_remove i (pool_ids s)\<rparr>) t" by (simp add: t_def)
  moreover have "delete_pool k i s = release_pool_if_unused k g t"
    by (simp add: delete_pool_def Some p t_def)
  ultimately show ?thesis
    using release_ok [OF t, of k g] pools_only_trans unfolding release_post_def by fastforce
qed

lemma buffer_count_remove:
  "hm_ok m \<Longrightarrow> hm_get m i = Some g \<Longrightarrow>
    buffer_count h m = (if h = g then 1 else 0) + buffer_count h (hm_remove i m)"
  using hm_sum_remove [of m i g "\<lambda>g'. if g' = h then 1 else 0"] by (auto simp: buffer_count_def)

lemma delete_buffer_ok:
  assumes inv: "pool_inv [] s"
  shows "\<exists>s'. delete_buffer k i s = (None, s') \<and> pool_inv [] s'
    \<and> pools_only (s\<lparr>buffer_pools := hm_remove i (buffer_pools s)\<rparr>) s' \<and> pool_fds s' = pool_fds s"
proof (cases "hm_get (buffer_pools s) i")
  case None
  then show ?thesis using inv by (simp add: delete_buffer_def hm_remove_none)
next
  case (Some g)
  then obtain p where p: "hm_get (pools s) g = Some p"
    using pool_invD(3) [OF inv] unfolding ids_ok_def by blast
  let ?p = "p\<lparr>p_buffers := p_buffers p - 1\<rparr>"
  define t where "t = s\<lparr>buffer_pools := hm_remove i (buffer_pools s), pools := hm_insert g ?p (pools s)\<rparr>"
  have cnt: "buffer_count h (buffer_pools s) = (if h = g then 1 else 0) + buffer_count h (hm_remove i (buffer_pools s))" for h
    using buffer_count_remove [OF _ Some] pool_invD(1) [OF inv] by (simp add: maps_ok_def)
  moreover have "hm_sum p_range (hm_insert g ?p (pools s)) = hm_sum p_range (pools s)"
    using hm_sum_insert_old [OF p, of p_range ?p] by simp
  ultimately have t: "pool_inv [] t"
    using inv p Some hm_len_insert_old [OF p]
    by (auto simp: t_def pool_inv_def budget_ok_def maps_ok_def ids_ok_def pool_ok_def split: if_splits)
  have pos: "p_buffers p \<noteq> 0" using pool_invD(5) [OF inv p] cnt [of g] by (simp add: pool_ok_def)
  have "pool_fds t = pool_fds s"
    using mset_hm_insert_old [OF p, of p_fd ?p] by (simp add: t_def pool_fds_def)
  moreover have "pools_only (s\<lparr>buffer_pools := hm_remove i (buffer_pools s)\<rparr>) t" by (simp add: t_def)
  moreover have "delete_buffer k i s = release_pool_if_unused k g t"
    using pos by (simp add: delete_buffer_def Some p t_def)
  ultimately show ?thesis
    using release_ok [OF t, of k g] pools_only_trans unfolding release_post_def by fastforce
qed

lemma detach_all_ok: "pool_inv fl s \<Longrightarrow> \<exists>s'. detach_all k cs s = (None, s') \<and> surf_post fl s s'"
proof (induction cs arbitrary: s)
  case (Cons c cs)
  obtain t where t: "detach k c s = (None, t)" "surf_post fl s t" using detach_ok [OF Cons.prems] by blast
  then obtain u where "detach_all k cs t = (None, u)" "surf_post fl t u"
    using Cons.IH [of t] by (auto simp: surf_post_def)
  with t show ?case by (auto intro: surf_post_trans)
qed (simp add: surf_post_refl)

lemma unlink_child_ok:
  assumes inv: "pool_inv fl s"
  shows "surf_post fl s (case par of
      None \<Rightarrow> s
    | Some p \<Rightarrow> (case hm_get (surfaces s) p of
          None \<Rightarrow> s
        | Some pf \<Rightarrow> s\<lparr>surfaces := hm_insert p (pf\<lparr>children := f pf\<rparr>) (surfaces s)\<rparr>))"
  using surf_post_refl [OF inv] surf_post_surface_keep [OF inv]
  by (auto split: option.splits)

lemma delete_surface_ok:
  assumes inv: "pool_inv [] s"
  shows "\<exists>s'. delete_surface k i s = (None, s') \<and> surf_post [] s s'"
proof (cases "hm_get (surfaces s) i")
  case None
  then show ?thesis using surf_post_refl [OF inv] by (simp add: delete_surface_def)
next
  case (Some sf)
  define fl where "fl = somes (held sf)"
  let ?s1 = "s\<lparr>surfaces := hm_remove i (surfaces s)\<rparr>"
  have "held_count g (surfaces s) = held_count g (hm_remove i (surfaces s)) + count_list fl g" for g
    using hm_sum_remove [OF _ Some, of "\<lambda>sf. count_list (held sf) (Some g)"] pool_invD(1) [OF inv]
    by (simp add: held_count_def fl_def count_somes maps_ok_def)
  then have s1: "pool_inv fl ?s1"
    using inv by (auto simp: pool_inv_def budget_ok_def maps_ok_def ids_ok_def pool_ok_def split: if_splits)
  obtain s2 where s2: "detach_all k (children sf) ?s1 = (None, s2)" "surf_post fl ?s1 s2"
    using detach_all_ok [OF s1] by blast
  define s3 where "s3 = (case sf_parent sf of
      None \<Rightarrow> s2
    | Some p \<Rightarrow> (case hm_get (surfaces s2) p of
          None \<Rightarrow> s2
        | Some pf \<Rightarrow> s2\<lparr>surfaces := hm_insert p (pf\<lparr>children := filter (\<lambda>c. c \<noteq> i) (children pf)\<rparr>) (surfaces s2)\<rparr>))"
  have s3: "surf_post fl s2 s3"
    unfolding s3_def by (rule unlink_child_ok) (use s2(2) in \<open>simp add: surf_post_def\<close>)
  then obtain s4 where s4: "unhold_all k fl s3 = (None, s4)" "release_post [] s3 s4"
    using unhold_all_ok [of fl "[]" s3 k] by (auto simp: surf_post_def)
  have "pools_only s s4"
    using pools_only_upd(2) [of s] s2(2) s3 s4(2) pools_only_trans
    unfolding surf_post_def release_post_def by blast
  then have "surf_post [] s s4"
    using s2(2) s3 s4(2) by (auto simp: surf_post_def release_post_def pool_fds_def)
  moreover have "delete_surface k i s = (None, s4)"
    using s2(1) s4(1) by (simp add: delete_surface_def Some fl_def s3_def Let_def)
  ultimately show ?thesis by blast
qed

text \<open>The counts once the object's own is taken off.\<close>

definition counted :: "string \<Rightarrow> session \<Rightarrow> u32 \<Rightarrow> nat" where
  "counted n s i = (if has_name s i n then 1 else 0)"

lemma count_off_ok:
  assumes inv: "obj_inv s"
  shows "count_off i s = (None, s\<lparr>toplevels := toplevels s - counted ''xdg_toplevel'' s i,
    popups := popups s - counted ''xdg_popup'' s i\<rparr>)"
proof -
  have pos: "has_name s i n \<Longrightarrow> table_count (obj_get s) (named n) \<noteq> 0" for n
    using table_count_remove [of "obj_get s" i "named n"] by (auto simp: has_name_def split: option.splits)
  have t: "has_name s i ''xdg_toplevel'' \<Longrightarrow> toplevels s \<noteq> 0" and p: "has_name s i ''xdg_popup'' \<Longrightarrow> popups s \<noteq> 0"
    using inv pos by (auto simp: obj_inv_def)
  show ?thesis
    using t p by (cases "obj_get s i")
      (auto simp: count_off_def counted_def has_name_def named_def obj_get_def)
qed

lemma table_count_removed:
  "table_count ((obj_get s)(i := None)) (named n) = table_count (obj_get s) (named n) - counted n s i"
  using table_count_remove [of "obj_get s" i "named n"]
  by (auto simp: counted_def has_name_def split: option.splits)

lemma delete_object_safe:
  assumes inv: "ses_inv s"
  shows "safe [] ses_inv s (delete_object k i s)"
proof -
  have oi: "obj_inv s" "misc_inv s" "ep_inv (client s)" "ep_inv (server s)" "pool_inv [] s" "typed_new None s"
    using inv by (simp_all add: ses_inv_def base_inv_def)
  define s1 where "s1 = s\<lparr>toplevels := toplevels s - counted ''xdg_toplevel'' s i,
      popups := popups s - counted ''xdg_popup'' s i, outputs := hm_remove i (outputs s)\<rparr>"
  obtain s2 where s2: "delete_pool k i s1 = (None, s2)" "pool_inv [] s2" "pool_fds s2 = pool_fds s1"
      "pools_only (s1\<lparr>pool_ids := hm_remove i (pool_ids s1)\<rparr>) s2"
    using delete_pool_ok [of s1 k i] oi(5) by (auto simp: s1_def)
  obtain s3 where s3: "delete_buffer k i s2 = (None, s3)" "pool_inv [] s3" "pool_fds s3 = pool_fds s2"
      "pools_only (s2\<lparr>buffer_pools := hm_remove i (buffer_pools s2)\<rparr>) s3"
    using delete_buffer_ok [OF s2(2), of k i] by auto
  obtain s4 where s4: "delete_surface k i s3 = (None, s4)" "surf_post [] s3 s4"
    using delete_surface_ok [OF s3(2)] by blast
  have p4: "pools_only s3 s4" "pool_inv [] s4" "pool_fds s4 = pool_fds s3" using s4(2) by (simp_all add: surf_post_def)
  note fr = pools_onlyD [OF s2(4)] pools_onlyD [OF s3(4)] pools_onlyD [OF p4(1)]
  have ob4: "ses_objects s4 = ses_objects s" by (simp add: fr s1_def)
  have "ob_live (ses_objects s) = table_count (objects_get (ses_objects s)) (\<lambda>_. True)"
    using oi(1) by (simp add: obj_inv_def obj_get_def)
  then obtain obs where obs: "objects_remove i (ses_objects s) = (None, obs)"
      "objects_get obs = (objects_get (ses_objects s))(i := None)"
      "ob_live obs = table_count (objects_get obs) (\<lambda>_. True)" "ob_live obs \<le> ob_live (ses_objects s)"
    using objs.live_remove by blast
  let ?s = "s4\<lparr>ses_objects := obs\<rparr>"
  have get: "obj_get ?s = (obj_get s)(i := None)" using obs(2) by (simp add: obj_get_def)
  have "slots_ok obs" using slots_ok_remove [of "ses_objects s" i] obs(1) oi(1) by (simp add: obj_inv_def)
  then have "obj_inv ?s"
    using oi(1) obs unfolding obj_inv_def get table_count_removed
    by (auto simp: fr s1_def obj_get_def)
  moreover have "misc_inv ?s" using oi(2) by (simp add: misc_inv_def fr s1_def)
  moreover have "ep_inv (client ?s)" "ep_inv (server ?s)" using oi(3,4) by (simp_all add: fr s1_def)
  moreover have "typed_new None ?s"
    using oi(6) get by (auto simp: typed_new_def has_name_def fr s1_def)
  ultimately have "ses_inv ?s" using p4(2) by (simp add: ses_inv_def base_inv_def)
  moreover have "keeps [] s ?s"
  proof -
    have "pool_fds s4 = pool_fds s" using s2(3) s3(3) p4(3) by (simp add: s1_def)
    then show ?thesis by (simp add: keeps_def same_in_def ses_fds_def fr s1_def)
  qed
  moreover have "delete_object k i s = (None, ?s)"
    using s2(1) s3(1) s4(1) obs(1)
    by (simp add: delete_object_def count_off_ok [OF oi(1)] s1_def remove_object_def ob4)
  ultimately show ?thesis by (simp add: safe_def)
qed

lemma end_placeholder_safe:
  assumes "ses_inv s"
  shows "(\<forall>e. fst (end_placeholder i s) \<noteq> Inl e) \<and> ses_inv (snd (end_placeholder i s))
    \<and> keeps [] s (snd (end_placeholder i s))"
proof (cases "hm_get (placeholders s) i")
  case (Some n)
  then have "0 < n" using assms by (auto simp: ses_inv_def base_inv_def misc_inv_def)
  then show ?thesis
    using assms Some
    by (auto simp: end_placeholder_def ses_inv_def base_inv_def misc_inv_def keeps_def same_in_def split: if_splits)
qed (use assms in \<open>simp add: end_placeholder_def\<close>)

section \<open>A message being handled\<close>

definition turn_fds :: "turn \<Rightarrow> fd multiset" where
  "turn_fds t = ses_fds (ses t) + mset (fds t) + mset (clip_fds (clip t))"

definition tkeeps :: "turn \<Rightarrow> turn \<Rightarrow> bool" where
  "tkeeps t t' \<longleftrightarrow> same_in (ses t) (ses t')
     \<and> turn_fds t' + mset (ses_opened (ses t)) = turn_fds t + mset (ses_opened (ses t'))"

definition tsafe :: "(turn \<Rightarrow> bool) \<Rightarrow> turn \<Rightarrow> turn_eff \<Rightarrow> bool" where
  "tsafe Q t r \<longleftrightarrow> fst r \<noteq> Some Panic \<and> tkeeps t (snd r) \<and> (fst r = None \<longrightarrow> Q (snd r))"

text \<open>What is sent on fits one batch.\<close>

definition turn_ok :: "turn \<Rightarrow> bool" where
  "turn_ok t \<longleftrightarrow> length (fds t) \<le> 1 \<and> (\<forall>b. rewritten t = Some b \<longrightarrow> fits_batch b [])
     \<and> (\<forall>b. stamp t = Some b \<longrightarrow> fits_batch b [])"

definition tinv :: "turn \<Rightarrow> bool" where
  "tinv t \<longleftrightarrow> ses_inv (ses t) \<and> turn_ok t"

definition mid_inv :: "(u32 \<times> string) option \<Rightarrow> session \<Rightarrow> bool" where
  "mid_inv nw s \<longleftrightarrow> base_inv s \<and> (case nw of
       None \<Rightarrow> pool_inv [] s \<and> typed_new None s
     | Some (i, n) \<Rightarrow> obj_get s i = None \<longrightarrow> pool_inv [] s \<and> typed_new (Some (i, n)) s)"

definition tmid :: "(u32 \<times> string) option \<Rightarrow> turn \<Rightarrow> bool" where
  "tmid nw t \<longleftrightarrow> mid_inv nw (ses t) \<and> turn_ok t"

lemma tinv_tmid: "tinv t \<Longrightarrow> tmid nw t"
  using typed_new_mono by (auto simp: tinv_def tmid_def mid_inv_def ses_inv_def split: option.splits)

lemma tkeeps_refl [simp]: "tkeeps t t"
  by (simp add: tkeeps_def same_in_def)

lemma tkeeps_trans: "tkeeps t u \<Longrightarrow> tkeeps u v \<Longrightarrow> tkeeps t v"
proof -
  assume a: "tkeeps t u" "tkeeps u v"
  then have "turn_fds u + mset (ses_opened (ses t)) = turn_fds t + mset (ses_opened (ses u))"
    "turn_fds v + mset (ses_opened (ses u)) = turn_fds u + mset (ses_opened (ses v))"
    by (simp_all add: tkeeps_def)
  then have "turn_fds v + mset (ses_opened (ses t)) = turn_fds t + mset (ses_opened (ses v))"
    by (smt (verit) add.assoc add.commute add_left_cancel)
  with a show ?thesis by (simp add: tkeeps_def same_in_def)
qed

lemma tsafe_ret: "Q t \<Longrightarrow> tsafe Q t (None, t)"
  by (simp add: tsafe_def)

lemma tsafe_err: "e \<noteq> Panic \<Longrightarrow> tsafe Q t (Some e, t)"
  by (simp add: tsafe_def)

lemma tsafe_from: "tkeeps t u \<Longrightarrow> tsafe Q u r \<Longrightarrow> tsafe Q t r"
  using tkeeps_trans by (auto simp: tsafe_def)

lemma tsafe_upd: "tkeeps t u \<Longrightarrow> Q u \<Longrightarrow> tsafe Q t (None, u)"
  by (simp add: tsafe_def)

lemma tsafe_andthen:
  assumes "tsafe P t r" and "\<And>t'. P t' \<Longrightarrow> tsafe Q t' (f t')"
  shows "tsafe Q t (andthen r f)"
  using assms tkeeps_trans by (cases r; cases "fst r") (fastforce simp: tsafe_def)+

lemma tsafe_weaken: "tsafe P t r \<Longrightarrow> (\<And>t'. P t' \<Longrightarrow> Q t') \<Longrightarrow> tsafe Q t r"
  by (auto simp: tsafe_def)

lemma tsafe_if:
  "(c \<Longrightarrow> tsafe Q t a) \<Longrightarrow> (\<not> c \<Longrightarrow> tsafe Q t b) \<Longrightarrow> tsafe Q t (if c then a else b)"
  by simp

lemma tsafe_wire:
  "(\<And>v. r = Inr v \<Longrightarrow> tsafe Q t (f v)) \<Longrightarrow> tsafe Q t (try_val (wire r) t f)"
  by (cases r) (auto simp: wire_def tsafe_err)

lemma tsafe_on_ses:
  assumes "safe [] P (ses t) (f (ses t))" and "\<And>s'. P s' \<Longrightarrow> Q (t\<lparr>ses := s'\<rparr>)"
  shows "tsafe Q t (on_ses f t)"
proof -
  obtain e s' where r: "f (ses t) = (e, s')" by fastforce
  then have "keeps [] (ses t) s'" using assms(1) by (simp add: safe_def)
  then have "tkeeps t (t\<lparr>ses := s'\<rparr>)"
    by (auto simp: keeps_def tkeeps_def turn_fds_def algebra_simps)
  then show ?thesis using assms r by (auto simp: tsafe_def safe_def on_ses_def)
qed

lemma tinv_on_ses: "tinv t \<Longrightarrow> safe [] ses_inv (ses t) (f (ses t)) \<Longrightarrow> tsafe tinv t (on_ses f t)"
  by (erule tsafe_on_ses) (simp add: tinv_def turn_ok_def)

text \<open>An update of a part of the state that holds no descriptor.\<close>

lemma tkeeps_upd:
  assumes "keeps [] (ses t) (ses u)" "fds u = fds t" "clip_fds (clip u) = clip_fds (clip t)"
  shows "tkeeps t u"
  using assms by (auto simp: keeps_def tkeeps_def turn_fds_def algebra_simps)

lemmas keeps_simps = keeps_def same_in_def

section \<open>The data device\<close>

lemma hm_len_insert_le: "length (hm_insert k v m) \<le> Suc (length m)"
  by (induction m) auto

lemma ses_inv_sources:
  "ses_inv s \<Longrightarrow> length x \<le> MAX_DATA_SOURCES_PER_SESSION \<Longrightarrow>
    (\<And>i ts. hm_get x i = Some ts \<Longrightarrow> types_ok ts) \<Longrightarrow> ses_inv (s\<lparr>sources := x\<rparr>)"
  by (simp add: ses_inv_def base_inv_def misc_inv_def)

lemma sources_inv:
  "ses_inv s \<Longrightarrow> length (sources s) \<le> MAX_DATA_SOURCES_PER_SESSION"
  "ses_inv s \<Longrightarrow> hm_get (sources s) i = Some ts \<Longrightarrow> types_ok ts"
  by (auto simp: ses_inv_def base_inv_def misc_inv_def)

lemma serve_create_source_safe:
  assumes "tinv t"
  shows "tsafe tinv t (serve_create_source r t)"
proof (cases "length (sources (ses t)) \<ge> MAX_DATA_SOURCES_PER_SESSION")
  case False
  have "tinv (t\<lparr>ses := (ses t)\<lparr>sources := hm_insert i [] (sources (ses t))\<rparr>\<rparr>)" for i
    using assms False hm_len_insert_le [of i "[]" "sources (ses t)"] sources_inv [of "ses t"]
    by (auto simp: tinv_def turn_ok_def types_ok_def intro!: ses_inv_sources split: if_splits)
  moreover have "tkeeps t (t\<lparr>ses := (ses t)\<lparr>sources := x\<rparr>\<rparr>)" for x
    by (rule tkeeps_upd) (simp_all add: keeps_simps)
  ultimately show ?thesis using False
    by (auto simp: serve_create_source_def intro!: tsafe_wire tsafe_upd)
qed (simp add: serve_create_source_def tsafe_err)

lemma hm_len_insert_mem: "hm_get m k = Some w \<Longrightarrow> length (hm_insert k v m) = length m"
  by (rule hm_len_insert_old)

lemma serve_offer_safe:
  assumes "tinv t"
  shows "tsafe tinv t (serve_offer obj r t)"
proof -
  have "tsafe tinv t (case hm_get (sources (ses t)) obj of
          None \<Rightarrow> (Some (UnknownObject obj), t)
        | Some types \<Rightarrow>
            if length types \<ge> MAX_MIME_TYPES \<or> length mime > MAX_MIME_BYTES
            then (Some (ResourceLimit ''a data source's types''), t)
            else if mime \<in> set types then (None, t)
            else (None, t\<lparr>ses := (ses t)\<lparr>sources := hm_insert obj (types @ [mime]) (sources (ses t))\<rparr>\<rparr>))" for mime
  proof (cases "hm_get (sources (ses t)) obj")
    case (Some types)
    let ?u = "t\<lparr>ses := (ses t)\<lparr>sources := hm_insert obj (types @ [mime]) (sources (ses t))\<rparr>\<rparr>"
    have "tinv ?u" if "length types < MAX_MIME_TYPES" "length mime \<le> MAX_MIME_BYTES"
      using assms that sources_inv [of "ses t"] Some
      by (auto simp: tinv_def turn_ok_def types_ok_def hm_len_insert_old intro!: ses_inv_sources split: if_splits)
    moreover have "tkeeps t ?u" by (rule tkeeps_upd) (simp_all add: keeps_simps)
    ultimately show ?thesis
      using assms Some by (auto simp: not_le not_less intro: tsafe_err tsafe_ret tsafe_upd)
  qed (simp add: tsafe_err)
  then show ?thesis unfolding serve_offer_def Let_def by (intro tsafe_wire) auto
qed

lemma ses_inv_sources_remove:
  assumes "ses_inv s"
  shows "ses_inv (s\<lparr>sources := hm_remove i (sources s)\<rparr>)"
  using assms sources_inv [OF assms] length_delete_le [of i "sources s"]
  by (intro ses_inv_sources) (auto split: if_splits)

lemma serve_source_destroy_safe:
  assumes "tinv t" "\<And>ob. obj_get (ses t) obj = Some ob \<Longrightarrow> served (i_name (fst ob))"
  shows "tsafe tinv t (serve_source_destroy obj t)"
proof -
  let ?u = "t\<lparr>ses := (ses t)\<lparr>sources := hm_remove obj (sources (ses t))\<rparr>,
      clip := source_gone (ses_id (ses t)) obj (clip t)\<rparr>"
  have "tkeeps t ?u" by (rule tkeeps_upd) (simp_all add: keeps_simps)
  moreover have u: "tinv ?u" using assms(1) by (simp add: tinv_def turn_ok_def ses_inv_sources_remove)
  moreover have "tsafe tinv ?u (on_ses (served_gone obj) ?u)"
    by (rule tinv_on_ses [OF u], rule served_gone_safe) (use u assms(2) in \<open>simp_all add: tinv_def\<close>)
  ultimately show ?thesis unfolding serve_source_destroy_def by (intro tsafe_from [of t ?u])
qed

lemma serve_set_selection_safe:
  assumes "tinv t"
  shows "tsafe tinv t (serve_set_selection r t)"
proof -
  have k: "tkeeps t (t\<lparr>clip := clip_set sel (clip t)\<rparr>)" for sel
    by (rule tkeeps_upd) simp_all
  have set: "tsafe tinv t (None, t\<lparr>clip := clip_set sel (clip t)\<rparr>)" for sel
    by (rule tsafe_upd [OF k]) (use assms in \<open>simp add: tinv_def turn_ok_def\<close>)
  have "tsafe tinv t (on_ses (cancel s) t)" for s
    by (rule tinv_on_ses [OF assms], rule cancel_safe) (use assms in \<open>simp add: tinv_def\<close>)
  then show ?thesis
    unfolding serve_set_selection_def Let_def
    by (intro tsafe_wire)
      (auto simp: assms tsafe_ret tsafe_err set split: option.splits)
qed

lemma serve_start_drag_safe: "tinv t \<Longrightarrow> tsafe tinv t (serve_start_drag r t)"
  unfolding serve_start_drag_def
  by (intro tsafe_wire) (auto simp: tinv_def intro!: tsafe_ret tinv_on_ses cancel_safe split: if_splits)

lemma serve_release_safe:
  assumes "tinv t" "\<And>ob. obj_get (ses t) obj = Some ob \<Longrightarrow> served (i_name (fst ob))"
  shows "tsafe tinv t (serve_release obj t)"
proof -
  let ?u = "t\<lparr>ses := (ses t)\<lparr>devices := filter (\<lambda>d. d \<noteq> obj) (devices (ses t))\<rparr>\<rparr>"
  have "tkeeps t ?u" by (rule tkeeps_upd) (simp_all add: keeps_simps)
  moreover have u: "tinv ?u" using assms(1) by (simp add: tinv_def turn_ok_def ses_inv_def base_inv_def)
  moreover have "tsafe tinv ?u (on_ses (served_gone obj) ?u)"
    by (rule tinv_on_ses [OF u], rule served_gone_safe) (use u assms(2) in \<open>simp_all add: tinv_def\<close>)
  ultimately show ?thesis unfolding serve_release_def by (intro tsafe_from [of t ?u])
qed

lemma serve_receive_safe:
  assumes "tinv t"
  shows "tsafe tinv t (serve_receive obj r t)"
proof (cases "fds t" rule: rev_cases)
  case Nil
  then show ?thesis unfolding serve_receive_def using assms by (intro tsafe_wire) (auto intro: tsafe_ret)
next
  case (snoc fs f)
  let ?u = "t\<lparr>fds := fs\<rparr>"
  have "tkeeps t (?u\<lparr>ses := drop_fds [f] (ses t)\<rparr>)"
    using snoc keeps_drop_fds [of "[f]" "ses t"]
    by (auto simp: tkeeps_def turn_fds_def keeps_def drop_fds_def algebra_simps)
  moreover have "tinv (?u\<lparr>ses := drop_fds [f] (ses t)\<rparr>)"
    using assms snoc by (simp add: tinv_def turn_ok_def drop_fds_def ses_inv_def base_inv_def)
  moreover have "tkeeps t (?u\<lparr>clip := (clip t)\<lparr>actions := actions (clip t) @ [Send a b c f]\<rparr>\<rparr>)" for a b c
    using snoc by (simp add: tkeeps_def turn_fds_def same_in_def clip_fds_def)
  moreover have "tinv (?u\<lparr>clip := x\<rparr>)" for x using assms snoc by (simp add: tinv_def turn_ok_def)
  ultimately show ?thesis
    unfolding serve_receive_def Let_def using snoc
    by (intro tsafe_wire) (auto intro!: tsafe_upd split: option.splits)
qed

lemma serve_offer_destroy_safe:
  assumes "tinv t" "\<And>ob. obj_get (ses t) obj = Some ob \<Longrightarrow> served (i_name (fst ob))"
  shows "tsafe tinv t (serve_offer_destroy obj t)"
proof -
  let ?u = "t\<lparr>ses := (ses t)\<lparr>offers := hm_remove obj (offers (ses t))\<rparr>\<rparr>"
  have "tkeeps t ?u" by (rule tkeeps_upd) (simp_all add: keeps_simps)
  moreover have u: "tinv ?u" using assms(1) by (simp add: tinv_def turn_ok_def ses_inv_offers)
  moreover have "tsafe tinv ?u (on_ses (remove_object obj) ?u)"
    by (rule tinv_on_ses [OF u], rule remove_served_safe) (use u assms(2) in \<open>simp_all add: tinv_def\<close>)
  ultimately show ?thesis unfolding serve_offer_destroy_def by (intro tsafe_from [of t ?u])
qed

lemma serve_safe:
  assumes "tinv t" "\<And>ob. obj_get (ses t) obj = Some ob \<Longrightarrow> served (i_name (fst ob))"
  shows "tsafe tinv t (serve iface request obj body t)"
proof -
  have dev: "tsafe tinv t (try_val (wire (ar_u32 r)) t
      (\<lambda>(i, _). (None, t\<lparr>ses := (ses t)\<lparr>devices := devices (ses t) @ [i]\<rparr>\<rparr>)))" for r
    using assms(1)
    by (intro tsafe_wire) (auto simp: tinv_def turn_ok_def ses_inv_def base_inv_def keeps_simps
        intro!: tsafe_upd tkeeps_upd)
  show ?thesis
    unfolding serve_def Let_def
    by (intro tsafe_if dev tsafe_ret assms(1) serve_create_source_safe [OF assms(1)]
        serve_offer_safe [OF assms(1)] serve_source_destroy_safe [OF assms] serve_set_selection_safe [OF assms(1)]
        serve_start_drag_safe [OF assms(1)] serve_release_safe [OF assms] serve_receive_safe [OF assms(1)]
        serve_offer_destroy_safe [OF assms])
qed

end
