(* ===== verification/Pump_Safe.thy ===== *)
theory Pump_Safe
  imports Pump_Inv
begin

text \<open>
  The blocks of \<open>pump\<close>, one by one and composed: no request and no event takes a session out of its
  invariant. The properties of a whole pass and of the loop end the theory.
\<close>

section \<open>A message and its signature\<close>

definition x_table :: "mctx \<Rightarrow> message list" where
  "x_table x = (case x_dir x of ClientToServer \<Rightarrow> i_requests (x_iface x) | ServerToClient \<Rightarrow> i_events (x_iface x))"

definition ctx_ok :: "mctx \<Rightarrow> session \<Rightarrow> bool" where
  "ctx_ok x s \<longleftrightarrow> x_iface x \<in> set INTERFACES \<and> x_m x \<in> set (x_table x)
     \<and> obj_get s (hd_object (x_h x)) = Some (x_iface x, x_version x)
     \<and> decode (x_m x) (x_body x) = Inr (x_dec x) \<and> fits_batch (x_msg x) []"

lemma interface_unique: "i \<in> set INTERFACES \<Longrightarrow> find n = Some j \<Longrightarrow> i_name i = n \<Longrightarrow> i = j"
  by (metis find_Some option.inject)

lemma find_wl_shm: "find ''wl_shm'' = Some if_wl_shm"
  by (simp add: find_Some INTERFACES_def if_wl_shm_def)

lemma find_wl_shm_pool: "find ''wl_shm_pool'' = Some if_wl_shm_pool"
  by (simp add: find_Some INTERFACES_def if_wl_shm_pool_def)

lemma decode_arg_new_object:
  "decode_arg a r d = Inr (d', r') \<Longrightarrow> new_object d = Some ob \<Longrightarrow> new_object d' = Some ob"
  by (cases "(a, r, d)" rule: decode_arg.cases)
    (auto simp: bind_res_eq_Inr created_def Let_def split: option.splits if_splits)

lemma decode_args_new_object:
  "decode_args as r d = Inr (d', r') \<Longrightarrow> new_object d = Some ob \<Longrightarrow> new_object d' = Some ob"
  by (induction as arbitrary: r d)
    (auto simp: bind_res_eq_Inr dest: decode_arg_new_object)

text \<open>A first argument that is a new id is the object the message creates.\<close>

lemma decode_first_new_id:
  assumes "m_args m = Arg_NewId (Some n) # as" "decode m b = Inr d"
  shows "\<exists>i r. ar_u32 (ar_new b) = Inr (i, r) \<and> new_object d = Some (i, n)"
  using assms decode_args_new_object [of as]
  by (auto simp: decode_def bind_res_eq_Inr created_def decoded_default_def split: if_splits)

lemma create_pool_new:
  assumes "ctx_ok x s" "x_dir x = ClientToServer" "is_req x ''wl_shm'' ''create_pool''"
  shows "\<exists>i r. ar_u32 (ar_new (x_body x)) = Inr (i, r) \<and> new_object (x_dec x) = Some (i, ''wl_shm_pool'')"
proof -
  have "x_iface x = if_wl_shm"
    using assms interface_unique [OF _ find_wl_shm] by (simp add: ctx_ok_def)
  then have "m_args (x_m x) = [Arg_NewId (Some ''wl_shm_pool''), Arg_Fd, Arg_Int]"
    using assms by (auto simp: ctx_ok_def x_table_def if_wl_shm_def)
  then show ?thesis using decode_first_new_id assms(1) unfolding ctx_ok_def by blast
qed

lemma create_buffer_new:
  assumes "ctx_ok x s" "x_dir x = ClientToServer" "is_req x ''wl_shm_pool'' ''create_buffer''"
  shows "\<exists>i. new_object (x_dec x) = Some (i, ''wl_buffer'')"
proof -
  have "x_iface x = if_wl_shm_pool"
    using assms interface_unique [OF _ find_wl_shm_pool] by (simp add: ctx_ok_def)
  then have "m_args (x_m x) = [Arg_NewId (Some ''wl_buffer''), Arg_Int, Arg_Int, Arg_Int, Arg_Int, Arg_Uint]"
    using assms by (auto simp: ctx_ok_def x_table_def if_wl_shm_pool_def)
  then show ?thesis using decode_first_new_id assms(1) unfolding ctx_ok_def by blast
qed

section \<open>Pools and buffers\<close>

lemma typed_not_live:
  assumes "typed_new None s" "obj_get s i = None"
  shows "hm_get (pool_ids s) i = None" "hm_get (buffer_pools s) i = None"
  using assms by (auto simp: typed_new_def has_name_def)

lemma hm_sum_zero:
  assumes "hm_ok m" "\<And>j v. hm_get m j = Some v \<Longrightarrow> f v = 0"
  shows "hm_sum f m = 0"
proof -
  have "f (snd kv) = 0" if "kv \<in> set m" for kv
    using assms that by (metis map_of_is_SomeI prod.collapse)
  then show ?thesis by (simp add: hm_sum_def sum_list_eq_0_iff)
qed

lemma mset_hm_insert_new:
  "hm_get m k = None \<Longrightarrow>
    mset (map (\<lambda>kv. f (snd kv)) (hm_insert k v m)) = add_mset (f v) (mset (map (\<lambda>kv. f (snd kv)) m))"
  by (induction m) (auto split: if_splits)

lemma fresh_generation:
  assumes inv: "pool_inv [] s" and g: "next_pool s < g"
  shows "hm_get (pools s) g = None" "buffer_count g (buffer_pools s) = 0" "held_count g (surfaces s) = 0"
    "hm_get (pool_ids s) i \<noteq> Some g"
proof -
  show none: "hm_get (pools s) g = None"
    using pool_invD(5) [OF inv, of g] g by (cases "hm_get (pools s) g") (auto simp: pool_ok_def)
  have nobuf: "hm_get (buffer_pools s) j \<noteq> Some g" for j
    using pool_invD(3) [OF inv] none unfolding ids_ok_def by blast
  show "hm_get (pool_ids s) i \<noteq> Some g"
    using pool_invD(3) [OF inv] none unfolding ids_ok_def by blast
  have ok: "hm_ok (buffer_pools s)" "hm_ok (surfaces s)"
    using pool_invD(1) [OF inv] by (simp_all add: maps_ok_def)
  show "buffer_count g (buffer_pools s) = 0"
    unfolding buffer_count_def by (rule hm_sum_zero [OF ok(1)]) (use nobuf in auto)
  have "count_list (held sf) (Some g) = 0" if "hm_get (surfaces s) j = Some sf" for j sf
    using pool_invD(6) [OF inv that] g by (auto simp: surf_ok_def count_list_0_iff)
  then show "held_count g (surfaces s) = 0"
    unfolding held_count_def by (rule hm_sum_zero [OF ok(2)])
qed

lemma surf_ok_mono: "surf_ok n sf \<Longrightarrow> n \<le> n' \<Longrightarrow> surf_ok n' sf"
  by (auto simp: surf_ok_def)

lemma pool_inv_create:
  assumes inv: "pool_inv [] s" and i: "hm_get (pool_ids s) i = None"
    and sz: "n \<le> MAX_SHM_POOL_BYTES" "shm_pool_count s < MAX_SHM_POOLS_PER_SESSION"
      "shm_pool_bytes s + n \<le> MAX_SHM_BYTES_PER_SESSION"
    and p: "p = \<lparr>p_size = n, p_buffers = 0, p_deleted = False, p_held = 0, p_fd = copy, p_file = devino, p_range = n\<rparr>"
  shows "pool_inv [] (s\<lparr>next_pool := next_pool s + 1, shm_pool_count := shm_pool_count s + 1,
    shm_pool_bytes := shm_pool_bytes s + n, pool_ids := hm_insert i (next_pool s + 1) (pool_ids s),
    pools := hm_insert (next_pool s + 1) p (pools s), ses_opened := ops\<rparr>)"
proof -
  let ?g = "next_pool s + 1"
  note fr = fresh_generation [OF inv, of ?g]
  have len: "length (hm_insert ?g p (pools s)) = Suc (length (pools s))"
    using fr(1) by (intro hm_len_insert_new) simp
  have sum: "hm_sum p_range (hm_insert ?g p (pools s)) = n + hm_sum p_range (pools s)"
    using fr(1) hm_sum_insert_new [of "pools s" ?g p_range p] by (simp add: p)
  have "maps_ok s" "budget_ok s" "ids_ok s" using pool_invD [OF inv] by auto
  then show ?thesis
    using inv i sz len sum fr p surf_ok_mono [of "next_pool s" _ ?g]
    by (auto simp: pool_inv_def budget_ok_def maps_ok_def ids_ok_def pool_ok_def le_Suc_eq split: if_splits)
      (metis option.distinct(1))+
qed

lemma c2s_create_pool_safe:
  assumes t: "tinv t" and x: "ctx_ok x (ses t)" "x_dir x = ClientToServer" "is_req x ''wl_shm'' ''create_pool''"
  shows "tsafe (tmid (new_object (x_dec x))) t (c2s_create_pool k x t)"
proof -
  obtain i r where i: "ar_u32 (ar_new (x_body x)) = Inr (i, r)" "new_object (x_dec x) = Some (i, ''wl_shm_pool'')"
    using create_pool_new [OF x] by blast
  let ?s = "ses t"
  have new: "tsafe (tmid (new_object (x_dec x))) t (None, t\<lparr>ses := ?s\<lparr>
      next_pool := next_pool ?s + 1, shm_pool_count := shm_pool_count ?s + 1, shm_pool_bytes := shm_pool_bytes ?s + n,
      pool_ids := hm_insert i (next_pool ?s + 1) (pool_ids ?s),
      pools := hm_insert (next_pool ?s + 1) \<lparr>p_size = n, p_buffers = 0, p_deleted = False, p_held = 0,
         p_fd = copy, p_file = devino, p_range = n\<rparr> (pools ?s),
      ses_opened := ses_opened ?s @ [copy]\<rparr>\<rparr>)"
    if n: "n \<le> MAX_SHM_POOL_BYTES" "shm_pool_count ?s < MAX_SHM_POOLS_PER_SESSION"
      "shm_pool_bytes ?s + n \<le> MAX_SHM_BYTES_PER_SESSION" for n copy devino
  proof -
    let ?p = "\<lparr>p_size = n, p_buffers = 0, p_deleted = False, p_held = 0, p_fd = copy, p_file = devino, p_range = n\<rparr>"
    let ?u = "?s\<lparr>next_pool := next_pool ?s + 1, shm_pool_count := shm_pool_count ?s + 1,
      shm_pool_bytes := shm_pool_bytes ?s + n, pool_ids := hm_insert i (next_pool ?s + 1) (pool_ids ?s),
      pools := hm_insert (next_pool ?s + 1) ?p (pools ?s), ses_opened := ses_opened ?s @ [copy]\<rparr>"
    have inv: "base_inv ?s" "pool_inv [] ?s" "typed_new None ?s" using t by (simp_all add: tinv_def ses_inv_def)
    have "pool_inv [] ?u" if "obj_get ?s i = None"
      by (rule pool_inv_create [OF inv(2) typed_not_live(1) [OF inv(3) that] n refl])
    moreover have "typed_new (Some (i, ''wl_shm_pool'')) ?u"
      using inv(3) by (auto simp: typed_new_def has_name_def obj_get_def split: if_splits)
    moreover have "base_inv ?u" using inv(1) by (simp add: base_inv_def)
    ultimately have "tmid (new_object (x_dec x)) (t\<lparr>ses := ?u\<rparr>)"
      using t i(2) by (simp add: tmid_def mid_inv_def tinv_def turn_ok_def)
    moreover have "tkeeps t (t\<lparr>ses := ?u\<rparr>)"
    proof -
      have "mset (map (\<lambda>kv. p_fd (snd kv)) (hm_insert (next_pool ?s + 1) ?p (pools ?s)))
          = add_mset copy (mset (map (\<lambda>kv. p_fd (snd kv)) (pools ?s)))"
        using fresh_generation(1) [OF inv(2), of "next_pool ?s + 1"] mset_hm_insert_new [of "pools ?s" _ p_fd ?p]
        by simp
      then show ?thesis by (simp add: tkeeps_def same_in_def turn_fds_def ses_fds_def pool_fds_def)
    qed
    ultimately show ?thesis by (intro tsafe_upd)
  qed
  have wire2: "tsafe Q t (try_val (wire (ar_u32 r)) t f)" if "\<And>w r'. tsafe Q t (f (w, r'))" for Q f
    using that by (intro tsafe_wire) auto
  show ?thesis
    unfolding c2s_create_pool_def Let_def using x(3) i(1)
    by (simp add: wire_def [of "Inr _"], intro wire2)
      (auto simp: try_val_def not_le not_less tsafe_err pool_fd_def intro!: new [simplified] split: list.splits sum.splits if_splits)
qed

lemma c2s_resize_safe:
  assumes t: "tinv t"
  shows "tsafe tinv t (c2s_resize x t)"
proof -
  let ?s = "ses t"
  have inv: "base_inv ?s" "pool_inv [] ?s" "typed_new None ?s" using t by (simp_all add: tinv_def ses_inv_def)
  have upd: "tsafe tinv t (None, t\<lparr>ses := ?s\<lparr>shm_pool_bytes := shm_pool_bytes ?s + (n - p_range p),
      pools := hm_insert g (p\<lparr>p_size := n, p_range := p_range p + (n - p_range p)\<rparr>) (pools ?s)\<rparr>\<rparr>)"
    if g: "hm_get (pools ?s) g = Some p" and n: "n \<le> MAX_SHM_POOL_BYTES"
      "shm_pool_bytes ?s + (n - p_range p) \<le> MAX_SHM_BYTES_PER_SESSION" for g p n
  proof -
    let ?p = "p\<lparr>p_size := n, p_range := p_range p + (n - p_range p)\<rparr>"
    let ?u = "?s\<lparr>shm_pool_bytes := shm_pool_bytes ?s + (n - p_range p), pools := hm_insert g ?p (pools ?s)\<rparr>"
    have "hm_sum p_range (hm_insert g ?p (pools ?s)) = hm_sum p_range (pools ?s) + (n - p_range p)"
      using hm_sum_insert_old [OF g, of p_range ?p] by simp
    then have "pool_inv [] ?u"
      using inv(2) n hm_len_insert_old [OF g] pool_invD(5) [OF inv(2) g]
      by (auto simp: pool_inv_def budget_ok_def maps_ok_def ids_ok_def pool_ok_def split: if_splits)
    then have "tinv (t\<lparr>ses := ?u\<rparr>)"
      using t inv by (simp add: tinv_def turn_ok_def ses_inv_def base_inv_def)
    moreover have "tkeeps t (t\<lparr>ses := ?u\<rparr>)"
      using mset_hm_insert_old [OF g, of p_fd ?p]
      by (simp add: tkeeps_def same_in_def turn_fds_def ses_fds_def pool_fds_def)
    ultimately show ?thesis by (intro tsafe_upd)
  qed
  show ?thesis
  proof (cases "hm_get (pool_ids ?s) (hd_object (x_h x))")
    case None
    then show ?thesis
      unfolding c2s_resize_def Let_def
      by (intro tsafe_if tsafe_ret tsafe_wire t) (auto simp: tsafe_err)
  next
    case (Some g)
    then obtain p where p: "hm_get (pools ?s) g = Some p"
      using pool_invD(3) [OF inv(2)] unfolding ids_ok_def by blast
    show ?thesis
      unfolding c2s_resize_def Let_def
      by (intro tsafe_if tsafe_ret tsafe_wire t) (auto simp: Some p tsafe_err not_less not_le upd [OF p])
  qed
qed

lemma buffer_count_insert:
  "hm_get m i = None \<Longrightarrow> buffer_count h (hm_insert i g m) = (if h = g then 1 else 0) + buffer_count h m"
  using hm_sum_insert_new [of m i "\<lambda>g'. if g' = h then 1 else 0" g] by (auto simp: buffer_count_def)

lemma c2s_create_buffer_safe:
  assumes t: "tinv t" and x: "ctx_ok x (ses t)" "x_dir x = ClientToServer" "is_req x ''wl_shm_pool'' ''create_buffer''"
  shows "tsafe (tmid (new_object (x_dec x))) t (c2s_create_buffer x t)"
proof -
  let ?s = "ses t"
  obtain i where i: "new_object (x_dec x) = Some (i, ''wl_buffer'')" using create_buffer_new [OF x] by blast
  have inv: "base_inv ?s" "pool_inv [] ?s" "typed_new None ?s" using t by (simp_all add: tinv_def ses_inv_def)
  show ?thesis
  proof (cases "hm_get (pool_ids ?s) (hd_object (x_h x))")
    case None
    then show ?thesis using x(3) i by (simp add: c2s_create_buffer_def Let_def tsafe_err)
  next
    case (Some g)
    then obtain p where p: "hm_get (pools ?s) g = Some p"
      using pool_invD(3) [OF inv(2)] unfolding ids_ok_def by blast
    let ?p = "p\<lparr>p_buffers := p_buffers p + 1\<rparr>"
    let ?u = "?s\<lparr>buffer_pools := hm_insert i g (buffer_pools ?s), pools := hm_insert g ?p (pools ?s)\<rparr>"
    have "hm_sum p_range (hm_insert g ?p (pools ?s)) = hm_sum p_range (pools ?s)"
      using hm_sum_insert_old [OF p, of p_range ?p] by simp
    then have "pool_inv [] ?u" if "obj_get ?s i = None"
      using inv(2) p hm_len_insert_old [OF p] buffer_count_insert [OF typed_not_live(2) [OF inv(3) that]]
      by (auto simp: pool_inv_def budget_ok_def maps_ok_def ids_ok_def pool_ok_def split: if_splits)
    moreover have "typed_new (Some (i, ''wl_buffer'')) ?u"
      using inv(3) by (auto simp: typed_new_def has_name_def obj_get_def split: if_splits)
    moreover have "base_inv ?u" using inv(1) by (simp add: base_inv_def)
    ultimately have "tmid (new_object (x_dec x)) (t\<lparr>ses := ?u\<rparr>)"
      using t i by (simp add: tmid_def mid_inv_def tinv_def turn_ok_def)
    moreover have "tkeeps t (t\<lparr>ses := ?u\<rparr>)"
      using mset_hm_insert_old [OF p, of p_fd ?p]
      by (simp add: tkeeps_def same_in_def turn_fds_def ses_fds_def pool_fds_def)
    ultimately show ?thesis using x(3) i Some p by (simp add: c2s_create_buffer_def Let_def tsafe_upd)
  qed
qed

section \<open>Surfaces\<close>

lemma tsafe_wire_pair:
  "(\<And>a b. r = Inr (a, b) \<Longrightarrow> tsafe Q t (f a b)) \<Longrightarrow> tsafe Q t (try_val (wire r) t (\<lambda>(a, b). f a b))"
  by (intro tsafe_wire) auto

lemma pool_inv_surface_upd:
  assumes inv: "pool_inv fl s" and h: "held sf' = held (surface_or_default s i)" and ok: "surf_ok (next_pool s) sf'"
  shows "pool_inv fl (s\<lparr>surfaces := hm_insert i sf' (surfaces s)\<rparr>)"
proof -
  have "held_count g (hm_insert i sf' (surfaces s)) = held_count g (surfaces s)" for g
  proof (cases "hm_get (surfaces s) i")
    case None
    then show ?thesis using h hm_sum_insert_new [OF None, of "\<lambda>sf. count_list (held sf) (Some g)" sf']
      by (simp add: held_count_def surface_or_default_def surface_default_def)
  next
    case (Some sf)
    then show ?thesis using h hm_sum_insert_old [OF Some, of "\<lambda>sf. count_list (held sf) (Some g)" sf']
      by (simp add: held_count_def surface_or_default_def)
  qed
  then show ?thesis
    using inv ok by (auto simp: pool_inv_def budget_ok_def maps_ok_def ids_ok_def pool_ok_def split: if_splits)
qed

lemma surf_ok_default:
  assumes "pool_inv fl s"
  shows "surf_ok (next_pool s) (surface_or_default s i)"
  using pool_invD(6) [OF assms, of i]
  by (auto simp: surface_or_default_def surface_default_def surf_ok_def split: option.splits)

lemma ses_inv_pools:
  "ses_inv s \<Longrightarrow> pool_inv [] (s\<lparr>surfaces := x\<rparr>) \<Longrightarrow> ses_inv (s\<lparr>surfaces := x\<rparr>)"
  by (simp add: ses_inv_def base_inv_def)

lemma c2s_attach_safe:
  assumes t: "tinv t"
  shows "tsafe tinv t (c2s_attach x t)"
proof -
  let ?s = "ses t"
  have inv: "pool_inv [] ?s" "ses_inv ?s" using t by (simp_all add: tinv_def ses_inv_def)
  have "surf_ok (next_pool ?s) ((surface_or_default ?s i)\<lparr>pending := Some (hm_get (buffer_pools ?s) b)\<rparr>)" for i b
  proof -
    have "g \<le> next_pool ?s" if g: "hm_get (buffer_pools ?s) b = Some g" for g
    proof -
      obtain p where "hm_get (pools ?s) g = Some p"
        using pool_invD(3) [OF inv(1)] g unfolding ids_ok_def by blast
      then show ?thesis using pool_invD(5) [OF inv(1)] by (simp add: pool_ok_def)
    qed
    then show ?thesis using surf_ok_default [OF inv(1), of i] by (auto simp: surf_ok_def)
  qed
  then have "ses_inv (?s\<lparr>surfaces := hm_insert i
      ((surface_or_default ?s i)\<lparr>pending := Some (hm_get (buffer_pools ?s) b)\<rparr>) (surfaces ?s)\<rparr>)" for i b
    by (intro ses_inv_pools [OF inv(2)] pool_inv_surface_upd [OF inv(1)]) simp_all
  moreover have "tkeeps t (t\<lparr>ses := ?s\<lparr>surfaces := y\<rparr>\<rparr>)" for y
    by (rule tkeeps_upd) (simp_all add: keeps_simps)
  ultimately show ?thesis
    unfolding c2s_attach_def Let_def using t
    by (intro tsafe_if tsafe_ret tsafe_wire t) (auto simp: tinv_def turn_ok_def intro!: tsafe_upd)
qed

lemma surf_post_safe:
  assumes inv: "ses_inv s" and post: "surf_post [] s s'"
  shows "ses_inv s'" "keeps [] s s'"
proof -
  have p: "pools_only s s'" "pool_inv [] s'" "pool_fds s' = pool_fds s" using post by (simp_all add: surf_post_def)
  note fr = pools_onlyD [OF p(1)]
  have "base_inv s'" using inv by (simp add: ses_inv_def base_inv_def obj_inv_def misc_inv_def obj_get_def fr)
  moreover have "typed_new None s'"
    using inv by (simp add: ses_inv_def typed_new_def has_name_def obj_get_def fr)
  ultimately show "ses_inv s'" using p(2) by (simp add: ses_inv_def)
  show "keeps [] s s'" using p(3) by (simp add: keeps_simps ses_fds_def fr)
qed

lemma surf_post_run:
  assumes "ses_inv s" "\<exists>r s'. f s = (r, s') \<and> r \<noteq> Some Panic \<and> surf_post [] s s'"
  shows "safe [] ses_inv s (f s)"
  using assms surf_post_safe by (auto simp: safe_def)

lemma ses_inv_pool_inv: "ses_inv s \<Longrightarrow> pool_inv [] s"
  by (simp add: ses_inv_def)

lemma c2s_commit_safe: "tinv t \<Longrightarrow> tsafe tinv t (c2s_commit k x t)"
  unfolding c2s_commit_def
  by (intro tsafe_if tsafe_ret tinv_on_ses surf_post_run commit_cases ses_inv_pool_inv) (simp_all add: tinv_def)

lemma detach_safe: "ses_inv s \<Longrightarrow> safe [] ses_inv s (detach k i s)"
  using detach_ok [of "[]" s k i] by (intro surf_post_run) (auto simp: ses_inv_def)

lemma set_desync_safe:
  assumes inv: "ses_inv s" and i: "hm_get (surfaces s) i = Some sf"
  shows "safe [] ses_inv s (set_desync k i s)"
proof (rule surf_post_run [OF inv])
  let ?t = "s\<lparr>surfaces := hm_insert i (sf\<lparr>sync := False\<rparr>) (surfaces s)\<rparr>"
  have t: "surf_post [] s ?t"
    by (rule surf_post_surface_keep [OF ses_inv_pool_inv [OF inv] i]) simp_all
  then obtain u where "apply_surface k i ?t = (None, u)" "surf_post [] ?t u"
    using apply_surface_ok [of "[]" ?t k i] by (auto simp: surf_post_def)
  with t show "\<exists>r s'. set_desync k i s = (r, s') \<and> r \<noteq> Some Panic \<and> surf_post [] s s'"
    using surf_post_trans [OF t] by (auto simp: set_desync_def i Let_def)
qed

lemma live_subsurface_Some:
  "live_subsurface s ob = Some i \<Longrightarrow> \<exists>sf. hm_get (surfaces s) i = Some sf"
  by (auto simp: live_subsurface_def split: option.splits if_splits)

lemma ses_inv_subsurfaces:
  "ses_inv s \<Longrightarrow> length x \<le> MAX_SUBSURFACES_PER_SESSION \<Longrightarrow> ses_inv (s\<lparr>subsurfaces := x\<rparr>)"
  by (simp add: ses_inv_def base_inv_def misc_inv_def)

lemma c2s_subsurface_safe:
  assumes t: "tinv t"
  shows "tsafe tinv t (c2s_subsurface k x t)"
proof -
  let ?s = "ses t" and ?ob = "hd_object (x_h x)"
  let ?u = "t\<lparr>ses := ?s\<lparr>subsurfaces := hm_remove ?ob (subsurfaces ?s)\<rparr>\<rparr>"
  have inv: "ses_inv ?s" using t by (simp add: tinv_def)
  have "length (hm_remove ?ob (subsurfaces ?s)) \<le> MAX_SUBSURFACES_PER_SESSION"
    using inv length_delete_le [of ?ob "subsurfaces ?s"] by (simp add: ses_inv_def base_inv_def misc_inv_def)
  then have u: "tinv ?u" using t ses_inv_subsurfaces [OF inv] by (simp add: tinv_def turn_ok_def)
  have ku: "tkeeps t ?u" by (rule tkeeps_upd) (simp_all add: keeps_simps)
  have gone: "tsafe tinv t (None, ?u)" by (rule tsafe_upd [OF ku]) (rule u)
  have det: "tsafe tinv t (on_ses (detach k i) ?u)" for i
    by (rule tsafe_from [OF ku], rule tinv_on_ses [OF u], rule detach_safe) (use u in \<open>simp add: tinv_def\<close>)
  have syn: "tsafe tinv t (None, t\<lparr>ses := ?s\<lparr>surfaces := hm_insert i (sf\<lparr>sync := True\<rparr>) (surfaces ?s)\<rparr>\<rparr>)"
    if "hm_get (surfaces ?s) i = Some sf" for i sf
  proof -
    have "surf_post [] ?s (?s\<lparr>surfaces := hm_insert i (sf\<lparr>sync := True\<rparr>) (surfaces ?s)\<rparr>)"
      by (rule surf_post_surface_keep [OF ses_inv_pool_inv [OF inv] that]) simp_all
    from surf_post_safe [OF inv this] t show ?thesis
      by (intro tsafe_upd tkeeps_upd) (simp_all add: tinv_def turn_ok_def)
  qed
  have des: "tsafe tinv t (on_ses (set_desync k i) t)" if "hm_get (surfaces ?s) i = Some sf" for i sf
    by (rule tinv_on_ses [OF t], rule set_desync_safe [OF inv that])
  show ?thesis
  proof (cases "live_subsurface ?s ?ob")
    case None
    then show ?thesis
      unfolding c2s_subsurface_def Let_def by (simp add: tsafe_ret t gone)
  next
    case (Some i)
    then obtain sf where "hm_get (surfaces ?s) i = Some sf" using live_subsurface_Some by blast
    then show ?thesis
      unfolding c2s_subsurface_def Let_def using Some syn [of i sf] des [of i sf] det [of i]
      by (simp add: tsafe_ret t)
  qed
qed

lemma surfaces_twice:
  assumes inv: "pool_inv [] s"
  shows "pool_inv [] (s\<lparr>surfaces := hm_insert a ((surface_or_default s a)\<lparr>role := r, sf_parent := p, sync := y\<rparr>) (surfaces s)\<rparr>)"
    "pool_inv [] (s\<lparr>surfaces := hm_insert a ((surface_or_default s a)\<lparr>children := c\<rparr>) (surfaces s)\<rparr>)"
  using surf_ok_default [OF inv, of a]
  by (intro pool_inv_surface_upd [OF inv]; simp add: surf_ok_def)+

lemma c2s_get_subsurface_safe:
  assumes t: "tinv t"
  shows "tsafe tinv t (c2s_get_subsurface x t)"
proof -
  let ?s = "ses t"
  have inv: "ses_inv ?s" using t by (simp add: tinv_def)
  have new: "tsafe tinv t (None, t\<lparr>ses := (let s = ?s\<lparr>surfaces := hm_insert surf
        ((surface_or_default ?s surf)\<lparr>role := Some i, sf_parent := Some par, sync := True\<rparr>) (surfaces ?s)\<rparr>;
          pf = surface_or_default s par in
        s\<lparr>surfaces := hm_insert par (pf\<lparr>children := children pf @ [surf]\<rparr>) (surfaces s),
          subsurfaces := hm_insert i surf (subsurfaces s)\<rparr>)\<rparr>)"
    if "length (subsurfaces ?s) < MAX_SUBSURFACES_PER_SESSION" for i surf par
  proof -
    define s1 where "s1 = ?s\<lparr>surfaces := hm_insert surf
        ((surface_or_default ?s surf)\<lparr>role := Some i, sf_parent := Some par, sync := True\<rparr>) (surfaces ?s)\<rparr>"
    define s2 where "s2 = s1\<lparr>surfaces := hm_insert par ((surface_or_default s1 par)\<lparr>children :=
        children (surface_or_default s1 par) @ [surf]\<rparr>) (surfaces s1)\<rparr>"
    have s1: "ses_inv s1" unfolding s1_def
      by (rule ses_inv_pools [OF inv surfaces_twice(1) [OF ses_inv_pool_inv [OF inv]]])
    have s2: "ses_inv s2" unfolding s2_def
      by (rule ses_inv_pools [OF s1 surfaces_twice(2) [OF ses_inv_pool_inv [OF s1]]])
    have "length (hm_insert i surf (subsurfaces s2)) \<le> MAX_SUBSURFACES_PER_SESSION"
      using hm_len_insert_le [of i surf "subsurfaces s2"] that by (simp add: s2_def s1_def)
    then have "tinv (t\<lparr>ses := s2\<lparr>subsurfaces := hm_insert i surf (subsurfaces s2)\<rparr>\<rparr>)"
      using t ses_inv_subsurfaces [OF s2] by (simp add: tinv_def turn_ok_def)
    moreover have "tkeeps t (t\<lparr>ses := s2\<lparr>subsurfaces := z\<rparr>\<rparr>)" for z
      by (rule tkeeps_upd) (simp_all add: keeps_simps s2_def s1_def)
    ultimately show ?thesis
      unfolding Let_def s1_def [symmetric] by (intro tsafe_upd) (simp_all add: s2_def)
  qed
  show ?thesis
    unfolding c2s_get_subsurface_def Let_def
    by (intro tsafe_if tsafe_ret tsafe_wire_pair t tsafe_err new [unfolded Let_def]) simp_all
qed

end
