(* ===== verification/Pump_Loop.thy ===== *)
theory Pump_Loop
  imports Pump_Safe
begin

text \<open>
  A whole pass of \<open>pump\<close> and its loop. The theorems here are about any bytes and descriptors from
  either side: a session stays in its invariant, its loop ends, and no descriptor is lost.
\<close>

section \<open>Requests\<close>

lemma c2s_bind_safe:
  assumes t: "tinv t"
  shows "tsafe tinv t (c2s_bind x t)"
proof -
  have upd: "tsafe tinv t (None, t\<lparr>ses := (ses t)\<lparr>outputs := y\<rparr>, forward := z\<rparr>)"
      "tsafe tinv t (None, t\<lparr>forward := z\<rparr>)" for y z
    by (intro tsafe_upd tkeeps_upd; use t in \<open>simp add: keeps_simps tinv_def turn_ok_def ses_inv_def base_inv_def\<close>)+
  show ?thesis
    unfolding c2s_bind_def Let_def
    by (intro tsafe_if tsafe_ret t)
      (auto simp: tsafe_err upd intro!: tsafe_wire_pair split: option.splits)
qed

lemma c2s_serve_safe:
  assumes t: "tinv t" and x: "ctx_ok x (ses t)"
  shows "tsafe tinv t (c2s_serve x t)"
proof -
  let ?u = "t\<lparr>forward := False\<rparr>"
  have u: "tinv ?u" using t by (simp add: tinv_def turn_ok_def)
  have ku: "tkeeps t ?u" by (rule tkeeps_upd) simp_all
  have "tsafe tinv t (serve (i_name (x_iface x)) m (hd_object (x_h x)) b ?u)" if "served (i_name (x_iface x))" for m b
    by (rule tsafe_from [OF ku], rule serve_safe [OF u]) (use x that in \<open>auto simp: ctx_ok_def\<close>)
  then show ?thesis
    unfolding c2s_serve_def using t by (intro tsafe_if tsafe_ret) auto
qed

lemma title_for_total: "\<exists>new. title_for z s = Some new"
  using bound_utf8_Some [of MAX_TITLE_BYTES] by (auto simp: title_for_def Let_def MAX_TITLE_BYTES_def)

lemma c2s_identity_safe:
  assumes t: "tinv t"
  shows "tsafe tinv t (c2s_identity x t)"
proof -
  have upd: "tsafe tinv t (None, t\<lparr>rewritten := Some b, ses := (ses t)\<lparr>rewritten_count := y\<rparr>\<rparr>)"
    if "mw_finish w = Some b" for b w y
    by (intro tsafe_upd tkeeps_upd)
      (use t mw_finish_fits [OF that] in \<open>auto simp: keeps_simps tinv_def turn_ok_def ses_inv_def base_inv_def\<close>)
  obtain new where new: "(if m_name (x_m x) = ''set_title'' then title_for (zone (ses t)) str
      else Some (app_id_for (zone (ses t)) str)) = Some (new str)" for str
    using title_for_total [of "zone (ses t)"] by (metis option.distinct(1))
  show ?thesis
    unfolding c2s_identity_def new
    by (intro tsafe_if tsafe_ret t) (auto simp: tsafe_err tsafe_ret t upd split: list.splits option.splits)
qed

lemma c2s_stamp_safe:
  assumes t: "tinv t"
  shows "tsafe tinv t (c2s_stamp x t)"
proof -
  have upd: "tsafe tinv t (None, t\<lparr>stamp := Some b\<rparr>)" if "mw_finish w = Some b" for b w
    by (intro tsafe_upd tkeeps_upd)
      (use t mw_finish_fits [OF that] in \<open>auto simp: keeps_simps tinv_def turn_ok_def\<close>)
  show ?thesis
    unfolding c2s_stamp_def
    by (intro tsafe_if tsafe_ret t) (auto simp: tsafe_err tsafe_ret t upd split: option.splits)
qed

text \<open>A request is the concern of one block at most.\<close>

lemma andthen_ret [simp]: "andthen r (\<lambda>t. (None, t)) = r"
  by (cases r) (auto simp: andthen_def split: option.splits)

lemma c2s_skips:
  "\<not> (i_name (x_iface x) = ''wl_registry'' \<and> hd_opcode (x_h x) = WL_REGISTRY_BIND) \<Longrightarrow> c2s_bind x t = (None, t)"
  "\<not> served (i_name (x_iface x)) \<Longrightarrow> c2s_serve x t = (None, t)"
  "i_name (x_iface x) \<noteq> ''xdg_toplevel'' \<Longrightarrow> c2s_identity x t = (None, t)"
  "\<not> is_req x ''wl_shm'' ''create_pool'' \<Longrightarrow> c2s_create_pool k x t = (None, t)"
  "\<not> is_req x ''wl_shm_pool'' ''resize'' \<Longrightarrow> c2s_resize x t = (None, t)"
  "\<not> is_req x ''wl_shm_pool'' ''create_buffer'' \<Longrightarrow> c2s_create_buffer x t = (None, t)"
  "\<not> is_req x ''wl_surface'' ''attach'' \<Longrightarrow> c2s_attach x t = (None, t)"
  "\<not> is_req x ''wl_surface'' ''commit'' \<Longrightarrow> c2s_commit k x t = (None, t)"
  "\<not> is_req x ''wl_subcompositor'' ''get_subsurface'' \<Longrightarrow> c2s_get_subsurface x t = (None, t)"
  "i_name (x_iface x) \<noteq> ''wl_subsurface'' \<Longrightarrow> c2s_subsurface k x t = (None, t)"
  "\<not> is_req x ''xdg_surface'' ''get_toplevel'' \<Longrightarrow> c2s_stamp x t = (None, t)"
  by (simp_all add: c2s_bind_def c2s_serve_def c2s_identity_def c2s_create_pool_def c2s_resize_def
      c2s_create_buffer_def c2s_attach_def c2s_commit_def c2s_get_subsurface_def c2s_subsurface_def c2s_stamp_def)

lemma c2s_one_block:
  "c2s k x t =
     (let n = i_name (x_iface x) in
      if n = ''wl_registry'' then c2s_bind x t
      else if served n then c2s_serve x t
      else if n = ''xdg_toplevel'' then c2s_identity x t
      else if n = ''wl_shm'' then c2s_create_pool k x t
      else if n = ''wl_shm_pool'' then
        (if m_name (x_m x) = ''create_buffer'' then c2s_create_buffer x t else c2s_resize x t)
      else if n = ''wl_surface'' then
        (if m_name (x_m x) = ''attach'' then c2s_attach x t else c2s_commit k x t)
      else if n = ''wl_subcompositor'' then c2s_get_subsurface x t
      else if n = ''wl_subsurface'' then c2s_subsurface k x t
      else c2s_stamp x t)"
proof -
  note blocks = c2s_def Let_def c2s_skips served_def SERVED_def
  have others: "n \<notin> {''wl_registry'', ''xdg_toplevel'', ''wl_shm'', ''wl_shm_pool'', ''wl_surface'',
      ''wl_subcompositor'', ''wl_subsurface'', ''xdg_surface''}" if "served n" for n
    using that by (auto simp: served_def SERVED_def)
  consider (reg) "i_name (x_iface x) = ''wl_registry''"
    | (served) "served (i_name (x_iface x))" "i_name (x_iface x) \<notin> {''wl_registry'', ''xdg_toplevel'', ''wl_shm'',
         ''wl_shm_pool'', ''wl_surface'', ''wl_subcompositor'', ''wl_subsurface'', ''xdg_surface''}"
    | (top) "i_name (x_iface x) = ''xdg_toplevel''" | (shm) "i_name (x_iface x) = ''wl_shm''"
    | (pool) "i_name (x_iface x) = ''wl_shm_pool''" | (surf) "i_name (x_iface x) = ''wl_surface''"
    | (subc) "i_name (x_iface x) = ''wl_subcompositor''" | (subs) "i_name (x_iface x) = ''wl_subsurface''"
    | (other) "i_name (x_iface x) \<notin> {''wl_registry'', ''xdg_toplevel'', ''wl_shm'', ''wl_shm_pool'', ''wl_surface'',
         ''wl_subcompositor'', ''wl_subsurface''}" "\<not> served (i_name (x_iface x))"
    using others by blast
  then show ?thesis
  proof cases
    case served
    then show ?thesis by (simp add: c2s_def Let_def c2s_skips)
  next
    case pool
    then show ?thesis by (cases "m_name (x_m x) = ''create_buffer''") (simp_all add: blocks)
  next
    case surf
    then show ?thesis by (cases "m_name (x_m x) = ''attach''") (simp_all add: blocks)
  next
    case subs
    then have "c2s_stamp x = (\<lambda>t. (None, t))" by (intro ext) (simp add: c2s_skips)
    then show ?thesis using subs by (simp add: blocks)
  next
    case other
    then show ?thesis by (simp add: c2s_def Let_def c2s_skips)
  qed (simp_all add: blocks)
qed

lemma c2s_safe:
  assumes t: "tinv t" and x: "ctx_ok x (ses t)" "x_dir x = ClientToServer"
  shows "tsafe (tmid (new_object (x_dec x))) t (c2s k x t)"
proof -
  note w = tsafe_weaken [OF _ tinv_tmid]
  have pool: "tsafe (tmid (new_object (x_dec x))) t (c2s_create_pool k x t)" if "i_name (x_iface x) = ''wl_shm''"
    using c2s_create_pool_safe [OF t x] that c2s_skips(4) [of x k t] tsafe_ret [of "tmid _" t] tinv_tmid [OF t]
    by (cases "m_name (x_m x) = ''create_pool''") auto
  show ?thesis
    unfolding c2s_one_block Let_def
    by (intro tsafe_if pool c2s_create_buffer_safe [OF t x] w [OF c2s_bind_safe [OF t]] w [OF c2s_serve_safe [OF t x(1)]]
        w [OF c2s_identity_safe [OF t]] w [OF c2s_resize_safe [OF t]] w [OF c2s_attach_safe [OF t]]
        w [OF c2s_commit_safe [OF t]] w [OF c2s_get_subsurface_safe [OF t]] w [OF c2s_subsurface_safe [OF t]]
        w [OF c2s_stamp_safe [OF t]]) simp_all
qed

section \<open>Events\<close>

lemma allowed_caps_parse: "caps_parse (ALLOWED @ [HOLD_AWAKE])"
  by code_simp

lemma allowed_found:
  assumes "allowed_version n h = Some a"
  shows "\<exists>i. find n = Some i \<and> i_name i = n"
proof -
  have "case find n of Some i \<Rightarrow> a \<le> i_version i | None \<Rightarrow> False"
    using allowed_version_in [OF assms] allowed_caps_parse unfolding caps_parse_def list_all_iff by blast
  then show ?thesis by (cases "find n") (simp_all add: find_tables)
qed

lemma ses_inv_globals:
  "ses_inv s \<Longrightarrow> global_ok (hold_awake s) gv \<Longrightarrow> ses_inv (s\<lparr>globals := hm_insert n gv (globals s)\<rparr>)"
  by (auto simp: ses_inv_def base_inv_def misc_inv_def split: if_splits)

lemma s2c_global_safe:
  assumes t: "tinv t"
  shows "tsafe tinv t (s2c_global x t)"
proof -
  let ?s = "ses t"
  have shown: "tsafe tinv t (None, t\<lparr>rewritten := (if b then mw_finish w else rewritten t),
      ses := ?s\<lparr>globals := hm_insert g ((case find n of Some i \<Rightarrow> i_name i | None \<Rightarrow> ''?''), min a v) (globals ?s)\<rparr>\<rparr>)"
    if a: "allowed_version n (hold_awake ?s) = Some a" for b w g n a v
  proof -
    have "global_ok (hold_awake ?s) ((case find n of Some i \<Rightarrow> i_name i | None \<Rightarrow> ''?''), min a v)"
      using allowed_found [OF a] a by (auto simp: global_ok_def)
    then have "ses_inv (?s\<lparr>globals := hm_insert g ((case find n of Some i \<Rightarrow> i_name i | None \<Rightarrow> ''?''), min a v) (globals ?s)\<rparr>)"
      using t by (intro ses_inv_globals) (simp_all add: tinv_def)
    then show ?thesis
      using t mw_finish_fits [of w] by (intro tsafe_upd tkeeps_upd) (auto simp: keeps_simps tinv_def turn_ok_def)
  qed
  have hidden: "tsafe tinv t (None, t\<lparr>ses := ?s\<lparr>hidden_count := y\<rparr>, forward := False\<rparr>)" for y
    using t by (intro tsafe_upd tkeeps_upd) (simp_all add: keeps_simps tinv_def turn_ok_def ses_inv_def base_inv_def)
  have "tsafe tinv t (case allowed_version n (hold_awake ?s) of
             Some allowed \<Rightarrow>
               (None, t\<lparr>
                 rewritten := (if min allowed v \<noteq> v then mw_finish (w (min allowed v)) else rewritten t),
                 ses := ?s\<lparr>globals := hm_insert g ((case find n of Some i \<Rightarrow> i_name i | None \<Rightarrow> ''?''), min allowed v) (globals ?s)\<rparr>\<rparr>)
           | None \<Rightarrow> (None, t\<lparr>ses := ?s\<lparr>hidden_count := hidden_count ?s + 1\<rparr>, forward := False\<rparr>))" for n v w g
    using shown hidden by (cases "allowed_version n (hold_awake ?s)") simp_all
  then show ?thesis
    unfolding s2c_global_def Let_def by (intro tsafe_if tsafe_ret tsafe_wire_pair t)
qed

lemma s2c_global_remove_safe: "tinv t \<Longrightarrow> tsafe tinv t (s2c_global_remove x t)"
  unfolding s2c_global_remove_def
  by (intro tsafe_if tsafe_ret tsafe_wire_pair tsafe_upd tkeeps_upd) (simp_all add: keeps_simps tinv_def turn_ok_def)

lemma s2c_output_safe:
  assumes t: "tinv t"
  shows "tsafe tinv t (s2c_output x t)"
proof -
  have "tsafe tinv t (None, t\<lparr>rewritten := Some b\<rparr>)" if "mw_finish w = Some b" for b w
    by (intro tsafe_upd tkeeps_upd)
      (use t mw_finish_fits [OF that] in \<open>auto simp: keeps_simps tinv_def turn_ok_def\<close>)
  then show ?thesis
    unfolding s2c_output_def by (intro tsafe_if tsafe_ret tsafe_wire t) (auto simp: tsafe_err split: option.splits)
qed

lemma s2c_keyboard_safe:
  assumes t: "tinv t"
  shows "tsafe tinv t (s2c_keyboard x t)"
proof -
  have foc: "tsafe tinv u (None, u\<lparr>clip := (clip u)\<lparr>focus := y\<rparr>\<rparr>)" if "tinv u" for u y
    using that by (intro tsafe_upd tkeeps_upd) (simp_all add: keeps_simps tinv_def turn_ok_def clip_fds_def)
  let ?u = "t\<lparr>clip := (clip t)\<lparr>focus := Some (ses_id (ses t))\<rparr>\<rparr>"
  have u: "tinv ?u" "tkeeps t ?u" using foc [OF t, of "Some (ses_id (ses t))"] by (simp_all add: tsafe_def)
  have "tsafe tinv ?u (on_ses (offer_selection (clip ?u) (devices (ses ?u))) ?u)"
    by (rule tinv_on_ses [OF u(1)], rule offer_selection_safe) (use u(1) in \<open>simp add: tinv_def\<close>)
  then have "tsafe tinv t (on_ses (offer_selection (clip ?u) (devices (ses ?u))) ?u)" by (rule tsafe_from [OF u(2)])
  then show ?thesis
    unfolding s2c_keyboard_def Let_def
    by (intro tsafe_andthen [OF tsafe_if] tsafe_if tsafe_ret t) (auto intro: foc t)
qed

lemma s2c_delete_id_safe:
  assumes t: "tinv t"
  shows "tsafe tinv t (s2c_delete_id k x t)"
proof -
  have "tsafe tinv t (case end_placeholder i (ses t) of
          (Inl e, s) \<Rightarrow> (Some e, t\<lparr>ses := s\<rparr>)
        | (Inr True, s) \<Rightarrow> (None, t\<lparr>ses := s, forward := False\<rparr>)
        | (Inr False, s) \<Rightarrow> on_ses (delete_object k i) (t\<lparr>ses := s\<rparr>))" for i
  proof -
    obtain r s where rs: "end_placeholder i (ses t) = (r, s)" by fastforce
    have s: "\<And>e. r \<noteq> Inl e" "ses_inv s" "keeps [] (ses t) s"
      using end_placeholder_safe [of "ses t" i] t by (auto simp: rs tinv_def)
    then obtain b where b: "r = Inr b" by (cases r) auto
    have u: "tinv (t\<lparr>ses := s\<rparr>)" "tkeeps t (t\<lparr>ses := s\<rparr>)"
      using s t by (auto simp: tinv_def turn_ok_def intro: tkeeps_upd)
    have "tsafe tinv (t\<lparr>ses := s\<rparr>) (on_ses (delete_object k i) (t\<lparr>ses := s\<rparr>))"
      by (rule tinv_on_ses [OF u(1)], rule delete_object_safe) (use s in simp)
    then have del: "tsafe tinv t (on_ses (delete_object k i) (t\<lparr>ses := s\<rparr>))" by (rule tsafe_from [OF u(2)])
    have "tsafe tinv t (None, t\<lparr>ses := s, forward := False\<rparr>)"
      using s t by (intro tsafe_upd tkeeps_upd) (simp_all add: tinv_def turn_ok_def)
    with del show ?thesis by (simp add: rs b split: bool.splits)
  qed
  then show ?thesis unfolding s2c_delete_id_def by (intro tsafe_if tsafe_ret tsafe_wire_pair t)
qed

lemma s2c_safe:
  assumes t: "tinv t"
  shows "tsafe tinv t (s2c k x t)"
  unfolding s2c_def
  by (rule tsafe_andthen [OF s2c_global_safe [OF t]], erule tsafe_andthen [OF s2c_global_remove_safe],
      erule tsafe_andthen [OF s2c_output_safe], erule tsafe_andthen [OF s2c_keyboard_safe], erule s2c_delete_id_safe)

section \<open>New objects and what is sent on\<close>

lemma own_globals_ok: "list_all (\<lambda>g. \<forall>h. global_ok h g) OWN_GLOBALS"
proof -
  have "allowed_version ''wl_data_device_manager'' h = None" for h
    by (cases h) (simp_all add: allowed_version_def ALLOWED_def HOLD_AWAKE_def)
  then show ?thesis by (simp add: OWN_GLOBALS_def global_ok_def own_version_def)
qed

lemma own_globals_safe:
  "ses_inv s \<Longrightarrow> list_all (\<lambda>g. \<forall>h. global_ok h g) gs \<Longrightarrow> safe [] ses_inv s (own_globals i n gs s)"
proof (induction gs arbitrary: n s)
  case (Cons gv gs)
  obtain iface v where gv: "gv = (iface, v)" by (cases gv)
  let ?s = "s\<lparr>globals := hm_insert (OWN_GLOBAL_BASE + of_nat n) (iface, v) (globals s)\<rparr>"
  have s: "ses_inv ?s" using Cons.prems gv by (intro ses_inv_globals) auto
  have ks: "keeps [] s ?s" by (simp add: keeps_simps)
  show ?case
    unfolding gv own_globals.simps Let_def
    by (rule safe_from [OF ks], rule safe_andthen [OF emit_own_safe [OF s]]) (use Cons in auto)
qed (simp add: safe_ret)

lemma new_obj_safe:
  assumes t: "tmid (new_object (x_dec x)) t"
  shows "tsafe tinv t (new_obj x t)"
proof (cases "new_object (x_dec x)")
  case None
  then show ?thesis using t by (simp add: new_obj_def tsafe_ret tmid_def mid_inv_def tinv_def ses_inv_def)
next
  case (Some ob)
  obtain i n where ob: "ob = (i, n)" by (cases ob)
  have mid: "base_inv (ses t)" "obj_get (ses t) i = None \<Longrightarrow> pool_inv [] (ses t) \<and> typed_new (Some (i, n)) (ses t)"
    using t Some ob by (simp_all add: tmid_def mid_inv_def)
  have reg: "tsafe tinv t (on_ses (register i n v d) t)" for v d
    by (rule tsafe_on_ses [where P = ses_inv], rule safe_weaken, rule register_safe [OF mid])
      (use t in \<open>auto simp: tinv_def tmid_def turn_ok_def\<close>)
  have own: "tsafe tinv u (on_ses (own_globals i 0 OWN_GLOBALS) u)" if "tinv u" for u
    by (rule tinv_on_ses [OF that], rule own_globals_safe [OF _ own_globals_ok]) (use that in \<open>simp add: tinv_def\<close>)
  have ph: "tsafe tinv u (on_ses (placeholder i) u)" if "tinv u" for u
    by (rule tinv_on_ses [OF that], rule placeholder_safe) (use that in \<open>simp add: tinv_def\<close>)
  have off: "tsafe tinv u (on_ses (offer_selection c ds) u)" if "tinv u" for u c ds
    by (rule tinv_on_ses [OF that], rule offer_selection_safe) (use that in \<open>simp add: tinv_def\<close>)
  show ?thesis
    unfolding new_obj_def Some ob option.case prod.case
    by (rule tsafe_andthen [OF reg], rule tsafe_andthen [of tinv], rule tsafe_if)
      (auto intro!: own tsafe_ret tsafe_if tsafe_andthen [OF ph] off)
qed

lemma send_on_safe:
  assumes t: "tinv t" and x: "fits_batch (x_msg x) []"
  shows "tsafe tinv t (send_on x t)"
proof (cases "forward t \<and> \<not> pending_out (dst (x_dir x) (ses t)) + length (out_msg x t)
      + (case stamp t of Some b \<Rightarrow> length b | None \<Rightarrow> 0) > MAX_PENDING_BYTES
    \<and> \<not> pending_fds (dst (x_dir x) (ses t)) + length (fds t) > MAX_PENDING_FDS")
  case False
  then show ?thesis using t by (auto simp: send_on_def Let_def tsafe_ret tsafe_err)
next
  case True
  let ?d = "x_dir x" and ?s = "ses t"
  let ?e = "dst ?d ?s"
  have fit: "fits_batch (out_msg x t) (fds t)" "\<And>b. stamp t = Some b \<Longrightarrow> fits_batch b []"
    using t x by (auto simp: tinv_def turn_ok_def out_msg_def fits_batch_def BATCH_FDS_def split: option.splits)
  have e: "ep_inv ?e" using t by (cases ?d) (simp_all add: dst_def tinv_def ses_inv_def base_inv_def)
  have e1: "ep_inv (queue (out_msg x t) (fds t) ?e)"
    using True by (intro ep_inv_queue [OF e fit(1)]) auto
  define e2 where "e2 = (case stamp t of Some b \<Rightarrow> queue b [] (queue (out_msg x t) (fds t) ?e)
      | None \<Rightarrow> queue (out_msg x t) (fds t) ?e)"
  have e2: "ep_inv e2"
  proof (cases "stamp t")
    case (Some b)
    then show ?thesis using ep_inv_queue [OF e1 fit(2) [OF Some]] True e1 by (simp add: e2_def ep_inv_def)
  qed (simp add: e2_def e1)
  have f2: "ep_all_fds e2 = ep_all_fds ?e + mset (fds t)" "pending_in e2 = pending_in ?e" "in_fds e2 = in_fds ?e"
    by (simp_all add: e2_def split: option.splits)
  define s' where "s' = bump_forwarded ?d (if stamp t \<noteq> None
      then (set_dst ?d e2 ?s)\<lparr>rewritten_count := rewritten_count (set_dst ?d e2 ?s) + 1\<rparr> else set_dst ?d e2 ?s)"
  have run: "send_on x t = (None, t\<lparr>ses := s', fds := []\<rparr>)"
    using True by (simp add: send_on_def Let_def e2_def s'_def)
  have "ses_inv s'" using t e2
    by (cases ?d) (simp_all add: s'_def bump_forwarded_def set_dst_def tinv_def ses_inv_def base_inv_def)
  moreover have "tkeeps t (t\<lparr>ses := s', fds := []\<rparr>)"
    using f2 by (cases ?d)
      (simp_all add: s'_def bump_forwarded_def set_dst_def dst_def tkeeps_def same_in_def turn_fds_def ses_fds_def)
  ultimately show ?thesis unfolding run using t by (intro tsafe_upd) (simp_all add: tinv_def turn_ok_def)
qed

lemma handle_safe:
  assumes t: "tinv t" and x: "ctx_ok x (ses t)"
  shows "tsafe tinv t (handle k x t)"
proof -
  have "tsafe (tmid (new_object (x_dec x))) t (case x_dir x of ClientToServer \<Rightarrow> c2s k x t | ServerToClient \<Rightarrow> s2c k x t)"
    using c2s_safe [OF t x] tsafe_weaken [OF s2c_safe [OF t] tinv_tmid] by (cases "x_dir x") simp_all
  then show ?thesis
    unfolding handle_def
    by (rule tsafe_andthen, intro tsafe_andthen [OF new_obj_safe] send_on_safe) (use x in \<open>simp_all add: ctx_ok_def\<close>)
qed

end
