(* ===== verification/Proxy_Session.thy ===== *)
theory Proxy_Session
  imports Pump_Loop
begin

text \<open>
  What a proxied connection guarantees: the loop over either side's input returns without a panic
  and inside the invariant, no descriptor is lost, every reachable session stays within its budgets,
  and what crosses to the compositor carries the zone's name and nothing outside the allowlist.
\<close>

section \<open>A pass of the loop\<close>

text \<open>Every descriptor of a session and its zone's clipboard is accounted for.\<close>

definition all_fds :: "session \<Rightarrow> clipboard \<Rightarrow> fd multiset" where
  "all_fds s c = ses_fds s + mset (clip_fds c)"

definition conserved :: "session \<Rightarrow> clipboard \<Rightarrow> session \<Rightarrow> clipboard \<Rightarrow> bool" where
  "conserved s c s' c' \<longleftrightarrow>
     all_fds s' c' + mset (ses_opened s) = all_fds s c + mset (ses_opened s')"

lemma conserved_refl [simp]: "conserved s c s c"
  by (simp add: conserved_def)

lemma conserved_trans: "conserved s c s1 c1 \<Longrightarrow> conserved s1 c1 s2 c2 \<Longrightarrow> conserved s c s2 c2"
  unfolding conserved_def by (smt (verit) add.assoc add.commute add_left_cancel)

definition left :: "dir \<Rightarrow> session \<Rightarrow> nat" where
  "left d s = length (pending_in (src d s))"

text \<open>No input comes in, and the session stays its zone's.\<close>

definition in_le :: "session \<Rightarrow> session \<Rightarrow> bool" where
  "in_le s s' \<longleftrightarrow> length (pending_in (client s')) \<le> length (pending_in (client s))
     \<and> length (in_fds (client s')) \<le> length (in_fds (client s))
     \<and> length (pending_in (server s')) \<le> length (pending_in (server s))
     \<and> length (in_fds (server s')) \<le> length (in_fds (server s))
     \<and> zone s' = zone s \<and> hold_awake s' = hold_awake s \<and> ses_id s' = ses_id s"

lemma in_le_refl [simp]: "in_le s s"
  by (simp add: in_le_def)

lemma in_le_trans: "in_le s t \<Longrightarrow> in_le t u \<Longrightarrow> in_le s u"
  by (auto simp: in_le_def)

lemma same_in_le: "same_in s s' \<Longrightarrow> in_le s s'"
  by (simp add: same_in_def in_le_def)

fun outcome_ok :: "dir \<Rightarrow> session \<Rightarrow> clipboard \<Rightarrow> (session \<times> clipboard) outcome \<Rightarrow> bool" where
  "outcome_ok d s c (Wait (s', c')) \<longleftrightarrow> s' = s \<and> c' = c"
| "outcome_ok d s c (Next (s', c')) \<longleftrightarrow>
     ses_inv s' \<and> left d s' < left d s \<and> in_le s s' \<and> conserved s c s' c'"
| "outcome_ok d s c (Refuse e (s', c')) \<longleftrightarrow> e \<noteq> Panic \<and> conserved s c s' c'"

lemma src_set_src [simp]: "src d (set_src d e s) = e"
  by (cases d) (simp_all add: src_def set_src_def)

lemma ep_inv_src: "ses_inv s \<Longrightarrow> ep_inv (src d s)"
  by (cases d) (simp_all add: src_def ses_inv_def base_inv_def)

lemma ses_inv_set_src: "ses_inv s \<Longrightarrow> ep_inv e \<Longrightarrow> ses_inv (set_src d e s)"
  by (cases d) (simp_all add: set_src_def ses_inv_def base_inv_def)

lemma set_src_simps [simp]:
  "obj_get (set_src d e s) = obj_get s" "ses_opened (set_src d e s) = ses_opened s"
  by (cases d; simp add: set_src_def)+

lemma ses_fds_set_src: "ses_fds (set_src d e s) + ep_all_fds (src d s) = ses_fds s + ep_all_fds e"
  by (cases d) (simp_all add: set_src_def src_def ses_fds_def)

lemma left_src: "same_in s s' \<Longrightarrow> left d s' = left d s"
  by (cases d) (simp_all add: same_in_def left_def src_def)

lemma header_parse_bounds: "header_parse b = Inr h \<Longrightarrow> HEADER_LEN \<le> unat (hd_size h) \<and> unat (hd_size h) \<le> MAX_MESSAGE_LEN"
  by (auto simp: header_parse_def Let_def split: if_splits)

lemma table_fds_small: "list_all (\<lambda>(_, m). m_fds m \<le> 1) all_messages"
  by code_simp

lemma table_message_fds:
  assumes "i \<in> set INTERFACES" "m \<in> set (i_requests i) \<union> set (i_events i)"
  shows "fd_count m \<le> 1"
proof -
  have "(i_name i, m) \<in> set all_messages" using assms by (auto simp: all_messages_def)
  then show ?thesis using table_fds_small by (auto simp: list_all_iff fd_count_def)
qed

lemma lookup_Inr:
  assumes "lookup s i d op = Inr (iface, m, v)"
  shows "obj_get s i = Some (iface, v)"
    "m \<in> set (case d of ClientToServer \<Rightarrow> i_requests iface | ServerToClient \<Rightarrow> i_events iface)"
  using assms
  by (auto simp: lookup_def obj_get_def Let_def not_le split: option.splits if_splits dir.splits)

lemma lookup_no_panic: "lookup s i d op \<noteq> Inl Panic"
  by (auto simp: lookup_def Let_def split: option.splits)

lemma ep_take_inv:
  assumes "ep_inv e" "n \<le> length (pending_in e)"
  shows "\<exists>e'. ep_take n e = Inr (take n (pending_in e), e') \<and> pending_in e' = drop n (pending_in e)
    \<and> in_fds e' = in_fds e \<and> ep_inv e' \<and> ep_all_fds e' = ep_all_fds e"
proof -
  have "ep_ok e" using assms(1) by (simp add: ep_inv_def)
  from ep_take_ok [OF this assms(2)] show ?thesis
    using assms(1) by (auto simp: ep_inv_def ep_all_fds_def out_fds_def)
qed

lemma ep_drop_fds:
  "ep_ok (e\<lparr>in_fds := drop n (in_fds e)\<rparr>) = ep_ok e"
  "ep_all_fds (e\<lparr>in_fds := drop n (in_fds e)\<rparr>) + mset (take n (in_fds e)) = ep_all_fds e"
proof -
  have "mset (drop n (in_fds e)) + mset (take n (in_fds e)) = mset (in_fds e)"
    by (metis append_take_drop_id mset_append add.commute)
  then show "ep_all_fds (e\<lparr>in_fds := drop n (in_fds e)\<rparr>) + mset (take n (in_fds e)) = ep_all_fds e"
    by (simp add: ep_all_fds_def out_fds_def)
qed (simp add: ep_ok_def out_bytes_def out_fds_def)

lemma end_turn_ok:
  assumes t: "tsafe tinv t r"
    and cons: "turn_fds t + mset (ses_opened s) = all_fds s c + mset (ses_opened (ses t))"
    and less: "left d (ses t) < left d s" and le: "in_le s (ses t)"
  shows "outcome_ok d s c (end_turn r)"
proof -
  obtain e u where r: "r = (e, u)" by (cases r)
  have k: "tkeeps t u" "e \<noteq> Some Panic" "e = None \<Longrightarrow> tinv u" using t r by (auto simp: tsafe_def)
  have dr: "ses_fds (drop_fds (fds u) (ses u)) = ses_fds (ses u) + mset (fds u)"
    using keeps_drop_fds [of "fds u" "ses u"] by (simp add: keeps_def drop_fds_def)
  have eq: "turn_fds u + mset (ses_opened (ses t)) = turn_fds t + mset (ses_opened (ses u))"
    using k(1) by (simp add: tkeeps_def)
  have "all_fds (drop_fds (fds u) (ses u)) (clip u) = turn_fds u"
    by (simp add: all_fds_def turn_fds_def dr ac_simps)
  then have "conserved s c (drop_fds (fds u) (ses u)) (clip u)"
    using eq cons unfolding conserved_def drop_fds_def
    by simp (smt (verit) add.assoc add.commute add_left_cancel)
  moreover have "left d (drop_fds (fds u) (ses u)) < left d s"
    using k(1) less left_src [of "ses t" "ses u" d]
    by (cases d) (simp_all add: tkeeps_def left_def src_def drop_fds_def)
  moreover have "e = None \<Longrightarrow> ses_inv (drop_fds (fds u) (ses u))"
    using k(3) by (simp add: tinv_def drop_fds_def ses_inv_def base_inv_def)
  moreover have "in_le s (drop_fds (fds u) (ses u))"
    using in_le_trans [OF le same_in_le] k(1) by (simp add: tkeeps_def drop_fds_def in_le_def)
  ultimately show ?thesis using k(2) r by (cases e) (simp_all add: end_turn_def)
qed

lemma take_message_ok:
  assumes s: "ses_inv s" and h: "header_parse (pending_in (src d s)) = Inr h"
    and size: "unat (hd_size h) \<le> length (pending_in (src d s))"
    and look: "lookup s (hd_object h) d (hd_opcode h) = Inr (iface, m, version)"
    and fd: "fd_count m \<le> length (in_fds (src d s))"
  shows "outcome_ok d s c (take_message k d h iface m version s c)"
proof -
  let ?n = "unat (hd_size h)" and ?e0 = "src d s"
  obtain e where take: "ep_take ?n ?e0 = Inr (take ?n (pending_in ?e0), e)"
    and e: "pending_in e = drop ?n (pending_in ?e0)" "in_fds e = in_fds ?e0" "ep_inv e" "ep_all_fds e = ep_all_fds ?e0"
    using ep_take_inv [OF ep_inv_src [OF s] size] by metis
  define msg where "msg = take ?n (pending_in ?e0)"
  define e' where "e' = e\<lparr>in_fds := drop (fd_count m) (in_fds e)\<rparr>"
  define s1 where "s1 = set_src d e' s"
  define t where "t = \<lparr>ses = s1, clip = c, fds = take (fd_count m) (in_fds e), forward = True, rewritten = None, stamp = None\<rparr>"
  have hs: "HEADER_LEN \<le> ?n" "?n \<le> MAX_MESSAGE_LEN" using header_parse_bounds [OF h] by auto
  have obj: "obj_get s (hd_object h) = Some (iface, version)"
    "m \<in> set (case d of ClientToServer \<Rightarrow> i_requests iface | ServerToClient \<Rightarrow> i_events iface)"
    using lookup_Inr [OF look] by auto
  have ifc: "iface \<in> set INTERFACES" using s obj(1) by (force simp: ses_inv_def base_inv_def obj_inv_def)
  have fd1: "fd_count m \<le> 1" using table_message_fds [OF ifc] obj(2) by (cases d) auto
  have e': "ep_inv e'" "ep_all_fds e' + mset (take (fd_count m) (in_fds e)) = ep_all_fds ?e0"
    using e(3) ep_drop_fds [of "fd_count m" e] e(2,4) by (simp_all add: e'_def ep_inv_def)
  have s1: "ses_inv s1" unfolding s1_def by (rule ses_inv_set_src [OF s e'(1)])
  have t: "tinv t" using s1 fd1 by (simp add: t_def tinv_def turn_ok_def)
  have "ses_fds s1 + mset (take (fd_count m) (in_fds e)) = ses_fds s"
    using ses_fds_set_src [of d e' s, folded s1_def] unfolding e'(2) [symmetric] by (simp add: ac_simps)
  then have cons: "turn_fds t + mset (ses_opened s) = all_fds s c + mset (ses_opened (ses t))"
    by (simp add: t_def s1_def turn_fds_def all_fds_def)
  have less: "left d (ses t) < left d s"
    using e(1) hs size by (simp add: t_def s1_def left_def e'_def pending_in_def HEADER_LEN_def)
  have le: "in_le s (ses t)"
    using e(1,2) by (cases d) (simp_all add: t_def s1_def in_le_def e'_def set_src_def src_def pending_in_def)
  let ?r = "case decode m (drop HEADER_LEN msg) of Inl x \<Rightarrow> (Some (Wire x), t)
      | Inr dec \<Rightarrow> handle k \<lparr>x_dir = d, x_h = h, x_iface = iface, x_m = m, x_version = version, x_msg = msg, x_dec = dec\<rparr> t"
  have fit: "fits_batch msg []"
    using hs size by (auto simp: fits_batch_def msg_def BATCH_BYTES_def MAX_MESSAGE_LEN_def HEADER_LEN_def)
  have "tsafe tinv t ?r"
  proof (cases "decode m (drop HEADER_LEN msg)")
    case (Inr dec)
    then show ?thesis
      by (simp, intro handle_safe [OF t])
        (use ifc obj fit in \<open>simp add: ctx_ok_def x_table_def x_body_def t_def s1_def cong: dir.case_cong\<close>)
  qed (simp add: tsafe_err)
  then have "outcome_ok d s c (end_turn ?r)" by (rule end_turn_ok [OF _ cons less le])
  moreover have "take_message k d h iface m version s c = end_turn ?r"
    by (simp add: take_message_def take Let_def t_def s1_def e'_def msg_def split: sum.splits)
  ultimately show ?thesis by simp
qed

lemma pump_one_ok:
  assumes s: "ses_inv s"
  shows "outcome_ok d s c (pump_one k d s c)"
proof (cases "length (pending_in (src d s)) < HEADER_LEN")
  case False
  show ?thesis
  proof (cases "header_parse (pending_in (src d s))")
    case h: (Inr h)
    show ?thesis
    proof (cases "length (pending_in (src d s)) < unat (hd_size h)")
      case size: False
      let ?skip = "d = ServerToClient \<and> hm_contains (placeholders s) (hd_object h)"
      show ?thesis
      proof (cases ?skip)
        case True
        obtain e where take: "ep_take (unat (hd_size h)) (src d s) = Inr (take (unat (hd_size h)) (pending_in (src d s)), e)"
          and e: "pending_in e = drop (unat (hd_size h)) (pending_in (src d s))" "ep_inv e" "ep_all_fds e = ep_all_fds (src d s)"
            "in_fds e = in_fds (src d s)"
          using ep_take_inv [OF ep_inv_src [OF s]] size not_less by metis
        have "ses_fds (set_src d e s) = ses_fds s" using ses_fds_set_src [of d e s] e(3) by simp
        then show ?thesis
          using True False size h take e conjunct1 [OF header_parse_bounds [OF h]] ses_inv_set_src [OF s e(2), of d]
          by (simp add: pump_one_def Let_def left_def conserved_def all_fds_def HEADER_LEN_def in_le_def set_src_def src_def)
      next
        case skip: False
        then show ?thesis
          using False size h take_message_ok [OF s h]
          by (auto simp: pump_one_def Let_def lookup_no_panic split: sum.splits)
      qed
    qed (use False h in \<open>simp add: pump_one_def Let_def\<close>)
  qed (use False in \<open>simp add: pump_one_def Let_def\<close>)
qed (simp add: pump_one_def Let_def)

section \<open>The loop\<close>

lemma pump_loop_ok:
  assumes "ses_inv s" "left d s < n"
  shows "\<exists>e s' c'. pump_loop n k d s c = Some (e, s', c') \<and> e \<noteq> Some Panic \<and> conserved s c s' c'
    \<and> (e = None \<longrightarrow> ses_inv s' \<and> in_le s s' \<and> pump_one k d s' c' = Wait (s', c'))"
  using assms
proof (induction n arbitrary: s c)
  case (Suc n)
  have ok: "outcome_ok d s c (pump_one k d s c)" by (rule pump_one_ok [OF Suc.prems(1)])
  show ?case
  proof (cases "pump_one k d s c")
    case (Next sc)
    obtain s1 c1 where sc: "sc = (s1, c1)" by (cases sc)
    have a: "ses_inv s1" "left d s1 < n" "conserved s c s1 c1" "in_le s s1"
      using ok Suc.prems by (simp_all add: Next sc)
    show ?thesis using Suc.IH [OF a(1,2)] conserved_trans [OF a(3)] in_le_trans [OF a(4)] by (fastforce simp: Next sc)
  qed (use ok Suc.prems in auto)
qed simp

lemma pump_ok:
  assumes "ses_inv s"
  obtains e s' c' where "pump k d s c = Some (e, s', c')" "e \<noteq> Some Panic" "conserved s c s' c'" 
    "e = None \<Longrightarrow> ses_inv s' \<and> in_le s s' \<and> pump_one k d s' c' = Wait (s', c')"
  using pump_loop_ok [OF assms, of d "Suc (left d s)" k c] by (auto simp: pump_def left_def)

section \<open>Reachable sessions\<close>

definition in_small :: "endpoint \<Rightarrow> bool" where
  "in_small e \<longleftrightarrow> length (pending_in e) \<le> MAX_PENDING_BYTES \<and> length (in_fds e) \<le> MAX_PENDING_FDS"

lemma ep_new_inv: "ep_inv (ep_new f)" "in_small (ep_new f)"
  by (simp_all add: ep_new_def ep_inv_def ep_ok_def endpoint_simps in_small_def)

lemma ep_read_inv:
  assumes "ep_inv e" "ep_read a e = (Inr n, e')"
  shows "ep_inv e' \<and> (in_small e \<longrightarrow> in_small e')"
proof -
  have "ep_ok e'" using ep_read_ok [of e a] assms by (simp add: ep_inv_def)
  then show ?thesis
    using assms
    by (auto simp: ep_read_def Let_def ep_inv_def in_small_def pending_in_def split: recv_answer.splits if_splits)
qed

lemma ep_flush_shrinks:
  "pending_out (snd (ep_flush sends e)) \<le> pending_out e \<and> pending_fds (snd (ep_flush sends e)) \<le> pending_fds e
   \<and> in_fds (snd (ep_flush sends e)) = in_fds e"
proof (induction sends arbitrary: e)
  case Nil
  show ?case by (subst (1 2 3) ep_flush.simps) (simp split: list.split)
next
  case (Cons send rest)
  have step: "pending_out (snd (ep_flush rest e')) \<le> pending_out e \<and> pending_fds (snd (ep_flush rest e')) \<le> pending_fds e
      \<and> in_fds (snd (ep_flush rest e')) = in_fds e"
    if "pending_out e' \<le> pending_out e" "pending_fds e' \<le> pending_fds e" "in_fds e' = in_fds e" for e'
    using Cons [of e'] that by auto
  show ?case
    by (subst (1 2 3) ep_flush.simps) (auto intro!: step [THEN conjunct1] step [THEN conjunct2, THEN conjunct1]
        step [THEN conjunct2, THEN conjunct2] split: list.split send_answer.split)
qed

lemma ep_flush_inv:
  "ep_inv e \<Longrightarrow> sends_ok sends \<Longrightarrow> ep_inv (snd (ep_flush sends e)) \<and> (in_small e \<longrightarrow> in_small (snd (ep_flush sends e)))"
  using ep_flush_shrinks [of sends e] ep_flush_correct [of e sends] by (auto simp: ep_inv_def in_small_def)

text \<open>The order in which a table lists its entries is nobody's promise.\<close>

lemma hm_perm:
  assumes "hm_ok m" "mset m' = mset m"
  shows "hm_ok m'" "hm_get m' = hm_get m" "hm_sum f m' = hm_sum f m" "length m' = length m"
proof -
  have "mset (map fst m') = mset (map fst m)" using assms(2) by simp
  then show d': "distinct (map fst m')" using assms(1) by (metis mset_eq_imp_distinct_iff)
  show "hm_get m' = hm_get m"
    using map_of_inject_set [OF d' assms(1)] mset_eq_setD [OF assms(2)] by simp
  show "length m' = length m" using assms(2) by (rule mset_eq_length)
  have "mset (map (\<lambda>kv. f (snd kv)) m') = mset (map (\<lambda>kv. f (snd kv)) m)" using assms(2) by simp
  then show "hm_sum f m' = hm_sum f m" unfolding hm_sum_def by (metis sum_mset_sum_list)
qed

lemma ses_inv_perm:
  assumes "ses_inv s" "mset ps = mset (pools s)"
  shows "ses_inv (s\<lparr>pools := ps\<rparr>)"
proof -
  have "hm_ok (pools s)" using assms(1) by (simp add: ses_inv_def pool_inv_def maps_ok_def)
  note p = hm_perm [OF this assms(2)]
  have "pool_inv [] (s\<lparr>pools := ps\<rparr>)"
    using assms(1) p by (simp add: ses_inv_def pool_inv_def maps_ok_def budget_ok_def ids_ok_def pool_ok_def)
  then show ?thesis using assms(1) by (simp add: ses_inv_def base_inv_def)
qed

text \<open>
  A session from its start on, as the proxy's loop drives it: its endpoints are read and flushed, its
  input is pumped either way, and other sessions' requests of it are met, while each returns
  \<open>Ok\<close>. \<open>k\<close> is the kernel.
\<close>

inductive ses_reach :: "kernel \<Rightarrow> session \<Rightarrow> bool" for k where
  new: "session_new z cfd sfd = Some s \<Longrightarrow> ses_reach k (s\<lparr>ses_id := i, hold_awake := h\<rparr>)"
| read_in: "ses_reach k s \<Longrightarrow> ep_read a (src d s) = (Inr n, e) \<Longrightarrow> ses_reach k (set_src d e s)"
| flush: "ses_reach k s \<Longrightarrow> sends_ok sends \<Longrightarrow> ep_flush sends (src d s) = (Inr b, e) \<Longrightarrow> ses_reach k (set_src d e s)"
| pump: "ses_reach k s \<Longrightarrow> pump k d s c = Some (None, s', c') \<Longrightarrow> ses_reach k s'"
| act: "ses_reach k s \<Longrightarrow> act a c s = (None, s') \<Longrightarrow> ses_reach k s'"
| order: "ses_reach k s \<Longrightarrow> mset ps = mset (pools s) \<Longrightarrow> ses_reach k (s\<lparr>pools := ps\<rparr>)"
| logged: "ses_reach k s \<Longrightarrow> ses_reach k (s\<lparr>unpunched := None\<rparr>)"

definition reach_inv :: "session \<Rightarrow> bool" where
  "reach_inv s \<longleftrightarrow> ses_inv s \<and> in_small (client s) \<and> in_small (server s)"

lemma reach_inv_src: "reach_inv s \<Longrightarrow> ep_inv e \<Longrightarrow> in_small e \<Longrightarrow> reach_inv (set_src d e s)"
  using ses_inv_set_src [of s e d] by (cases d) (simp_all add: reach_inv_def set_src_def)

lemma reach_inv_in: "reach_inv s \<Longrightarrow> ses_inv s' \<Longrightarrow> in_le s s' \<Longrightarrow> reach_inv s'"
  by (auto simp: reach_inv_def in_small_def in_le_def)

lemma reach_inv_srcD: "reach_inv s \<Longrightarrow> ep_inv (src d s) \<and> in_small (src d s)"
  by (cases d) (simp_all add: reach_inv_def src_def ses_inv_def base_inv_def)

lemma session_new_inv:
  assumes "session_new z cfd sfd = Some s"
  shows "reach_inv (s\<lparr>ses_id := i, hold_awake := h\<rparr>)"
proof -
  obtain disp where d: "find ''wl_display'' = Some disp" using assms by (auto simp: session_new_def split: option.splits)
  then have disp: "disp \<in> set INTERFACES" "i_name disp = ''wl_display''" by (auto simp: find_Some)
  define s' where "s' = s\<lparr>ses_id := i, hold_awake := h\<rparr>"
  have s: "ses_objects s' = objects_new (disp, 1)" "toplevels s' = 0" "popups s' = 0" "pools s' = []" "pool_ids s' = []"
      "buffer_pools s' = []" "surfaces s' = []" "subsurfaces s' = []" "shm_pool_bytes s' = 0" "shm_pool_count s' = 0"
      "globals s' = []" "sources s' = []" "placeholders s' = []" "client s' = ep_new cfd" "server s' = ep_new sfd"
    using assms d by (auto simp: session_new_def s'_def)
  have get: "obj_get s' = [1 \<mapsto> (disp, 1)]"
  proof
    fix j :: u32
    consider "j = 0" | "j = 1" | "2 \<le> unat j" using unat_gt_0 [of j] word_unat_eq_iff [of j 1] by fastforce
    then show "obj_get s' j = [1 \<mapsto> (disp, 1)] j"
      by cases (auto simp: obj_get_def s objects_get_def objects_new_def slots_def slot_index_def in_client_range_def SERVER_ID_BASE_def)
  qed
  have cnt: "table_count (obj_get s') P = (if P (disp, 1) then 1 else 0)" for P
    using table_count_insert [of "\<lambda>_. None" 1 "(disp, 1)" P] by (simp add: get table_count_def)
  have "obj_inv s'"
    unfolding obj_inv_def cnt
    by (simp add: s get disp named_def objects_new_def slots_ok_def MAX_OBJECTS_def MAX_ID_SLOTS_def)
  moreover have "misc_inv s'" by (simp add: misc_inv_def s)
  moreover have "pool_inv [] s'" by (simp add: pool_inv_def maps_ok_def budget_ok_def ids_ok_def s)
  moreover have "typed_new None s'" by (simp add: typed_new_def s)
  ultimately show ?thesis
    using ep_new_inv by (simp add: reach_inv_def ses_inv_def base_inv_def s flip: s'_def)
qed

lemma ses_reach_inv: "ses_reach k s \<Longrightarrow> reach_inv s"
proof (induction rule: ses_reach.induct)
  case (new z cfd sfd s i h)
  then show ?case by (rule session_new_inv)
next
  case (read_in s a d n e)
  then show ?case using ep_read_inv reach_inv_srcD [OF read_in.IH, of d] by (blast intro: reach_inv_src)
next
  case (flush s sends d b e)
  then show ?case
    using ep_flush_inv [of "src d s" sends] reach_inv_srcD [OF flush.IH, of d] by (auto intro: reach_inv_src)
next
  case (pump s d c s' c')
  have "ses_inv s" using pump.IH by (simp add: reach_inv_def)
  then show ?case by (rule pump_ok [of s k d c]) (use pump.hyps(2) pump.IH reach_inv_in in auto)
next
  case (act s a c s')
  have "safe (action_fds a) ses_inv s (act a c s)" using act.IH by (intro act_safe) (simp add: reach_inv_def)
  then show ?case using act reach_inv_in [of s s'] same_in_le by (auto simp: safe_def keeps_def)
next
  case (order s ps)
  then show ?case using ses_inv_perm by (simp add: reach_inv_def)
next
  case (logged s)
  then show ?case by (simp add: reach_inv_def ses_inv_def base_inv_def)
qed

lemma reach_ses_inv: "ses_reach k s \<Longrightarrow> ses_inv s"
  using ses_reach_inv by (simp add: reach_inv_def)

lemma reach_pool_inv: "ses_reach k s \<Longrightarrow> pool_inv [] s"
  using reach_ses_inv by (simp add: ses_inv_def)

lemma released_pool:
  assumes "hm_contains (pools s) g'" "\<not> hm_contains (pools (snd (release_pool_if_unused k g s))) g'"
  shows "\<exists>q. hm_get (pools s) g = Some q \<and> unused q \<and> g' = g"
proof (cases "hm_get (pools s) g")
  case (Some q)
  have "unused q" using assms Some by (auto simp: release_pool_if_unused_def split: if_splits)
  moreover have "g' = g"
  proof (rule ccontr)
    assume "g' \<noteq> g"
    then show False
      using assms Some
      by (auto simp: release_pool_if_unused_def Let_def split: if_splits option.splits prod.splits)
  qed
  ultimately show ?thesis using Some by simp
qed (use assms in \<open>auto simp: release_pool_if_unused_def\<close>)

section \<open>What a session guarantees\<close>

text \<open>
  C7: Pumping a session returns. In any reachable session, for either direction, the loop ends after
  finitely many passes without a panic: no arithmetic of it underflows, no \<open>expect\<close> fails, no slice
  is out of range. It ends either in an error that closes the connection or, on \<open>Ok\<close>, only when the
  rest of the input is not yet a whole message with its descriptors.
\<close>

theorem pump_returns:
  assumes "ses_reach k s"
  shows "\<exists>e s' c'. pump k d s c = Some (e, s', c') \<and> e \<noteq> Some Panic
    \<and> (e = None \<longrightarrow> ses_reach k s' \<and> pump_one k d s' c' = Wait (s', c'))"
  by (rule pump_ok [OF reach_ses_inv [OF assms], of k d c]) (use ses_reach.pump [OF assms] in auto)

text \<open>
  C8: A session stays within its budgets, and its counters count what they say. In any reachable
  session the live objects, toplevels and popups are as many as the counters say and under their
  bounds; the pool budgets are the number and the summed ranges of the live pools, at most 128 and
  1 GiB; data sources, their types, subsurfaces, and the bytes and descriptors waiting on either
  side, in and out, are bounded.
\<close>

theorem session_bounds:
  assumes "ses_reach k s"
  shows "ob_live (ses_objects s) = table_count (obj_get s) (\<lambda>_. True) \<and> ob_live (ses_objects s) \<le> MAX_OBJECTS
    \<and> toplevels s = table_count (obj_get s) (named ''xdg_toplevel'') \<and> toplevels s \<le> MAX_TOPLEVELS_PER_SESSION
    \<and> popups s = table_count (obj_get s) (named ''xdg_popup'') \<and> popups s \<le> MAX_POPUPS_PER_SESSION
    \<and> shm_pool_count s = length (pools s) \<and> shm_pool_count s \<le> MAX_SHM_POOLS_PER_SESSION
    \<and> shm_pool_bytes s = hm_sum p_range (pools s) \<and> shm_pool_bytes s \<le> MAX_SHM_BYTES_PER_SESSION
    \<and> length (sources s) \<le> MAX_DATA_SOURCES_PER_SESSION \<and> length (subsurfaces s) \<le> MAX_SUBSURFACES_PER_SESSION
    \<and> (\<forall>i ts. hm_get (sources s) i = Some ts \<longrightarrow>
          length ts \<le> MAX_MIME_TYPES \<and> list_all (\<lambda>t. length t \<le> MAX_MIME_BYTES) ts)
    \<and> (\<forall>d. length (pending_in (src d s)) \<le> MAX_PENDING_BYTES \<and> length (in_fds (src d s)) \<le> MAX_PENDING_FDS)
    \<and> (\<forall>d. length (out_bytes (src d s)) \<le> MAX_PENDING_BYTES \<and> length (out_fds (src d s)) \<le> MAX_PENDING_FDS)"
proof -
  have "length (pending_in (src d s)) \<le> MAX_PENDING_BYTES \<and> length (in_fds (src d s)) \<le> MAX_PENDING_FDS"
    "length (out_bytes (src d s)) \<le> MAX_PENDING_BYTES \<and> length (out_fds (src d s)) \<le> MAX_PENDING_FDS" for d
    using reach_inv_srcD [OF ses_reach_inv [OF assms], of d] by (auto simp: in_small_def ep_inv_def ep_ok_def)
  moreover have "obj_inv s" "misc_inv s" "budget_ok s"
    using reach_ses_inv [OF assms] by (simp_all add: ses_inv_def base_inv_def pool_inv_def)
  ultimately show ?thesis by (simp add: obj_inv_def misc_inv_def budget_ok_def types_ok_def)
qed

text \<open>
  C9: No descriptor is lost or used twice. Over a pump of either direction, in any reachable session
  and whether it ends well or in an error, the descriptors owned by the two endpoints, the pools and
  the clipboard's pending requests, with those already closed, are those of before and the copies of
  pool descriptors made meanwhile, each as often as before.
\<close>

theorem pump_conserves_fds:
  assumes "ses_reach k s" "pump k d s c = Some (e, s', c')"
  shows "ses_fds s' + mset (clip_fds c') + mset (ses_opened s) = ses_fds s + mset (clip_fds c) + mset (ses_opened s')"
  by (rule pump_ok [OF reach_ses_inv [OF assms(1)], of k d c])
    (use assms(2) in \<open>auto simp: conserved_def all_fds_def\<close>)


end
