(* ===== verification/Proxy_Turn.thy ===== *)
theory Proxy_Turn
  imports Control Proxy_Opts Proxy_Session
begin

text \<open>
  One turn of the proxy's loop (\<open>main\<close> of \<open>compositor/wlproxy/src/main.rs\<close>): what it polls for, the
  step of every session with the zone's budgets, the move gesture, the requests one session left for
  another, the closing of sessions, the pastes and the pools of ended sessions, and the accept.

  What the kernel answers in a turn is the parameter \<open>io\<close>: the events and answers of each session's
  sockets, the connection accepted on either listener, and the clock, read once per phase. \<^const>\<open>None\<close> is a
  turn that panics or does not return. The sums of the pools' bytes are \<^typ>\<open>nat\<close>: \<open>2 ^ 64\<close> bytes are
  \<open>2 ^ 34\<close> sessions' whole budgets.
\<close>

unbundle bit_operations_syntax

section \<open>State\<close>

record live =
  l_s :: session
  l_id :: u64

record proxy =
  px_sessions :: "live list"
  px_clip :: clipboard
  px_moving :: "control option"
  px_writers :: "writer list"
  px_gone :: "(fd \<times> nat \<times> nat) list"
  px_next_id :: u64
  px_served :: nat
  px_log :: log
  px_accept_after :: nat

definition proxy_start :: "opts \<Rightarrow> nat \<Rightarrow> proxy" where
  "proxy_start o' now = \<lparr>px_sessions = [], px_clip = clipboard_default, px_moving = None, px_writers = [], px_gone = [],
     px_next_id = 1, px_served = 0, px_log = log_new (o_zone o') now, px_accept_after = now\<rparr>"

section \<open>The poll set\<close>

type_synonym revents = "16 word"

definition POLLERR :: revents where "POLLERR = 0x08"
definition POLLHUP :: revents where "POLLHUP = 0x10"
definition POLLNVAL :: revents where "POLLNVAL = 0x20"

abbreviation ev_in :: revents where "ev_in \<equiv> word_of_int POLLIN"
abbreviation ev_out :: revents where "ev_out \<equiv> word_of_int POLLOUT"

definition wanted :: "endpoint \<Rightarrow> endpoint \<Rightarrow> revents" where
  "wanted e other = (if pending_out other < HIGH_WATER then ev_in else 0) OR (if pending_out e > 0 then ev_out else 0)"

definition accepting :: "opts \<Rightarrow> nat \<Rightarrow> proxy \<Rightarrow> bool" where
  "accepting o' now px \<longleftrightarrow> length (px_sessions px) < o_max_clients o' \<and> px_accept_after px \<le> now"

definition poll_set :: "opts \<Rightarrow> fd \<Rightarrow> fd option \<Rightarrow> nat \<Rightarrow> proxy \<Rightarrow> (fd \<times> revents) list" where
  "poll_set o' listener ctl now px =
     [(listener, if accepting o' now px then ev_in else 0)]
     @ concat (map (\<lambda>l. let c = client (l_s l); s = server (l_s l) in
         [(ep_fd c, wanted c s), (ep_fd s, wanted s c)]) (px_sessions px))
     @ (case ctl of Some c \<Rightarrow> [(c, ev_in)] | None \<Rightarrow> [])
     @ (case px_moving px of
          Some m \<Rightarrow> (case wants m of (events, pipe) \<Rightarrow>
            (if events \<noteq> 0 then [(conn m, word_of_int events)] else [])
            @ (case pipe of Some p \<Rightarrow> [(p, ev_in)] | None \<Rightarrow> []))
        | None \<Rightarrow> [])
     @ map (\<lambda>w. (w_fd w, ev_out)) (px_writers px)"

text \<open>The timeout in milliseconds; \<^const>\<open>None\<close> is none.\<close>

definition at_most :: "nat option \<Rightarrow> nat \<Rightarrow> nat option" where
  "at_most t ms = (case t of None \<Rightarrow> Some ms | Some t \<Rightarrow> Some (min t ms))"

definition poll_timeout :: "nat \<Rightarrow> proxy \<Rightarrow> nat option" where
  "poll_timeout now px =
     (let t = (if px_accept_after px \<le> now then None else Some (px_accept_after px - now + 1));
          t = (if px_moving px \<noteq> None \<or> px_writers px \<noteq> [] then at_most t 250 else t) in
      case px_gone px of [] \<Rightarrow> t | gs \<Rightarrow> at_most t (Min (set (map (snd \<circ> snd) gs)) - now + 1))"

section \<open>The step of a session\<close>

text \<open>What the kernel answers about one session's sockets in a turn.\<close>

record ses_io =
  io_ce :: revents
  io_se :: revents
  io_client_read :: recv_answer
  io_server_read :: recv_answer
  io_server_sends :: "(bytes \<Rightarrow> fd list \<Rightarrow> send_answer) list"
  io_client_sends :: "(bytes \<Rightarrow> fd list \<Rightarrow> send_answer) list"
  io_refuse_sends :: "(bytes \<Rightarrow> fd list \<Rightarrow> send_answer) list"

text \<open>The zone's pool bytes, pools and toplevels.\<close>

type_synonym totals = "nat \<times> nat \<times> nat"

definition usage_of :: "session \<Rightarrow> totals" where
  "usage_of s = (shm_pool_bytes s, shm_pool_count s, toplevels s)"

text \<open>\<open>tot + new - old\<close>, or \<^const>\<open>None\<close> where the subtraction would overflow.\<close>

definition replaced :: "nat \<Rightarrow> nat \<Rightarrow> nat \<Rightarrow> nat option" where
  "replaced tot new old = (if old \<le> tot + new then Some (tot + new - old) else None)"

definition over_budget :: "totals \<Rightarrow> totals \<Rightarrow> totals \<Rightarrow> bool option" where
  "over_budget tot old new = (case (tot, old, new) of ((tb, tc, tt), (ob, oc, ot), (nb, nc, nt)) \<Rightarrow>
     Option.bind (replaced tb nb ob) (\<lambda>b.
       if b > MAX_SHM_BYTES_PER_ZONE then Some True
       else Option.bind (replaced tc nc oc) (\<lambda>c.
         if c > MAX_SHM_POOLS_PER_ZONE then Some True
         else Option.bind (replaced tt nt ot) (\<lambda>t. Some (t > MAX_TOPLEVELS_PER_ZONE)))))"

definition io_text :: "session_error \<Rightarrow> string" where
  "io_text e = (case e of Io m \<Rightarrow> m | _ \<Rightarrow> [])"

text \<open>A result of the step: the reason it ended the session, if it did.\<close>

type_synonym stepped = "(string option \<times> session \<times> clipboard) option"

definition read_side :: "revents \<Rightarrow> recv_answer \<Rightarrow> dir \<Rightarrow> string \<Rightarrow> string \<Rightarrow> session \<Rightarrow> string option \<times> session" where
  "read_side ev ans d gone what s =
     (if ev AND (ev_in OR POLLHUP OR POLLERR) \<noteq> 0
      then (case ep_read ans (src d s) of
              (Inr n, e) \<Rightarrow> (if n = 0 then Some gone else None, set_src d e s)
            | (Inl err, e) \<Rightarrow> (Some (what @ '' read: '' @ io_text err), set_src d e s))
      else (None, s))"

definition pump_side :: "kernel \<Rightarrow> (string \<Rightarrow> string) \<Rightarrow> dir \<Rightarrow> session \<Rightarrow> clipboard \<Rightarrow> (session \<Rightarrow> clipboard \<Rightarrow> stepped) \<Rightarrow> stepped" where
  "pump_side k dbg d s c next = (case pump k d s c of
       None \<Rightarrow> None
     | Some (Some e, s, c) \<Rightarrow> if e = Panic then None else Some (Some (session_error_fmt dbg e), s, c)
     | Some (None, s, c) \<Rightarrow> next s c)"

definition flush_side :: "(bytes \<Rightarrow> fd list \<Rightarrow> send_answer) list \<Rightarrow> dir \<Rightarrow> string \<Rightarrow> clipboard \<Rightarrow> session \<Rightarrow> (session \<Rightarrow> stepped) \<Rightarrow> stepped" where
  "flush_side sends d what c s next = (case ep_flush sends (src d s) of
       (Inr _, e) \<Rightarrow> next (set_src d e s)
     | (Inl err, e) \<Rightarrow> if err = Panic then None else Some (Some (what @ '' write: '' @ io_text err), set_src d e s, c))"

definition ses_step :: "kernel \<Rightarrow> (string \<Rightarrow> string) \<Rightarrow> totals \<Rightarrow> ses_io \<Rightarrow> session \<Rightarrow> clipboard \<Rightarrow> stepped" where
  "ses_step k dbg tot io s c =
     (let old = usage_of s in
      if (io_ce io OR io_se io) AND POLLNVAL \<noteq> 0 then Some (Some ''a socket vanished under the proxy'', s, c)
      else case read_side (io_ce io) (io_client_read io) ClientToServer ''client disconnected'' ''client'' s of
        (Some why, s) \<Rightarrow> Some (Some why, s, c)
      | (None, s) \<Rightarrow> (case read_side (io_se io) (io_server_read io) ServerToClient ''compositor closed the connection'' ''compositor'' s of
          (Some why, s) \<Rightarrow> Some (Some why, s, c)
        | (None, s) \<Rightarrow>
            pump_side k dbg ClientToServer s c (\<lambda>s c.
            pump_side k dbg ServerToClient s c (\<lambda>s c.
              case over_budget tot old (usage_of s) of
                None \<Rightarrow> None
              | Some True \<Rightarrow> Some (Some ''zone Wayland resource budget exceeded'', s, c)
              | Some False \<Rightarrow>
                  flush_side (io_server_sends io) ServerToClient ''compositor'' c s (\<lambda>s.
                  flush_side (io_client_sends io) ClientToServer ''client'' c s (\<lambda>s. Some (None, s, c)))))))"

definition id_text :: "u64 \<Rightarrow> string" where
  "id_text i = ''client #'' @ show_word i"

definition ended_text :: "live \<Rightarrow> string \<Rightarrow> string" where
  "ended_text l why = id_text (l_id l) @ '' ended: '' @ why @ '' (forwarded '' @ nat_to_string (forwarded_c2s (l_s l)) @ '' requests, ''
     @ nat_to_string (forwarded_s2c (l_s l)) @ '' events; hid '' @ nat_to_string (hidden_count (l_s l)) @ '' globals; rewrote ''
     @ nat_to_string (rewritten_count (l_s l)) @ '' identities)''"

text \<open>\<open>tot - old + new\<close>, as the code computes it.\<close>

definition retotal :: "totals \<Rightarrow> totals \<Rightarrow> totals \<Rightarrow> totals option" where
  "retotal tot old new = (case (tot, old, new) of ((tb, tc, tt), (ob, oc, ot), (nb, nc, nt)) \<Rightarrow>
     if ob \<le> tb \<and> oc \<le> tc \<and> ot \<le> tt then Some (tb - ob + nb, tc - oc + nc, tt - ot + nt) else None)"

definition log_unpunched :: "nat \<Rightarrow> live \<Rightarrow> log \<Rightarrow> live \<times> log" where
  "log_unpunched now l lg = (case unpunched (l_s l) of
       Some e \<Rightarrow> (l\<lparr>l_s := (l_s l)\<lparr>unpunched := None\<rparr>\<rparr>,
         log_line now (id_text (l_id l) @ '': a gone pool's pages were not freed: '' @ e) lg)
     | None \<Rightarrow> (l, lg))"

record looped =
  lp_lives :: "live list"
  lp_clip :: clipboard
  lp_log :: log
  lp_closed :: "nat list"
  lp_total :: totals

definition step_live :: "kernel \<Rightarrow> (string \<Rightarrow> string) \<Rightarrow> nat \<Rightarrow> ses_io \<Rightarrow> live \<Rightarrow> looped \<Rightarrow> looped option" where
  "step_live k dbg now io l lp = (case ses_step k dbg (lp_total lp) io (l_s l) (lp_clip lp) of
       None \<Rightarrow> None
     | Some (ended, s, c) \<Rightarrow>
         (case log_unpunched now (l\<lparr>l_s := s\<rparr>) (lp_log lp) of (l', lg) \<Rightarrow>
           (case ended of
              Some why \<Rightarrow> Some (lp\<lparr>
                lp_lives := lp_lives lp @ [l'\<lparr>l_s := refuse (io_refuse_sends io) why (l_s l')\<rparr>],
                lp_clip := c, lp_log := log_line now (ended_text l' why) lg, lp_closed := lp_closed lp @ [length (lp_lives lp)]\<rparr>)
            | None \<Rightarrow> Option.bind (retotal (lp_total lp) (usage_of (l_s l)) (usage_of s)) (\<lambda>t.
                Some (lp\<lparr>lp_lives := lp_lives lp @ [l'], lp_clip := c, lp_log := lg, lp_total := t\<rparr>)))))"

fun step_lives :: "kernel \<Rightarrow> (string \<Rightarrow> string) \<Rightarrow> nat \<Rightarrow> (nat \<Rightarrow> ses_io) \<Rightarrow> live list \<Rightarrow> looped \<Rightarrow> looped option" where
  "step_lives k dbg now io [] lp = Some lp"
| "step_lives k dbg now io (l # ls) lp =
     Option.bind (step_live k dbg now (io (length (lp_lives lp))) l lp) (step_lives k dbg now io ls)"

definition zone_totals :: "proxy \<Rightarrow> totals" where
  "zone_totals px =
     (sum_list (map (\<lambda>l. shm_pool_bytes (l_s l)) (px_sessions px)) + sum_list (map (\<lambda>(_, size, _). size) (px_gone px)),
      sum_list (map (\<lambda>l. shm_pool_count (l_s l)) (px_sessions px)) + length (px_gone px),
      sum_list (map (\<lambda>l. toplevels (l_s l)) (px_sessions px)))"

definition step_sessions :: "kernel \<Rightarrow> (string \<Rightarrow> string) \<Rightarrow> nat \<Rightarrow> (nat \<Rightarrow> ses_io) \<Rightarrow> proxy \<Rightarrow> (nat list \<times> proxy) option" where
  "step_sessions k dbg now io px =
     map_option (\<lambda>lp. (lp_closed lp, px\<lparr>px_sessions := lp_lives lp, px_clip := lp_clip lp, px_log := lp_log lp\<rparr>))
       (step_lives k dbg now io (px_sessions px)
         \<lparr>lp_lives = [], lp_clip = px_clip px, lp_log = px_log px, lp_closed = [], lp_total = zone_totals px\<rparr>)"

section \<open>The move gesture\<close>

text \<open>
  The control socket's turn: a connection accepted from it, with the peer's uid, and what the kernel
  answers the move in progress. The line sent to a refused peer goes to its socket alone.
\<close>

record move_io =
  mv_accept :: "(fd \<times> u32 option) option"
  mv_pipe2 :: "(fd \<times> fd) option"
  mv_io :: ctl_io

definition accept_move :: "u32 \<Rightarrow> nat \<Rightarrow> (fd \<times> u32 option) option \<Rightarrow> proxy \<Rightarrow> proxy" where
  "accept_move me now acc px = (case acc of
       None \<Rightarrow> px
     | Some (f, peer) \<Rightarrow>
         if peer \<noteq> Some me then px\<lparr>px_log := log_line now ''move refused: not the session's user'' (px_log px)\<rparr>
         else if px_moving px \<noteq> None then px\<lparr>px_log := log_line now ''move refused: a move is already in progress'' (px_log px)\<rparr>
         else px\<lparr>px_moving := Some (ctl_new f now)\<rparr>)"

definition step_move :: "(string \<Rightarrow> string) \<Rightarrow> nat \<Rightarrow> move_io \<Rightarrow> proxy \<Rightarrow> proxy" where
  "step_move dbg now io px = (case px_moving px of
       None \<Rightarrow> px
     | Some m \<Rightarrow> (case ctl_step dbg (mv_pipe2 io) now (mv_io io) (px_clip px, m) of
         (True, c, m) \<Rightarrow> px\<lparr>px_clip := c, px_moving := None,
            px_log := (if said m = [] then px_log px else log_line now (said m) (px_log px))\<rparr>
       | (False, c, m) \<Rightarrow> px\<lparr>px_clip := c, px_moving := Some m\<rparr>))"

section \<open>Requests between sessions, and the end of sessions\<close>

text \<open>
  The requests that sessions left on the clipboard, each met by the session it names. A descriptor
  of a request that is not met is closed as the request is dropped.
\<close>

definition own_paste :: "nat \<Rightarrow> action \<Rightarrow> proxy \<Rightarrow> proxy" where
  "own_paste now a px = (case (a, Option.bind (selection (px_clip px)) sel_data) of
       (Send _ _ _ f, Some data) \<Rightarrow>
         if length (px_writers px) < MAX_WRITERS then px\<lparr>px_writers := px_writers px @ [writer_new f data now]\<rparr> else px
     | _ \<Rightarrow> px)"

definition do_action :: "(string \<Rightarrow> string) \<Rightarrow> nat \<Rightarrow> (u64 \<Rightarrow> (bytes \<Rightarrow> fd list \<Rightarrow> send_answer) list) \<Rightarrow> action \<Rightarrow>
    nat list \<times> proxy \<Rightarrow> (nat list \<times> proxy) option" where
  "do_action dbg now sends a cp = (case cp of (shut, px) \<Rightarrow>
     if action_session a = OWN then Some (shut, own_paste now a px)
     else case position (\<lambda>l. l_id l = action_session a) (px_sessions px) of
       None \<Rightarrow> Some (shut, px)
     | Some idx \<Rightarrow>
         if idx \<in> set shut then Some (shut, px)
         else let l = px_sessions px ! idx in
           (case act a (px_clip px) (l_s l) of
              (None, s) \<Rightarrow> Some (shut, px\<lparr>px_sessions := (px_sessions px)[idx := l\<lparr>l_s := s\<rparr>]\<rparr>)
            | (Some e, s) \<Rightarrow>
                if e = Panic then None
                else Some (shut @ [idx], px\<lparr>
                  px_sessions := (px_sessions px)[idx := l\<lparr>l_s := refuse (sends (l_id l)) (session_error_fmt dbg e) s\<rparr>],
                  px_log := log_line now (id_text (l_id l) @ '' ended: '' @ session_error_fmt dbg e) (px_log px)\<rparr>)))"

fun do_actions :: "(string \<Rightarrow> string) \<Rightarrow> nat \<Rightarrow> (u64 \<Rightarrow> (bytes \<Rightarrow> fd list \<Rightarrow> send_answer) list) \<Rightarrow> action list \<Rightarrow>
    nat list \<times> proxy \<Rightarrow> (nat list \<times> proxy) option" where
  "do_actions dbg now sends [] cp = Some cp"
| "do_actions dbg now sends (a # as) cp = Option.bind (do_action dbg now sends a cp) (do_actions dbg now sends as)"

definition take_actions :: "(string \<Rightarrow> string) \<Rightarrow> nat \<Rightarrow> (u64 \<Rightarrow> (bytes \<Rightarrow> fd list \<Rightarrow> send_answer) list) \<Rightarrow>
    nat list \<times> proxy \<Rightarrow> (nat list \<times> proxy) option" where
  "take_actions dbg now sends cp = (case cp of (shut, px) \<Rightarrow>
     do_actions dbg now sends (actions (px_clip px)) (shut, px\<lparr>px_clip := (px_clip px)\<lparr>actions := []\<rparr>\<rparr>))"

text \<open>The pools due, each punched; what could not be is logged.\<close>

fun punch_all :: "kernel \<Rightarrow> nat \<Rightarrow> (fd \<times> nat \<times> nat) list \<Rightarrow> log \<Rightarrow> log" where
  "punch_all k now [] lg = lg"
| "punch_all k now ((f, n, _) # gs) lg = punch_all k now gs (case k_punch k f n of
       Some e \<Rightarrow> log_line now (''a gone pool's pages were not freed: '' @ e) lg
     | None \<Rightarrow> lg)"

datatype turn_end = Go_On proxy | Exit int proxy

text \<open>\<open>sessions.remove(idx)\<close> and what goes with it; \<^const>\<open>None\<close> is its panic out of range.\<close>

definition close_session :: "nat \<Rightarrow> nat \<Rightarrow> proxy \<Rightarrow> proxy option" where
  "close_session now idx px =
     (if idx < length (px_sessions px)
      then let l = px_sessions px ! idx in Some (px\<lparr>
        px_sessions := take idx (px_sessions px) @ drop (Suc idx) (px_sessions px),
        px_gone := px_gone px @ map (\<lambda>(f, size). (f, size, now + POOL_GRACE)) (fst (take_pools (l_s l))),
        px_clip := session_gone (l_id l) (px_clip px),
        px_served := px_served px + 1\<rparr>)
      else None)"

fun close_sessions :: "kernel \<Rightarrow> opts \<Rightarrow> nat \<Rightarrow> nat list \<Rightarrow> proxy \<Rightarrow> turn_end option" where
  "close_sessions k o' now [] px = Some (Go_On px)"
| "close_sessions k o' now (idx # idxs) px = Option.bind (close_session now idx px) (\<lambda>px.
     if o_once o' then Some (Exit 0 (px\<lparr>px_log := punch_all k now (px_gone px) (px_log px), px_gone := []\<rparr>))
     else close_sessions k o' now idxs px)"

text \<open>\<open>sort_unstable\<close> and \<open>dedup\<close>.\<close>

definition sort_dedup :: "nat list \<Rightarrow> nat list" where
  "sort_dedup xs = remdups_adj (sort xs)"

lemma sorted_remdups_adj_distinct: "sorted xs \<Longrightarrow> distinct (remdups_adj xs)" for xs :: "nat list"
  by (induction xs rule: remdups_adj.induct) auto

lemma sort_dedup_props: "sorted (sort_dedup xs)" "distinct (sort_dedup xs)" "set (sort_dedup xs) = set xs"
  by (simp_all add: sort_dedup_def sorted_remdups_adj sorted_remdups_adj_distinct)

lemma close_sessions_length:
  "close_sessions k o' now idxs px = Some (Go_On px') \<Longrightarrow> length (px_sessions px') + length idxs = length (px_sessions px)"
  by (induction idxs arbitrary: px)
    (auto simp: close_session_def Let_def split: Option.bind_splits if_splits)

text \<open>
  The loop over the requests and the sessions to close: closing a session may leave requests for the
  others. It ends, as each pass but the last closes a session.
\<close>

function settle :: "kernel \<Rightarrow> opts \<Rightarrow> (string \<Rightarrow> string) \<Rightarrow> nat \<Rightarrow> (u64 \<Rightarrow> (bytes \<Rightarrow> fd list \<Rightarrow> send_answer) list) \<Rightarrow>
    nat list \<times> proxy \<Rightarrow> turn_end option" where
  "settle k o' dbg now sends cp = (case take_actions dbg now sends cp of
       None \<Rightarrow> None
     | Some (shut, px) \<Rightarrow>
         if shut = [] then Some (Go_On px)
         else (case close_sessions k o' now (rev (sort_dedup shut)) px of
             Some (Go_On px) \<Rightarrow> settle k o' dbg now sends ([], px)
           | r \<Rightarrow> r))"
  by pat_completeness auto

lemma own_paste_sessions [simp]: "px_sessions (own_paste now a px) = px_sessions px"
  by (simp add: own_paste_def split: action.split option.split)

lemma do_action_length:
  "do_action dbg now sends a (sh, px) = Some (sh', px') \<Longrightarrow> length (px_sessions px') = length (px_sessions px)"
  by (auto simp: do_action_def Let_def split: if_splits option.splits prod.splits)

lemma do_actions_length:
  "do_actions dbg now sends as (sh, px) = Some (sh', px') \<Longrightarrow> length (px_sessions px') = length (px_sessions px)"
  by (induction as arbitrary: sh px) (auto simp: do_action_length split: Option.bind_splits)

lemma take_actions_length:
  "take_actions dbg now sends (sh, px) = Some (sh', px') \<Longrightarrow> length (px_sessions px') = length (px_sessions px)"
  by (auto simp: take_actions_def dest: do_actions_length)

lemma sort_dedup_Nil: "sort_dedup xs = [] \<longleftrightarrow> xs = []"
  using sort_dedup_props(3) [of xs] by (metis set_empty)

termination settle
proof (relation "measure (\<lambda>(_, _, _, _, _, cp). length (px_sessions (snd cp)))", goal_cases)
  case (2 k o' dbg now sends cp x shut px r px')
  obtain sh p where cp: "cp = (sh, p)" by (cases cp)
  have "length (px_sessions px) = length (px_sessions p)" using 2 cp by (auto dest: take_actions_length)
  moreover have "0 < length (sort_dedup shut)" using 2 sort_dedup_Nil by simp
  ultimately show ?case using close_sessions_length [of k o' now "rev (sort_dedup shut)" px px'] 2 cp by (simp del: length_greater_0_conv)
qed simp

declare settle.simps [simp del]

section \<open>Pastes, pools of ended sessions, and the accept\<close>

definition step_writers :: "nat \<Rightarrow> (fd \<Rightarrow> write_answer list) \<Rightarrow> proxy \<Rightarrow> proxy" where
  "step_writers now ws px = px\<lparr>px_writers :=
     map snd (filter (\<lambda>r. \<not> fst r) (map (\<lambda>w. writer_step now (ws (w_fd w)) w) (px_writers px)))\<rparr>"

definition punch_due :: "kernel \<Rightarrow> nat \<Rightarrow> proxy \<Rightarrow> proxy" where
  "punch_due k now px = px\<lparr>
     px_log := punch_all k now (filter (\<lambda>(_, _, at). at \<le> now) (px_gone px)) (px_log px),
     px_gone := filter (\<lambda>(_, _, at). \<not> at \<le> now) (px_gone px)\<rparr>"

datatype accept_answer = Accepted fd "string + fd" | Accept_WouldBlock | Accept_Error string

text \<open>
  The accept, with the answer of the connection to the compositor for the client accepted.
  \<^const>\<open>None\<close> is a panic: of \<open>Session::new\<close>, or of the counter of clients.
\<close>

definition accept_client :: "opts \<Rightarrow> nat \<Rightarrow> accept_answer \<Rightarrow> proxy \<Rightarrow> proxy option" where
  "accept_client o' now acc px = (case acc of
       Accepted cfd (Inr sfd) \<Rightarrow>
         (case session_new (o_zone o') cfd sfd of
            None \<Rightarrow> None
          | Some s \<Rightarrow>
              if px_next_id px = - 1 then None
              else Some (px\<lparr>
                px_log := log_line now (id_text (px_next_id px) @ '' connected'') (px_log px),
                px_sessions := px_sessions px @ [\<lparr>l_s = s\<lparr>ses_id := px_next_id px, hold_awake := o_hold_awake o'\<rparr>, l_id = px_next_id px\<rparr>],
                px_next_id := px_next_id px + 1\<rparr>))
     | Accepted cfd (Inl e) \<Rightarrow>
         Some (px\<lparr>px_log := log_line now (''compositor at '' @ o_upstream o' @ '' refused: '' @ e) (px_log px)\<rparr>)
     | Accept_WouldBlock \<Rightarrow> Some px
     | Accept_Error e \<Rightarrow> Some (px\<lparr>px_log := log_line now (''accept: '' @ e) (px_log px), px_accept_after := now + 1000\<rparr>))"

section \<open>A turn\<close>

record turn_io =
  t_listen :: revents
  t_accept :: accept_answer
  t_ses :: "nat \<Rightarrow> ses_io"
  t_move :: move_io
  t_refuse :: "u64 \<Rightarrow> (bytes \<Rightarrow> fd list \<Rightarrow> send_answer) list"
  t_writes :: "fd \<Rightarrow> write_answer list"
  t_now :: nat
  t_later :: nat

datatype poll_answer = Polled turn_io | Poll_Interrupted | Poll_Error string

definition finish_turn :: "kernel \<Rightarrow> opts \<Rightarrow> turn_io \<Rightarrow> proxy \<Rightarrow> turn_end option" where
  "finish_turn k o' io px =
     (let px = punch_due k (t_later io) (step_writers (t_later io) (t_writes io) px) in
      if t_listen io AND ev_in \<noteq> 0 then map_option Go_On (accept_client o' (t_later io) (t_accept io) px) else Some (Go_On px))"

definition proxy_turn :: "kernel \<Rightarrow> opts \<Rightarrow> u32 \<Rightarrow> (string \<Rightarrow> string) \<Rightarrow> poll_answer \<Rightarrow> proxy \<Rightarrow> turn_end option" where
  "proxy_turn k o' me dbg ans px = (case ans of
       Poll_Interrupted \<Rightarrow> Some (Go_On px)
     | Poll_Error _ \<Rightarrow> Some (Exit 1 px)
     | Polled io \<Rightarrow> (case step_sessions k dbg (t_now io) (t_ses io) px of
         None \<Rightarrow> None
       | Some (shut, px) \<Rightarrow>
           (case settle k o' dbg (t_now io) (t_refuse io) (shut,
                step_move dbg (t_now io) (t_move io) (accept_move me (t_now io) (mv_accept (t_move io)) px)) of
              Some (Go_On px) \<Rightarrow> finish_turn k o' io px
            | r \<Rightarrow> r)))"

end
