(* ===== verification/Turn_Safe.thy ===== *)
theory Turn_Safe
  imports Proxy_Turn
begin

unbundle bit_operations_syntax

text \<open>
  The proxy's loop as a whole: every turn from a reachable state returns, keeps each session reachable
  and the zone within its budgets; and what passing a budget does to the zone's other sessions.
\<close>

section \<open>The step of a session\<close>

lemma usage_set_src [simp]: "usage_of (set_src d e s) = usage_of s"
  by (cases d) (simp_all add: usage_of_def set_src_def)

lemma ses_id_set_src [simp]: "ses_id (set_src d e s) = ses_id s"
  by (cases d) (simp_all add: set_src_def)

lemma over_budget_False:
  "over_budget (tb, tc, tt) (ob, oc, ot) (nb, nc, nt) = Some False \<longleftrightarrow>
     ob \<le> tb + nb \<and> oc \<le> tc + nc \<and> ot \<le> tt + nt
     \<and> tb + nb - ob \<le> MAX_SHM_BYTES_PER_ZONE \<and> tc + nc - oc \<le> MAX_SHM_POOLS_PER_ZONE \<and> tt + nt - ot \<le> MAX_TOPLEVELS_PER_ZONE"
  by (auto simp: over_budget_def replaced_def)

lemma over_budget_None:
  assumes "ob \<le> tb" "oc \<le> tc" "ot \<le> tt"
  shows "over_budget (tb, tc, tt) (ob, oc, ot) (nb, nc, nt) \<noteq> None"
  using assms by (auto simp: over_budget_def replaced_def)

lemma read_side_usage: "read_side ev a d g w s = (r, s') \<Longrightarrow> usage_of s' = usage_of s \<and> ses_id s' = ses_id s"
  by (auto simp: read_side_def split: if_splits prod.splits sum.splits)

lemma read_side_reach: "ses_reach k s \<Longrightarrow> read_side ev a d g w s = (None, s') \<Longrightarrow> ses_reach k s'"
  by (auto simp: read_side_def intro: ses_reach.read_in split: if_splits prod.splits sum.splits)

lemma ses_step_Some_None:
  assumes "ses_step k dbg tot io s c = Some (None, s', c')"
  shows "over_budget tot (usage_of s) (usage_of s') = Some False"
  using assms unfolding ses_step_def Let_def pump_side_def flush_side_def
  by (auto split: if_splits prod.splits option.splits sum.splits bool.splits dest!: read_side_usage)

text \<open>A step that returns, and leaves a session it does not end reachable.\<close>

definition step_good :: "kernel \<Rightarrow> u64 \<Rightarrow> stepped \<Rightarrow> bool" where
  "step_good k i r \<longleftrightarrow> (\<exists>e s c. r = Some (e, s, c) \<and> (e = None \<longrightarrow> ses_reach k s \<and> ses_id s = i))"

lemma step_good_ended: "step_good k i (Some (Some e, s, c))"
  by (simp add: step_good_def)

lemma pump_side_good:
  assumes "ses_reach k s" "ses_id s = i"
    and "\<And>s' c'. ses_reach k s' \<Longrightarrow> ses_id s' = i \<Longrightarrow> step_good k i (f s' c')"
  shows "step_good k i (pump_side k dbg d s c f)"
proof -
  obtain e s' c' where p: "pump k d s c = Some (e, s', c')" "e \<noteq> Some Panic" "e = None \<Longrightarrow> in_le s s'"
    by (rule pump_ok [OF reach_ses_inv [OF assms(1)], of k d c]) blast
  show ?thesis
  proof (cases e)
    case None
    then have "ses_reach k s'" "ses_id s' = i" using p ses_reach.pump [OF assms(1)] assms(2) by (auto simp: in_le_def)
    then show ?thesis using p None assms(3) by (simp add: pump_side_def)
  qed (use p in \<open>auto simp: pump_side_def step_good_ended\<close>)
qed

lemma flush_side_good:
  assumes "ses_reach k s" "ses_id s = i" "sends_ok sends"
    and "\<And>s'. ses_reach k s' \<Longrightarrow> ses_id s' = i \<Longrightarrow> step_good k i (f s')"
  shows "step_good k i (flush_side sends d what c s f)"
proof -
  obtain r e where f: "ep_flush sends (src d s) = (r, e)" by (cases "ep_flush sends (src d s)")
  have "ep_ok (src d s)" using reach_inv_srcD [OF ses_reach_inv [OF assms(1)], of d] by (simp add: ep_inv_def)
  then have "r \<noteq> Inl Panic" using ep_flush_correct [OF _ assms(3)] f by (metis fst_conv)
  moreover have "step_good k i (f (set_src d e s))" if "r = Inr b" for b
    using ses_reach.flush [OF assms(1,3)] f that assms(2,4) by simp
  ultimately show ?thesis using f by (cases r) (auto simp: flush_side_def step_good_ended)
qed

lemma ses_step_good:
  assumes "ses_reach k s" "sends_ok (io_server_sends io)" "sends_ok (io_client_sends io)"
    and "shm_pool_bytes s \<le> tb" "shm_pool_count s \<le> tc" "toplevels s \<le> tt"
  shows "step_good k (ses_id s) (ses_step k dbg (tb, tc, tt) io s c)"
proof -
  obtain r1 s1 where 1: "read_side (io_ce io) (io_client_read io) ClientToServer ''client disconnected'' ''client'' s = (r1, s1)" by fastforce
  obtain r2 s2 where 2: "read_side (io_se io) (io_server_read io) ServerToClient ''compositor closed the connection'' ''compositor'' s1 = (r2, s2)" by fastforce
  have id2: "ses_id s2 = ses_id s" using read_side_usage [OF 1] read_side_usage [OF 2] by simp
  have reach2: "ses_reach k s2" if "r1 = None" "r2 = None"
    by (rule read_side_reach [OF read_side_reach [OF assms(1) 1 [unfolded that(1)]] 2 [unfolded that(2)]])
  have budget: "over_budget (tb, tc, tt) (usage_of s) (usage_of t) \<noteq> None" for t
    unfolding usage_of_def by (rule over_budget_None [OF assms(4-6)])
  have fin: "step_good k (ses_id s) (case over_budget (tb, tc, tt) (usage_of s) (usage_of t) of
                None \<Rightarrow> None
              | Some True \<Rightarrow> Some (Some ''zone Wayland resource budget exceeded'', t, c)
              | Some False \<Rightarrow>
                  flush_side (io_server_sends io) ServerToClient ''compositor'' c t (\<lambda>s.
                  flush_side (io_client_sends io) ClientToServer ''client'' c s (\<lambda>s. Some (None, s, c))))"
    if t: "ses_reach k t" "ses_id t = ses_id s" for t c
  proof -
    have "step_good k (ses_id s) (flush_side (io_server_sends io) ServerToClient ''compositor'' c t (\<lambda>s.
                  flush_side (io_client_sends io) ClientToServer ''client'' c s (\<lambda>s. Some (None, s, c))))"
      by (intro flush_side_good t assms(2,3)) (simp_all add: step_good_def)
    then show ?thesis using budget [of t] by (auto simp: step_good_ended split: bool.split)
  qed
  have pumps: "step_good k (ses_id s) (pump_side k dbg ClientToServer s2 c (\<lambda>s' c'. pump_side k dbg ServerToClient s' c' (\<lambda>t c.
        case over_budget (tb, tc, tt) (usage_of s) (usage_of t) of
                None \<Rightarrow> None
              | Some True \<Rightarrow> Some (Some ''zone Wayland resource budget exceeded'', t, c)
              | Some False \<Rightarrow>
                  flush_side (io_server_sends io) ServerToClient ''compositor'' c t (\<lambda>s.
                  flush_side (io_client_sends io) ClientToServer ''client'' c s (\<lambda>s. Some (None, s, c))))))"
    if "r1 = None" "r2 = None"
    by (intro pump_side_good reach2 id2 that fin)
  show ?thesis
    by (cases r1; cases r2) (simp_all add: ses_step_def Let_def 1 2 step_good_ended pumps)
qed

section \<open>The loop over the sessions\<close>

definition live_ok :: "kernel \<Rightarrow> live \<Rightarrow> bool" where
  "live_ok k l \<longleftrightarrow> ses_reach k (l_s l) \<and> ses_id (l_s l) = l_id l"

text \<open>The sessions not to be closed, and the zone's limits on what they use together.\<close>

definition surv :: "nat list \<Rightarrow> live list \<Rightarrow> live list" where
  "surv sh ls = nths ls (- set sh)"

abbreviation used :: "(session \<Rightarrow> nat) \<Rightarrow> live list \<Rightarrow> nat" where
  "used f ls \<equiv> sum_list (map (\<lambda>l. f (l_s l)) ls)"

definition fits :: "live list \<Rightarrow> bool" where
  "fits ls \<longleftrightarrow> used shm_pool_bytes ls \<le> MAX_SHM_BYTES_PER_ZONE \<and> used shm_pool_count ls \<le> MAX_SHM_POOLS_PER_ZONE
     \<and> used toplevels ls \<le> MAX_TOPLEVELS_PER_ZONE"

definition loop_ok :: "kernel \<Rightarrow> live list \<Rightarrow> looped \<Rightarrow> bool" where
  "loop_ok k ls lp \<longleftrightarrow> (case lp_total lp of (tb, tc, tt) \<Rightarrow>
     set (lp_closed lp) \<subseteq> {..<length (lp_lives lp)}
     \<and> list_all (live_ok k) (surv (lp_closed lp) (lp_lives lp)) \<and> list_all (live_ok k) ls
     \<and> used shm_pool_bytes (surv (lp_closed lp) (lp_lives lp)) + used shm_pool_bytes ls \<le> tb
     \<and> used shm_pool_count (surv (lp_closed lp) (lp_lives lp)) + used shm_pool_count ls \<le> tc
     \<and> used toplevels (surv (lp_closed lp) (lp_lives lp)) + used toplevels ls \<le> tt
     \<and> (surv (lp_closed lp) (lp_lives lp) \<noteq> [] \<longrightarrow>
          tb \<le> MAX_SHM_BYTES_PER_ZONE \<and> tc \<le> MAX_SHM_POOLS_PER_ZONE \<and> tt \<le> MAX_TOPLEVELS_PER_ZONE))"

lemma surv_Nil [simp]: "surv [] ls = ls"
  by (simp add: surv_def nths_all)

lemma surv_keep:
  assumes "set sh \<subseteq> {..<length ls}"
  shows "surv sh (ls @ [l]) = surv sh ls @ [l]"
proof -
  have "length ls \<notin> set sh" using assms by auto
  then show ?thesis by (simp add: surv_def nths_append)
qed

lemma surv_close: "surv (sh @ [length ls]) (ls @ [l]) = surv sh ls"
  unfolding surv_def nths_append
  by (auto simp: nths_def intro!: arg_cong [where f = "map fst"] filter_cong dest!: set_zip_rightD)

lemma log_unpunched_eqs:
  "log_unpunched now l lg = (l', lg') \<Longrightarrow> l_id l' = l_id l \<and> usage_of (l_s l') = usage_of (l_s l) \<and> (live_ok k l \<longrightarrow> live_ok k l')"
  by (auto simp: log_unpunched_def usage_of_def live_ok_def intro: ses_reach.logged split: option.splits)

lemma step_live_ok:
  assumes ok: "loop_ok k (l # ls) lp" and io: "sends_ok (io_server_sends io)" "sends_ok (io_client_sends io)"
  shows "\<exists>lp'. step_live k dbg now io l lp = Some lp' \<and> loop_ok k ls lp' \<and> map l_id (lp_lives lp') = map l_id (lp_lives lp) @ [l_id l]"
proof -
  obtain tb tc tt where tot: "lp_total lp = (tb, tc, tt)" by (cases "lp_total lp")
  have l: "ses_reach k (l_s l)" "ses_id (l_s l) = l_id l" using ok tot by (auto simp: loop_ok_def live_ok_def)
  have le: "shm_pool_bytes (l_s l) \<le> tb" "shm_pool_count (l_s l) \<le> tc" "toplevels (l_s l) \<le> tt"
    using ok tot by (auto simp: loop_ok_def)
  obtain e s c where st: "ses_step k dbg (tb, tc, tt) io (l_s l) (lp_clip lp) = Some (e, s, c)"
      "e = None \<Longrightarrow> ses_reach k s \<and> ses_id s = l_id l"
    using ses_step_good [OF l(1) io le] l(2) unfolding step_good_def by metis
  obtain l' lg where lg: "log_unpunched now (l\<lparr>l_s := s\<rparr>) (lp_log lp) = (l', lg)" by fastforce
  note l' = log_unpunched_eqs [OF lg, of k]
  show ?thesis
  proof (cases e)
    case (Some why)
    then show ?thesis
      using ok st(1) lg l' tot by (auto simp: step_live_def loop_ok_def surv_close)
  next
    case None
    have "over_budget (tb, tc, tt) (usage_of (l_s l)) (usage_of s) = Some False"
      using ses_step_Some_None st(1) None by simp
    then have b: "tb + shm_pool_bytes s - shm_pool_bytes (l_s l) \<le> MAX_SHM_BYTES_PER_ZONE"
        "tc + shm_pool_count s - shm_pool_count (l_s l) \<le> MAX_SHM_POOLS_PER_ZONE"
        "tt + toplevels s - toplevels (l_s l) \<le> MAX_TOPLEVELS_PER_ZONE"
      by (auto simp: usage_of_def over_budget_False)
    have u: "shm_pool_bytes (l_s l') = shm_pool_bytes s" "shm_pool_count (l_s l') = shm_pool_count s" "toplevels (l_s l') = toplevels s"
      using l' by (auto simp: usage_of_def)
    have "live_ok k l'" using l' st(2) None by (auto simp: live_ok_def)
    moreover have "set (lp_closed lp) \<subseteq> {..<length (lp_lives lp)}" using ok tot by (simp add: loop_ok_def)
    ultimately show ?thesis
      using ok st(1) lg l' tot None le b u
      by (auto simp: step_live_def loop_ok_def surv_keep retotal_def usage_of_def)
  qed
qed

lemma step_lives_ok:
  assumes "loop_ok k ls lp" "\<And>i. sends_ok (io_server_sends (io i)) \<and> sends_ok (io_client_sends (io i))"
  shows "\<exists>lp'. step_lives k dbg now io ls lp = Some lp' \<and> loop_ok k [] lp' \<and> map l_id (lp_lives lp') = map l_id (lp_lives lp) @ map l_id ls"
  using assms
proof (induction ls arbitrary: lp)
  case (Cons l ls)
  obtain lp1 where 1: "step_live k dbg now (io (length (lp_lives lp))) l lp = Some lp1" "loop_ok k ls lp1"
      "map l_id (lp_lives lp1) = map l_id (lp_lives lp) @ [l_id l]"
    using step_live_ok [OF Cons.prems(1)] Cons.prems(2) by blast
  then show ?case using Cons.IH [OF 1(2) Cons.prems(2)] by auto
qed simp

section \<open>Requests between sessions\<close>

lemma andthen_usage:
  "usage_of (snd r) = u \<Longrightarrow> (\<And>s. usage_of s = u \<Longrightarrow> usage_of (snd (f s)) = u) \<Longrightarrow> usage_of (snd (andthen r f)) = u"
  by (cases r) (simp add: andthen_def split: option.split)

lemma emit_usage: "usage_of (snd (emit m fs s)) = usage_of s"
  by (simp add: emit_def usage_of_def drop_fds_def split: option.split)

lemma register_usage: "n \<noteq> ''xdg_toplevel'' \<Longrightarrow> usage_of (snd (register i n v d s)) = usage_of s"
  by (auto simp: register_def usage_of_def Let_def find_Some split: option.split prod.split)

lemma emit_types_usage: "usage_of (snd (emit_types i ts s)) = usage_of s"
  by (induction ts arbitrary: s) (auto intro!: andthen_usage simp: emit_usage)

lemma offer_to_usage: "usage_of (snd (offer_to c dev s)) = usage_of s"
proof -
  have r: "usage_of (snd (register i ''wl_data_offer'' v d s)) = usage_of s" for i v d
    by (rule register_usage) simp
  have o': "usage_of (t\<lparr>offers := x\<rparr>) = usage_of t" for t x by (simp add: usage_of_def)
  show ?thesis
    by (auto simp: offer_to_def emit_usage emit_types_usage r o' intro!: andthen_usage split: option.split prod.split)
qed

lemma offer_selection_usage: "usage_of (snd (offer_selection c devs s)) = usage_of s"
  by (induction devs arbitrary: s) (auto intro!: andthen_usage simp: offer_to_usage)

lemma act_usage: "usage_of (snd (act a c s)) = usage_of s"
  by (cases a) (auto simp: act_def offer_selection_usage cancel_def emit_usage, simp add: usage_of_def drop_fds_def)

text \<open>The proxy between two requests; \<open>sh\<close> are the sessions it is about to close.\<close>

definition px_ok :: "kernel \<Rightarrow> nat list \<Rightarrow> proxy \<Rightarrow> bool" where
  "px_ok k sh px \<longleftrightarrow> set sh \<subseteq> {..<length (px_sessions px)}
     \<and> list_all (live_ok k) (surv sh (px_sessions px)) \<and> fits (surv sh (px_sessions px))
     \<and> distinct (map l_id (px_sessions px)) \<and> list_all (\<lambda>l. l_id l \<noteq> OWN \<and> l_id l < px_next_id px) (px_sessions px)
     \<and> length (px_writers px) \<le> MAX_WRITERS \<and> px_next_id px \<noteq> 0"

lemma used_usage:
  "used shm_pool_bytes ls = sum_list (map fst (map (\<lambda>l. usage_of (l_s l)) ls))"
  "used shm_pool_count ls = sum_list (map (fst \<circ> snd) (map (\<lambda>l. usage_of (l_s l)) ls))"
  "used toplevels ls = sum_list (map (snd \<circ> snd) (map (\<lambda>l. usage_of (l_s l)) ls))"
  by (simp_all add: usage_of_def comp_def)

lemma fits_usage: "map (\<lambda>l. usage_of (l_s l)) ls' = map (\<lambda>l. usage_of (l_s l)) ls \<Longrightarrow> fits ls \<Longrightarrow> fits ls'"
  unfolding fits_def used_usage by (simp only:)

lemma nths_update_outside: "i \<notin> A \<Longrightarrow> nths (ls[i := x]) A = nths ls A"
  by (induction ls arbitrary: i A) (auto simp: nths_Cons split: nat.split)

lemma surv_update:
  assumes "idx < length ls" "usage_of (l_s l) = usage_of (l_s (ls ! idx))" "fits (surv sh ls)"
  shows "fits (surv sh (ls[idx := l]))"
proof (rule fits_usage [OF _ assms(3)])
  let ?u = "\<lambda>l. usage_of (l_s l)"
  have "map ?u (ls[idx := l]) = map ?u ls" using assms(1,2) by (simp add: map_update list_update_same_conv)
  then show "map ?u (surv sh (ls[idx := l])) = map ?u (surv sh ls)" by (simp add: surv_def flip: nths_map)
qed

lemma used_nths_mono: "B \<subseteq> A \<Longrightarrow> used f (nths ls B) \<le> used f (nths ls A)"
  by (induction ls rule: rev_induct) (auto simp: nths_append)

lemma surv_more:
  assumes "fits (surv sh ls)"
  shows "fits (surv (sh @ [i]) ls)"
proof -
  have "- set (sh @ [i]) \<subseteq> - set sh" by auto
  note m = used_nths_mono [OF this, of _ ls]
  show ?thesis
    using assms m [of shm_pool_bytes] m [of shm_pool_count] m [of toplevels] unfolding fits_def surv_def by linarith
qed

lemma list_all_surv: "list_all P (surv sh ls) \<longleftrightarrow> (\<forall>i < length ls. i \<notin> set sh \<longrightarrow> P (ls ! i))"
  by (auto simp: surv_def list_all_iff set_nths)

lemma position_Some: "position P xs = Some i \<Longrightarrow> i < length xs \<and> P (xs ! i)"
  by (induction xs arbitrary: i) (auto split: if_splits)

lemma act_reach:
  assumes "live_ok k l" "act a c (l_s l) = (e, s)"
  shows "e \<noteq> Some Panic" "e = None \<Longrightarrow> live_ok k (l\<lparr>l_s := s\<rparr>)" "usage_of s = usage_of (l_s l)"
proof -
  have l: "ses_reach k (l_s l)" "ses_id (l_s l) = l_id l" using assms(1) by (simp_all add: live_ok_def)
  have safe: "safe (action_fds a) ses_inv (l_s l) (e, s)" using act_safe [OF reach_ses_inv [OF l(1)], of a c] assms(2) by simp
  then show "e \<noteq> Some Panic" by (simp add: safe_def)
  show "usage_of s = usage_of (l_s l)" using act_usage [of a c "l_s l"] assms(2) by simp
  show "live_ok k (l\<lparr>l_s := s\<rparr>)" if "e = None"
    using safe l ses_reach.act [OF l(1)] assms(2) that by (simp add: live_ok_def safe_def keeps_def same_in_def)
qed

lemma px_ok_own_paste: "px_ok k sh px \<Longrightarrow> px_ok k sh (own_paste now a px)"
  by (auto simp: px_ok_def own_paste_def split: action.splits option.splits)

lemma do_action_ok:
  assumes ok: "px_ok k sh px"
  shows "\<exists>sh' px'. do_action dbg now sends a (sh, px) = Some (sh', px') \<and> px_ok k sh' px' \<and> px_next_id px' = px_next_id px"
proof -
  consider (own) "action_session a = OWN" | (none) "action_session a \<noteq> OWN" "position (\<lambda>l. l_id l = action_session a) (px_sessions px) = None"
    | (shut) i where "action_session a \<noteq> OWN" "position (\<lambda>l. l_id l = action_session a) (px_sessions px) = Some i" "i \<in> set sh"
    | (act) i where "action_session a \<noteq> OWN" "position (\<lambda>l. l_id l = action_session a) (px_sessions px) = Some i" "i \<notin> set sh"
    by (cases "position (\<lambda>l. l_id l = action_session a) (px_sessions px)") auto
  then show ?thesis
  proof cases
    case own
    then show ?thesis
      using px_ok_own_paste [OF ok]
      by (auto simp: do_action_def own_paste_def split: action.split option.split)
  next
    case (act i)
    let ?l = "px_sessions px ! i"
    have i: "i < length (px_sessions px)" using act position_Some by blast
    then have l: "live_ok k ?l" using ok act(3) by (auto simp: px_ok_def list_all_surv)
    obtain e s where a: "act a (px_clip px) (l_s ?l) = (e, s)" by fastforce
    note r = act_reach [OF l a]
    have ids: "map l_id ((px_sessions px)[i := ?l\<lparr>l_s := t\<rparr>]) = map l_id (px_sessions px)" for t
      using i by (simp add: map_update list_update_same_conv)
    have nx: "list_all (\<lambda>l. l_id l \<noteq> OWN \<and> l_id l < px_next_id px) ((px_sessions px)[i := ?l\<lparr>l_s := t\<rparr>])" for t
      using ok i by (auto simp: px_ok_def list_all_length nth_list_update)
    show ?thesis
    proof (cases e)
      case None
      have "fits (surv sh ((px_sessions px)[i := ?l\<lparr>l_s := s\<rparr>]))"
        using ok r(3) i by (intro surv_update) (simp_all add: px_ok_def)
      then have "px_ok k sh (px\<lparr>px_sessions := (px_sessions px)[i := ?l\<lparr>l_s := s\<rparr>]\<rparr>)"
        using ok None r(2) i nx ids by (auto simp: px_ok_def list_all_surv nth_list_update)
      then show ?thesis using act a None by (simp add: do_action_def Let_def)
    next
      case (Some err)
      let ?ls = "(px_sessions px)[i := ?l\<lparr>l_s := refuse (sends (l_id ?l)) (session_error_fmt dbg err) s\<rparr>]"
      have "surv (sh @ [i]) ?ls = surv (sh @ [i]) (px_sessions px)" by (simp add: surv_def nths_update_outside)
      moreover have "fits (surv (sh @ [i]) (px_sessions px))" using ok by (intro surv_more) (simp add: px_ok_def)
      ultimately have "px_ok k (sh @ [i]) (px\<lparr>px_sessions := ?ls, px_log := lg\<rparr>)" for lg
        using ok i nx ids by (simp add: px_ok_def list_all_surv)
      then show ?thesis
        using act a Some r(1) by (simp add: do_action_def Let_def)
    qed
  qed (use ok in \<open>auto simp: do_action_def\<close>)
qed

lemma do_actions_ok:
  "px_ok k sh px \<Longrightarrow> \<exists>sh' px'. do_actions dbg now sends as (sh, px) = Some (sh', px') \<and> px_ok k sh' px' \<and> px_next_id px' = px_next_id px"
proof (induction as arbitrary: sh px)
  case (Cons a as)
  obtain sh1 px1 where 1: "do_action dbg now sends a (sh, px) = Some (sh1, px1)" "px_ok k sh1 px1" "px_next_id px1 = px_next_id px"
    using do_action_ok [OF Cons.prems] by blast
  show ?case using Cons.IH [OF 1(2)] 1 by auto
qed simp

section \<open>The end of sessions\<close>

text \<open>Closing from the last index down leaves the sessions not to be closed.\<close>

lemma surv_remove:
  assumes "i < length ls" "list_all (\<lambda>j. j < i) sh"
  shows "surv sh (take i ls @ drop (Suc i) ls) = surv (i # sh) ls"
proof -
  have all: "\<And>j. j + i \<notin> set sh" using assms(2) by (auto simp: list_all_iff)
  have min: "min (length ls) i = i" using assms(1) by simp
  have "nths (take i ls) (- set sh) = nths (take i ls) (- set (i # sh))"
    by (simp add: nths_def) (intro arg_cong [where f = "map fst"] filter_cong, auto dest!: set_zip_rightD)
  moreover have "nths ls (- set (i # sh)) = nths (take i ls @ ls ! i # drop (Suc i) ls) (- set (i # sh))"
    using id_take_nth_drop [OF assms(1)] by simp
  ultimately show ?thesis
    using all [of "Suc _"] all by (simp add: surv_def nths_append nths_Cons min nths_all)
qed

lemma px_ok_close:
  assumes "px_ok k (i # sh) px" "list_all (\<lambda>j. j < i) sh"
  shows "\<exists>px'. close_session now i px = Some px' \<and> px_ok k sh px' \<and> px_next_id px' = px_next_id px"
proof -
  have i: "i < length (px_sessions px)" using assms(1) by (simp add: px_ok_def)
  let ?ls = "take i (px_sessions px) @ drop (Suc i) (px_sessions px)"
  have "set sh \<subseteq> {..<length ?ls}" using assms i by (auto simp: px_ok_def list_all_iff)
  moreover have "distinct (map l_id ?ls)"
  proof -
    have "distinct (map l_id (take i (px_sessions px) @ px_sessions px ! i # drop (Suc i) (px_sessions px)))"
      using assms(1) id_take_nth_drop [OF i] by (simp add: px_ok_def)
    then show ?thesis by auto
  qed
  moreover have "list_all (\<lambda>l. l_id l \<noteq> OWN \<and> l_id l < px_next_id px) ?ls"
    using assms(1) by (auto simp: px_ok_def list_all_iff dest: in_set_takeD in_set_dropD)
  ultimately show ?thesis
    using assms(1) i surv_remove [OF i assms(2)] by (simp add: close_session_def px_ok_def Let_def)
qed

lemma close_sessions_ok:
  assumes "px_ok k is px" "sorted_wrt (>) is" "\<not> o_once o'"
  shows "\<exists>px'. close_sessions k o' now is px = Some (Go_On px') \<and> px_ok k [] px' \<and> px_next_id px' = px_next_id px"
  using assms
proof (induction "is" arbitrary: px)
  case (Cons i "is")
  obtain px1 where 1: "close_session now i px = Some px1" "px_ok k is px1" "px_next_id px1 = px_next_id px"
    using px_ok_close [of k i "is" px now] Cons.prems by (auto simp: list_all_iff)
  show ?case using Cons.IH [OF 1(2)] 1 Cons.prems by auto
qed simp

lemma close_sessions_once:
  assumes "px_ok k is px" "is \<noteq> []" "o_once o'"
  shows "\<exists>px'. close_sessions k o' now is px = Some (Exit 0 px')"
  using assms by (cases "is") (auto simp: px_ok_def close_session_def Let_def)

lemma px_ok_set: "set sh' = set sh \<Longrightarrow> px_ok k sh px \<Longrightarrow> px_ok k sh' px"
  by (simp add: px_ok_def surv_def)

lemma do_action_clip: "do_action dbg now sends a (sh, px) = Some (sh', px') \<Longrightarrow> px_clip px' = px_clip px"
  by (auto simp: do_action_def own_paste_def Let_def split: if_splits option.splits prod.splits action.splits)

lemma do_actions_clip: "do_actions dbg now sends as (sh, px) = Some (sh', px') \<Longrightarrow> px_clip px' = px_clip px"
  by (induction as arbitrary: sh px) (auto simp: do_action_clip split: Option.bind_splits)

lemma take_actions_ok:
  assumes "px_ok k sh px"
  shows "\<exists>sh' px'. take_actions dbg now sends (sh, px) = Some (sh', px') \<and> px_ok k sh' px' \<and> px_next_id px' = px_next_id px
    \<and> actions (px_clip px') = []"
proof -
  let ?px = "px\<lparr>px_clip := (px_clip px)\<lparr>actions := []\<rparr>\<rparr>"
  have "px_ok k sh ?px" using assms by (simp add: px_ok_def)
  then obtain sh' px' where r: "do_actions dbg now sends (actions (px_clip px)) (sh, ?px) = Some (sh', px')"
      "px_ok k sh' px'" "px_next_id px' = px_next_id ?px"
    using do_actions_ok by blast
  then have "px_clip px' = (px_clip px)\<lparr>actions := []\<rparr>" using do_actions_clip [OF r(1)] by simp
  then show ?thesis using r by (simp add: take_actions_def)
qed

text \<open>Every request is met, and none is left for the next turn.\<close>

lemma settle_ok:
  assumes "px_ok k (fst cp) (snd cp)"
  shows "\<exists>r. settle k o' dbg now sends cp = Some r
    \<and> (\<forall>px'. r = Go_On px' \<longrightarrow> px_ok k [] px' \<and> px_next_id px' = px_next_id (snd cp) \<and> actions (px_clip px') = [])"
  using assms
proof (induction k o' dbg now sends cp rule: settle.induct)
  case (1 k o' dbg now sends cp)
  obtain sh px where t: "take_actions dbg now sends cp = Some (sh, px)" "px_ok k sh px" "px_next_id px = px_next_id (snd cp)"
      "actions (px_clip px) = []"
    using take_actions_ok [OF 1(2), of dbg now sends] by (metis prod.collapse)
  let ?is = "rev (sort_dedup sh)"
  have ok: "px_ok k ?is px" by (rule px_ok_set [OF _ t(2)]) (simp add: sort_dedup_props(3))
  have sorted: "sorted_wrt (>) ?is" using sort_dedup_props(1,2) [of sh] by (simp add: sorted_wrt_rev strict_sorted_iff)
  show ?case
  proof (cases "sh = []")
    case True
    then show ?thesis using t by (subst settle.simps) simp
  next
    case sh: False
    show ?thesis
    proof (cases "o_once o'")
      case True
      then show ?thesis using close_sessions_once [OF ok, of o' now] sort_dedup_Nil sh t by (subst settle.simps) auto
    next
      case False
      obtain px1 where c: "close_sessions k o' now ?is px = Some (Go_On px1)" "px_ok k [] px1" "px_next_id px1 = px_next_id px"
        using close_sessions_ok [OF ok sorted False] by blast
      show ?thesis using 1(1) [OF t(1) refl sh c(1) refl] c t sh by (subst settle.simps) auto
    qed
  qed
qed

section \<open>A turn\<close>

text \<open>
  What \<open>sendmsg\<close> and \<open>poll\<close> promise: no more bytes are taken than were given, and the listener is not
  reported readable unless that was asked for.
\<close>

fun poll_ok :: "opts \<Rightarrow> nat \<Rightarrow> proxy \<Rightarrow> poll_answer \<Rightarrow> bool" where
  "poll_ok o' now px (Polled io) \<longleftrightarrow>
     (\<forall>i. sends_ok (io_server_sends (t_ses io i)) \<and> sends_ok (io_client_sends (t_ses io i)))
     \<and> (t_listen io AND ev_in \<noteq> 0 \<longrightarrow> accepting o' now px)"
| "poll_ok o' now px _ \<longleftrightarrow> True"

end
