(* ===== verification/Proxy_Stream.thy ===== *)
theory Proxy_Stream
  imports Proxy_Session
begin

text \<open>
  What the compositor is sent. Every byte on its connection is accounted for, message by message:
  a request of the client's as the policy lets it through, with the zone's name in every title and
  app_id and behind every new window, or the callback that stands in for an object the proxy serves
  itself.
\<close>

section \<open>What leaves the compositor's side alone\<close>

named_theorems srv_simps \<open>methods that send the compositor nothing\<close>

lemma server_andthen [srv_simps]:
  "(\<And>s. server (snd (f s)) = server s) \<Longrightarrow> server (snd (andthen r f)) = server (snd r)"
  by (cases r) (auto simp: andthen_def split: option.splits)

lemma server_drop_fds [srv_simps]: "server (drop_fds fs s) = server s"
  by (simp add: drop_fds_def)

lemma server_emit [srv_simps]: "server (snd (emit m fs s)) = server s"
  by (simp add: emit_def drop_fds_def split: option.splits)

lemma server_emit_types [srv_simps]: "server (snd (emit_types i ts s)) = server s"
  by (induction ts arbitrary: s) (simp_all add: srv_simps)

lemma server_register [srv_simps]: "server (snd (register i n v d s)) = server s"
  by (auto simp: register_def Let_def split: option.splits prod.splits dir.splits)

lemma server_remove_object [srv_simps]: "server (snd (remove_object i s)) = server s"
  by (simp add: remove_object_def split: prod.splits)

lemma server_served_gone [srv_simps]: "server (snd (served_gone i s)) = server s"
  by (simp add: served_gone_def srv_simps)

lemma server_cancel [srv_simps]: "server (snd (cancel i s)) = server s"
  by (simp add: cancel_def srv_simps)

lemma server_offer_to [srv_simps]: "server (snd (offer_to c d s)) = server s"
  by (simp add: offer_to_def srv_simps split: option.split)

lemma server_offer_selection [srv_simps]: "server (snd (offer_selection c ds s)) = server s"
  by (induction ds arbitrary: s) (simp_all add: srv_simps)

lemma server_own_globals [srv_simps]: "server (snd (own_globals i n gs s)) = server s"
  by (induction i n gs s rule: own_globals.induct) (simp_all add: Let_def srv_simps)

lemma server_act [srv_simps]: "server (snd (act a c s)) = server s"
  by (simp add: act_def srv_simps split: action.split)

lemma server_release [srv_simps]: "server (snd (release_pool_if_unused k g s)) = server s"
  by (simp add: release_pool_if_unused_def Let_def split: option.split prod.split)

lemma server_unhold [srv_simps]: "server (snd (unhold k g s)) = server s"
  by (simp add: unhold_def srv_simps split: option.split)

lemma server_unhold_all [srv_simps]: "server (snd (unhold_all k gs s)) = server s"
  by (induction gs arbitrary: s) (simp_all add: srv_simps)

lemma server_apply_surface [srv_simps]: "server (snd (apply_surface k i s)) = server s"
  by (simp add: apply_surface_def srv_simps split: prod.split)

lemma server_detach [srv_simps]: "server (snd (detach k i s)) = server s"
  unfolding detach_def by (subst server_andthen) (simp_all add: Let_def srv_simps split: option.split)

lemma server_detach_all [srv_simps]: "server (snd (detach_all k is s)) = server s"
  by (induction "is" arbitrary: s) (simp_all add: srv_simps)

lemma server_commit [srv_simps]: "server (snd (commit k i s)) = server s"
proof -
  have "server (snd (hold_pending i s)) = server s"
    by (simp add: hold_pending_def Let_def split: option.split)
  then show ?thesis unfolding commit_def by (subst server_andthen) (simp_all add: srv_simps split: option.split)
qed

lemma server_set_desync [srv_simps]: "server (snd (set_desync k i s)) = server s"
  by (simp add: set_desync_def Let_def srv_simps split: option.split)

lemma server_delete_object [srv_simps]: "server (snd (delete_object k i s)) = server s"
proof -
  have "server (snd (count_off i s)) = server s"
    by (simp add: count_off_def split: option.split prod.split)
  moreover have "server (snd (delete_pool k i s)) = server s" for s
    by (simp add: delete_pool_def Let_def srv_simps split: option.split)
  moreover have "server (snd (delete_buffer k i s)) = server s" for s
    by (simp add: delete_buffer_def Let_def srv_simps split: option.split)
  moreover have "server (snd (delete_surface k i s)) = server s" for s
  proof (cases "hm_get (surfaces s) i")
    case (Some sf)
    then show ?thesis
      unfolding delete_surface_def Some option.case Let_def
      by (subst server_andthen) (simp_all add: srv_simps split: option.split)
  qed (simp add: delete_surface_def)
  ultimately show ?thesis by (simp add: delete_object_def srv_simps)
qed

section \<open>What a request becomes\<close>

definition bind_req :: "mctx \<Rightarrow> bool" where
  "bind_req x \<longleftrightarrow> i_name (x_iface x) = ''wl_registry'' \<and> hd_opcode (x_h x) = WL_REGISTRY_BIND"

text \<open>A request the proxy answers itself: on an object it serves, or a bind that makes one.\<close>

definition proxy_served :: "mctx \<Rightarrow> bool" where
  "proxy_served x \<longleftrightarrow> (if bind_req x then (case new_object (x_dec x) of Some (_, n) \<Rightarrow> served n | None \<Rightarrow> False)
     else served (i_name (x_iface x)))"

definition one_string :: "u32 \<Rightarrow> u16 \<Rightarrow> string \<Rightarrow> bytes" where
  "one_string i op str = (case mw_finish (mw_string str (mw_new i op)) of Some m \<Rightarrow> m | None \<Rightarrow> [])"

definition sync_msg :: "u32 \<Rightarrow> bytes" where
  "sync_msg i = (case mw_finish (mw_u32 i (mw_new WL_DISPLAY WL_DISPLAY_SYNC)) of Some m \<Rightarrow> m | None \<Rightarrow> [])"

definition c2s_sent :: "string \<Rightarrow> mctx \<Rightarrow> bytes" where
  "c2s_sent z x =
     (if proxy_served x then (case new_object (x_dec x) of Some (i, _) \<Rightarrow> sync_msg i | None \<Rightarrow> [])
      else if is_req x ''xdg_toplevel'' ''set_title'' \<and> d_strings (x_dec x) \<noteq> []
      then one_string (hd_object (x_h x)) (hd_opcode (x_h x)) (the (title_for z (snd (hd (d_strings (x_dec x))))))
      else if is_req x ''xdg_toplevel'' ''set_app_id'' \<and> d_strings (x_dec x) \<noteq> []
      then one_string (hd_object (x_h x)) (hd_opcode (x_h x)) (app_id_for z (snd (hd (d_strings (x_dec x)))))
      else x_msg x @ (if is_req x ''xdg_surface'' ''get_toplevel''
        then (case new_object (x_dec x) of Some (i, _) \<Rightarrow> one_string i (the SET_APP_ID) (app_id_for z []) | None \<Rightarrow> [])
        else []))"

text \<open>A bind the policy lets through: an allowlisted interface, or the proxy's own, under its cap.\<close>

definition bind_ok :: "bool \<Rightarrow> mctx \<Rightarrow> bool" where
  "bind_ok h x = (case (new_object (x_dec x), bind_version (x_dec x)) of
       (Some (_, n), Some v) \<Rightarrow> 0 < v \<and>
         (case allowed_version n h of
            Some most \<Rightarrow> v \<le> most
          | None \<Rightarrow> (case own_version n of Some most \<Rightarrow> v \<le> most | None \<Rightarrow> False))
     | _ \<Rightarrow> False)"

section \<open>The blocks\<close>

text \<open>
  After the policy, the compositor's endpoint is as it was, and what goes on is what
  \<^const>\<open>c2s_sent\<close> says.
\<close>

definition decided :: "mctx \<Rightarrow> turn \<Rightarrow> turn \<Rightarrow> bool" where
  "decided x t t' \<longleftrightarrow> server (ses t') = server (ses t) \<and> (bind_req x \<longrightarrow> bind_ok (hold_awake (ses t)) x)
     \<and> forward t' = (\<not> proxy_served x)
     \<and> (forward t' \<longrightarrow> out_msg x t' @ (case stamp t' of Some b \<Rightarrow> b | None \<Rightarrow> []) = c2s_sent (zone (ses t)) x)"

definition fresh :: "turn \<Rightarrow> bool" where
  "fresh t \<longleftrightarrow> forward t \<and> rewritten t = None \<and> stamp t = None"

lemma wire_Inr_iff [simp]: "wire r = Inr v \<longleftrightarrow> r = Inr v"
  by (cases r) (simp_all add: wire_def)

lemma c2s_bind_decided:
  assumes "fresh t" "bind_req x" "c2s_bind x t = (None, t')"
  shows "decided x t t'"
proof -
  obtain i n v where nv: "new_object (x_dec x) = Some (i, n)" "bind_version (x_dec x) = Some v"
    using assms by (auto simp: c2s_bind_def bind_req_def split: option.splits)
  obtain most where most: "(case allowed_version n (hold_awake (ses t)) of Some v \<Rightarrow> Some v | None \<Rightarrow> own_version n) = Some most"
    using assms nv by (auto simp: c2s_bind_def bind_req_def Let_def split: option.splits)
  obtain g r cap where ok: "ar_u32 (ar_new (x_body x)) = Inr (g, r)" "hm_get (globals (ses t)) g = Some (n, cap)"
      "v \<noteq> 0" "\<not> v > min most cap"
    and t': "t' = t\<lparr>ses := (if n = ''wl_output'' then (ses t)\<lparr>outputs := hm_insert i g (outputs (ses t))\<rparr> else ses t),
      forward := \<not> served n\<rparr>"
    using assms(2,3)
    by (auto simp: c2s_bind_def bind_req_def nv most try_val_def Let_def
        split: sum.splits prod.splits option.splits if_splits)
  have "bind_ok (hold_awake (ses t)) x"
    using ok(3,4) most by (auto simp: bind_ok_def nv word_neq_0_conv min_def not_less split: option.splits if_splits)
  then show ?thesis
    using assms(1,2) by (auto simp: decided_def t' proxy_served_def nv out_msg_def fresh_def c2s_sent_def bind_req_def)
qed

text \<open>A block that leaves the message alone.\<close>

definition plain :: "turn \<Rightarrow> turn_eff \<Rightarrow> bool" where
  "plain t r \<longleftrightarrow> server (ses (snd r)) = server (ses t) \<and> forward (snd r) = forward t
     \<and> rewritten (snd r) = rewritten t \<and> stamp (snd r) = stamp t"

lemma plain_ret: "plain t (e, t)"
  by (simp add: plain_def)

lemma plain_if: "(b \<Longrightarrow> plain t r) \<Longrightarrow> (\<not> b \<Longrightarrow> plain t q) \<Longrightarrow> plain t (if b then r else q)"
  by simp

lemma plain_try: "(\<And>v. plain t (f v)) \<Longrightarrow> plain t (try_val r t f)"
  by (simp add: try_val_def plain_ret split: sum.split)

lemma plain_on_ses: "(\<And>s. server (snd (f s)) = server s) \<Longrightarrow> plain t (on_ses f t)"
  by (simp add: plain_def on_ses_def split: prod.splits) (metis snd_conv)

lemma plain_ses: "server (ses t') = server (ses t) \<Longrightarrow> forward t' = forward t \<Longrightarrow> rewritten t' = rewritten t
    \<Longrightarrow> stamp t' = stamp t \<Longrightarrow> plain t (e, t')"
  by (simp add: plain_def)

lemma plain_from: "plain t r \<Longrightarrow> plain u (e, t) \<Longrightarrow> plain u r"
  by (simp add: plain_def)

lemmas plain_intros = plain_ret plain_if plain_try plain_on_ses

lemma plain_create_pool: "plain t (c2s_create_pool k x t)"
  unfolding c2s_create_pool_def
  by (intro plain_if plain_ret plain_try)
    (auto simp: Let_def try_val_def plain_ret plain_ses split: list.split sum.split prod.split)

lemma plain_resize: "plain t (c2s_resize x t)"
  unfolding c2s_resize_def
  by (intro plain_if plain_ret plain_try) (auto simp: Let_def plain_ret plain_ses split: option.split prod.split)

lemma plain_create_buffer: "plain t (c2s_create_buffer x t)"
  unfolding c2s_create_buffer_def
  by (intro plain_if plain_ret) (auto simp: Let_def plain_ret plain_ses split: option.split prod.split)

lemma plain_attach: "plain t (c2s_attach x t)"
  unfolding c2s_attach_def
  by (intro plain_if plain_ret plain_try) (auto simp: Let_def plain_ses split: prod.split)

lemma plain_commit: "plain t (c2s_commit k x t)"
  unfolding c2s_commit_def by (intro plain_intros) (simp add: srv_simps)

lemma plain_get_subsurface: "plain t (c2s_get_subsurface x t)"
  unfolding c2s_get_subsurface_def
  by (intro plain_if plain_ret plain_try) (auto simp: Let_def plain_ret plain_ses intro!: plain_try split: prod.split)

lemma plain_subsurface: "plain t (c2s_subsurface k x t)"
proof -
  let ?u = "t\<lparr>ses := (ses t)\<lparr>subsurfaces := hm_remove (hd_object (x_h x)) (subsurfaces (ses t))\<rparr>\<rparr>"
  have u: "plain t (e, ?u)" for e by (simp add: plain_ses)
  have "plain t (on_ses (detach k i) ?u)" for i
    by (rule plain_from [OF plain_on_ses u]) (simp add: srv_simps)
  then show ?thesis
    unfolding c2s_subsurface_def Let_def
    by (intro plain_intros) (auto simp: srv_simps plain_ret plain_ses u split: option.split)
qed

lemma plain_serve: "plain t (serve n m ob body t)"
proof -
  have gone: "plain t (on_ses (served_gone i) u)" if "plain t (None, u)" for u i
    by (rule plain_from [OF plain_on_ses that]) (simp add: srv_simps)
  have "plain t (serve_create_source r t)" for r
    unfolding serve_create_source_def by (intro plain_intros) (simp add: plain_ses split: prod.split)
  moreover have "plain t (serve_offer ob r t)" for r
    unfolding serve_offer_def
    by (intro plain_try) (auto simp: Let_def plain_ret plain_ses split: prod.split option.split)
  moreover have "plain t (serve_source_destroy ob t)"
    unfolding serve_source_destroy_def by (rule gone) (simp add: plain_ses)
  moreover have "plain t (serve_set_selection r t)" for r
    unfolding serve_set_selection_def
    by (intro plain_try) (auto simp: Let_def srv_simps plain_ret plain_ses plain_on_ses split: prod.split option.split)
  moreover have "plain t (serve_start_drag r t)" for r
    unfolding serve_start_drag_def
    by (intro plain_try) (auto simp: srv_simps plain_ret plain_on_ses split: prod.split)
  moreover have "plain t (serve_release ob t)"
    unfolding serve_release_def by (rule gone) (simp add: plain_ses)
  moreover have "plain t (serve_receive ob r t)" for r
    unfolding serve_receive_def
    by (intro plain_try) (auto simp: Let_def plain_ret srv_simps plain_ses split: prod.split option.split)
  moreover have "plain t (serve_offer_destroy ob t)"
    unfolding serve_offer_destroy_def
    by (rule plain_from [OF plain_on_ses]) (simp_all add: srv_simps plain_ses)
  ultimately show ?thesis
    unfolding serve_def Let_def by (intro plain_if plain_try) (simp_all add: plain_ret plain_ses split: prod.split)
qed

lemma mw_one_string: "mw_finish (mw_string str (mw_new i op)) = Some m \<Longrightarrow> one_string i op str = m"
  by (simp add: one_string_def)

lemma c2s_identity_decided:
  assumes "fresh t" "i_name (x_iface x) = ''xdg_toplevel''" "c2s_identity x t = (None, t')"
  shows "decided x t t'"
proof -
  have ns: "\<not> proxy_served x" "\<not> bind_req x" using assms(2) by (simp_all add: proxy_served_def bind_req_def served_def SERVED_def)
  show ?thesis
  proof (cases "(m_name (x_m x) = ''set_title'' \<or> m_name (x_m x) = ''set_app_id'') \<and> d_strings (x_dec x) \<noteq> []")
    case False
    then have "t' = t" using assms(2,3) by (auto simp: c2s_identity_def split: list.splits)
    then show ?thesis using False assms(1,2) ns by (auto simp: decided_def fresh_def out_msg_def c2s_sent_def)
  next
    case True
    then obtain u str rest where d: "d_strings (x_dec x) = (u, str) # rest" by (cases "d_strings (x_dec x)") auto
    let ?new = "if m_name (x_m x) = ''set_title'' then title_for (zone (ses t)) str else Some (app_id_for (zone (ses t)) str)"
    obtain new m where nm: "?new = Some new" "mw_finish (mw_string new (mw_new (hd_object (x_h x)) (hd_opcode (x_h x)))) = Some m"
      and t': "t' = t\<lparr>rewritten := Some m, ses := (ses t)\<lparr>rewritten_count := rewritten_count (ses t) + 1\<rparr>\<rparr>"
      using True assms(2,3) d
      by (cases ?new; cases "mw_finish (mw_string (the ?new) (mw_new (hd_object (x_h x)) (hd_opcode (x_h x))))")
        (auto simp: c2s_identity_def)
    show ?thesis
      using True assms(1,2) ns d nm mw_one_string [OF nm(2)]
      by (auto simp: decided_def t' fresh_def out_msg_def c2s_sent_def split: if_splits)
  qed
qed

lemma c2s_stamp_decided:
  assumes "fresh t" "i_name (x_iface x) \<noteq> ''xdg_toplevel''" "\<not> proxy_served x" "\<not> bind_req x"
    "c2s_stamp x t = (None, t')"
  shows "decided x t t'"
proof (cases "is_req x ''xdg_surface'' ''get_toplevel'' \<and> new_object (x_dec x) \<noteq> None")
  case False
  then have "t' = t" using assms(5) by (auto simp: c2s_stamp_def split: option.splits)
  then show ?thesis using False assms by (auto simp: decided_def fresh_def out_msg_def c2s_sent_def)
next
  case True
  then obtain i n where n: "new_object (x_dec x) = Some (i, n)" by auto
  obtain op m where om: "SET_APP_ID = Some op" "mw_finish (mw_string (app_id_for (zone (ses t)) []) (mw_new i op)) = Some m"
    and t': "t' = t\<lparr>stamp := Some m\<rparr>"
    using True assms(5) n by (auto simp: c2s_stamp_def split: option.splits)
  then show ?thesis
    using True assms(1-4) n mw_one_string [OF om(2)]
    by (auto simp: decided_def t' fresh_def out_msg_def c2s_sent_def om(1))
qed

lemma plain_decided:
  assumes "fresh t" "plain t r" "r = (None, t')" "\<not> proxy_served x" "\<not> bind_req x"
    "i_name (x_iface x) \<notin> {''xdg_toplevel'', ''xdg_surface''}"
  shows "decided x t t'"
  using assms by (auto simp: decided_def plain_def fresh_def out_msg_def c2s_sent_def)

lemma c2s_decided:
  assumes t: "fresh t" and c: "c2s k x t = (None, t')"
  shows "decided x t t'"
proof -
  let ?n = "i_name (x_iface x)"
  consider (bind) "bind_req x" | (reg) "?n = ''wl_registry''" "\<not> bind_req x" | (served) "served ?n" "\<not> bind_req x"
    | (top) "?n = ''xdg_toplevel''" "\<not> bind_req x" | (other) "\<not> served ?n" "?n \<notin> {''wl_registry'', ''xdg_toplevel''}" "\<not> bind_req x"
    by blast
  then show ?thesis
  proof cases
    case bind
    then have "c2s_bind x t = (None, t')" using c by (simp add: c2s_one_block bind_req_def)
    then show ?thesis by (rule c2s_bind_decided [OF t bind])
  next
    case reg
    then have "t' = t" using c by (simp add: c2s_one_block bind_req_def c2s_skips)
    then show ?thesis using reg t
      by (intro plain_decided [OF t plain_ret]) (auto simp: proxy_served_def served_def SERVED_def)
  next
    case served
    then have "?n \<noteq> ''wl_registry''" by (auto simp: served_def SERVED_def)
    then have "serve ?n (m_name (x_m x)) (hd_object (x_h x)) (x_body x) (t\<lparr>forward := False\<rparr>) = (None, t')"
      using c served by (simp add: c2s_one_block c2s_serve_def)
    then show ?thesis
      using plain_serve [of "t\<lparr>forward := False\<rparr>" ?n "m_name (x_m x)" "hd_object (x_h x)" "x_body x"] served
      by (simp add: decided_def plain_def proxy_served_def)
  next
    case top
    then have "c2s_identity x t = (None, t')" using c by (simp add: c2s_one_block served_def SERVED_def)
    then show ?thesis by (rule c2s_identity_decided [OF t top(1)])
  next
    case other
    then have ns: "\<not> proxy_served x" by (simp add: proxy_served_def)
    show ?thesis
    proof (cases "?n \<in> {''wl_shm'', ''wl_shm_pool'', ''wl_surface'', ''wl_subcompositor'', ''wl_subsurface''}")
      case True
      then have "plain t (c2s k x t)"
        using other
        by (auto simp: c2s_one_block plain_create_pool plain_resize plain_create_buffer plain_attach plain_commit
            plain_get_subsurface plain_subsurface)
      then show ?thesis using True other ns by (intro plain_decided [OF t _ c]) auto
    next
      case False
      then have "c2s_stamp x t = (None, t')" using c other by (simp add: c2s_one_block)
      then show ?thesis using other ns by (intro c2s_stamp_decided [OF t]) auto
    qed
  qed
qed

section \<open>New objects and sending on\<close>

lemma ep_stream_queue [simp]: "ep_stream (queue m fs e) = ep_stream e @ m"
  by (simp add: ep_stream_def)

lemma placeholder_server:
  "placeholder i s = (None, s') \<Longrightarrow> ep_stream (server s') = ep_stream (server s) @ sync_msg i"
  by (auto simp: placeholder_def sync_msg_def split: option.splits if_splits)

lemma plainD: "plain t (None, t') \<Longrightarrow> server (ses t') = server (ses t) \<and> forward t' = forward t
    \<and> rewritten t' = rewritten t \<and> stamp t' = stamp t"
  by (simp add: plain_def)

lemma new_obj_server:
  assumes "new_obj x t = (None, t')"
  shows "forward t' = forward t \<and> rewritten t' = rewritten t \<and> stamp t' = stamp t
    \<and> ep_stream (server (ses t')) = ep_stream (server (ses t)) @
       (if x_dir x = ClientToServer \<and> \<not> forward t
        then case new_object (x_dec x) of Some (i, _) \<Rightarrow> sync_msg i | None \<Rightarrow> [] else [])"
proof (cases "new_object (x_dec x)")
  case None
  then show ?thesis using assms by (simp add: new_obj_def)
next
  case (Some ob)
  obtain i n where ob: "ob = (i, n)" by (cases ob)
  note run = assms [unfolded new_obj_def Some ob option.case prod.case andthen_ok_iff]
  then obtain t1 t2 where
      t1: "on_ses (register i n (case bind_version (x_dec x) of Some v \<Rightarrow> v | None \<Rightarrow> x_version x) (x_dir x)) t = (None, t1)"
    and t2: "(if n = ''wl_registry'' then on_ses (own_globals i 0 OWN_GLOBALS) t1 else (None, t1)) = (None, t2)"
    and last: "(if x_dir x = ClientToServer \<and> \<not> forward t2
           then andthen (on_ses (placeholder i) t2) (\<lambda>t.
                  if n = ''wl_data_device'' \<and> focus (clip t) = Some (ses_id (ses t))
                  then on_ses (offer_selection (clip t) [i]) t else (None, t))
           else (None, t2)) = (None, t')" by (elim exE conjE) (rule that)
  have "plain t (None, t1)"
    unfolding t1 [symmetric] by (rule plain_on_ses) (simp add: srv_simps)
  moreover have "plain t1 (None, t2)"
    unfolding t2 [symmetric] by (intro plain_intros) (simp add: srv_simps)
  ultimately have p: "plain t (None, t2)" by (simp add: plain_def)
  show ?thesis
  proof (cases "x_dir x = ClientToServer \<and> \<not> forward t2")
    case True
    then obtain t3 where t3: "on_ses (placeholder i) t2 = (None, t3)"
      and t4: "(if n = ''wl_data_device'' \<and> focus (clip t3) = Some (ses_id (ses t3))
                  then on_ses (offer_selection (clip t3) [i]) t3 else (None, t3)) = (None, t')"
      using last by (auto simp: andthen_ok_iff)
    have "plain t3 (None, t')"
      unfolding t4 [symmetric] by (intro plain_intros) (simp add: srv_simps del: offer_selection.simps)
    moreover have "ep_stream (server (ses t3)) = ep_stream (server (ses t2)) @ sync_msg i
        \<and> forward t3 = forward t2 \<and> rewritten t3 = rewritten t2 \<and> stamp t3 = stamp t2"
      using t3 placeholder_server by (auto simp: on_ses_def split: prod.splits)
    ultimately show ?thesis using True p Some ob by (simp add: plain_def)
  qed (use last p in \<open>auto simp: plain_def\<close>)
qed

lemma send_on_server:
  assumes "send_on x t = (None, t')" "x_dir x = ClientToServer"
  shows "ep_stream (server (ses t')) = ep_stream (server (ses t)) @
    (if forward t then out_msg x t @ (case stamp t of Some b \<Rightarrow> b | None \<Rightarrow> []) else [])"
  using assms
  by (auto simp: send_on_def Let_def dst_def set_dst_def bump_forwarded_def split: if_splits option.splits)

lemma handle_server:
  assumes h: "handle k x t = (None, t')" and d: "x_dir x = ClientToServer" and t: "fresh t"
  shows "ep_stream (server (ses t')) = ep_stream (server (ses t)) @ c2s_sent (zone (ses t)) x
    \<and> (bind_req x \<longrightarrow> bind_ok (hold_awake (ses t)) x)"
proof -
  obtain t1 t2 where r: "c2s k x t = (None, t1)" "new_obj x t1 = (None, t2)" "send_on x t2 = (None, t')"
    using h d by (auto simp: handle_def andthen_ok_iff)
  note dec = c2s_decided [OF t r(1), unfolded decided_def]
  note new = new_obj_server [OF r(2)] and out = send_on_server [OF r(3) d]
  have "out_msg x t2 = out_msg x t1" using new by (simp add: out_msg_def)
  then show ?thesis
    using dec new out d by (cases "proxy_served x") (auto simp: c2s_sent_def)
qed

text \<open>Events send the compositor nothing.\<close>

lemma server_on_ses [srv_simps]:
  "(\<And>s. server (snd (f s)) = server s) \<Longrightarrow> server (ses (snd (on_ses f t))) = server (ses t)"
  by (simp add: on_ses_def split: prod.splits) (metis snd_conv)

lemma server_try:
  "(\<And>v. server (ses (snd (f v))) = server (ses t)) \<Longrightarrow> server (ses (snd (try_val r t f))) = server (ses t)"
  by (simp add: try_val_def split: sum.split)

lemma server_tandthen [srv_simps]:
  "(\<And>t. server (ses (snd (f t))) = server (ses t)) \<Longrightarrow> server (ses (snd (andthen r f))) = server (ses (snd r))"
  by (cases r) (auto simp: andthen_def split: option.splits)

lemma s2c_server: "server (ses (snd (s2c k x t))) = server (ses t)"
proof -
  have "server (ses (snd (s2c_global x t))) = server (ses t)"
    unfolding s2c_global_def Let_def by (auto intro!: server_try split: prod.split option.split)
  moreover have "server (ses (snd (s2c_global_remove x t))) = server (ses t)" for t
    unfolding s2c_global_remove_def by (auto intro!: server_try split: prod.split)
  moreover have "server (ses (snd (s2c_output x t))) = server (ses t)" for t
    unfolding s2c_output_def by (auto intro!: server_try split: option.split simp del: insert_iff)
  moreover have "server (ses (snd (s2c_keyboard x t))) = server (ses t)" for t
    unfolding s2c_keyboard_def by (subst server_tandthen) (simp_all add: Let_def srv_simps)
  moreover have "server (ses (snd (s2c_delete_id k x t))) = server (ses t)" for t
  proof -
    have "server (ses (snd (case end_placeholder i (ses t) of
          (Inl e, s) \<Rightarrow> (Some e, t\<lparr>ses := s\<rparr>)
        | (Inr True, s) \<Rightarrow> (None, t\<lparr>ses := s, forward := False\<rparr>)
        | (Inr False, s) \<Rightarrow> on_ses (delete_object k i) (t\<lparr>ses := s\<rparr>)))) = server (ses t)" for i
      by (auto simp: end_placeholder_def srv_simps split: option.splits)
    then show ?thesis unfolding s2c_delete_id_def by (auto intro!: server_try split: prod.split)
  qed
  ultimately show ?thesis by (simp add: s2c_def srv_simps)
qed

lemma handle_server_event:
  assumes h: "handle k x t = (None, t')" and d: "x_dir x = ServerToClient"
  shows "ep_stream (server (ses t')) = ep_stream (server (ses t))"
proof -
  obtain t1 t2 where r: "s2c k x t = (None, t1)" "new_obj x t1 = (None, t2)" "send_on x t2 = (None, t')"
    using h d by (auto simp: handle_def andthen_ok_iff)
  have "server (ses t1) = server (ses t)" using s2c_server [of k x t] r(1) by simp
  moreover have "server (ses t') = server (ses t2)"
    using r(3) d by (auto simp: send_on_def Let_def set_dst_def bump_forwarded_def split: if_splits)
  ultimately show ?thesis using new_obj_server [OF r(2)] d by simp
qed

section \<open>A pass, and the loop\<close>

text \<open>A message the loop took off the client's input and let through.\<close>

definition admitted :: "bool \<Rightarrow> mctx \<Rightarrow> bool" where
  "admitted h x \<longleftrightarrow> x_dir x = ClientToServer \<and> header_parse (x_msg x) = Inr (x_h x)
     \<and> length (x_msg x) = unat (hd_size (x_h x)) \<and> x_iface x \<in> set INTERFACES
     \<and> x_m x \<in> set (i_requests (x_iface x)) \<and> decode (x_m x) (x_body x) = Inr (x_dec x)
     \<and> (bind_req x \<longrightarrow> bind_ok h x)"

definition sees :: "session \<Rightarrow> session \<Rightarrow> bool" where
  "sees s s' \<longleftrightarrow> zone s' = zone s \<and> hold_awake s' = hold_awake s
     \<and> (\<exists>xs. list_all (admitted (hold_awake s)) xs
          \<and> ep_stream (server s') = ep_stream (server s) @ concat (map (c2s_sent (zone s)) xs))"

lemma sees_refl: "zone s' = zone s \<Longrightarrow> hold_awake s' = hold_awake s
    \<Longrightarrow> ep_stream (server s') = ep_stream (server s) \<Longrightarrow> sees s s'"
  unfolding sees_def by (intro conjI exI [of _ "[]"]) auto

lemma sees_trans: "sees s t \<Longrightarrow> sees t u \<Longrightarrow> sees s u"
proof -
  assume st: "sees s t" and tu: "sees t u"
  then obtain xs ys where "list_all (admitted (hold_awake s)) xs" "list_all (admitted (hold_awake s)) ys"
      "ep_stream (server t) = ep_stream (server s) @ concat (map (c2s_sent (zone s)) xs)"
      "ep_stream (server u) = ep_stream (server t) @ concat (map (c2s_sent (zone s)) ys)"
    unfolding sees_def by auto
  then show "sees s u" using st tu unfolding sees_def by (intro conjI exI [of _ "xs @ ys"]) auto
qed

lemma header_parse_take:
  assumes "header_parse b = Inr h" "HEADER_LEN \<le> n"
  shows "header_parse (take n b) = Inr h"
  using assms by (auto simp: header_parse_def Let_def HEADER_LEN_def min_def take_drop drop_take split: if_splits)

lemma take_message_sees:
  assumes s: "ses_inv s" and h: "header_parse (pending_in (src d s)) = Inr h"
    and size: "unat (hd_size h) \<le> length (pending_in (src d s))"
    and look: "lookup s (hd_object h) d (hd_opcode h) = Inr (iface, m, version)"
    and fd: "fd_count m \<le> length (in_fds (src d s))"
    and n: "take_message k d h iface m version s c = Next (s', c')"
  shows "sees s s'"
proof -
  let ?n = "unat (hd_size h)" and ?e0 = "src d s"
  obtain e where take: "ep_take ?n ?e0 = Inr (take ?n (pending_in ?e0), e)" and e: "ep_stream e = ep_stream ?e0"
    using ep_take_ok [of ?e0 ?n] ep_inv_src [OF s] size by (auto simp: ep_inv_def ep_stream_def out_bytes_def)
  define msg where "msg = take ?n (pending_in ?e0)"
  define s1 where "s1 = set_src d (e\<lparr>in_fds := drop (fd_count m) (in_fds e)\<rparr>) s"
  define t where "t = \<lparr>ses = s1, clip = c, fds = take (fd_count m) (in_fds e), forward = True, rewritten = None, stamp = None\<rparr>"
  have s1: "zone s1 = zone s" "hold_awake s1 = hold_awake s" "ep_stream (server s1) = ep_stream (server s)"
    using e by (cases d; simp add: s1_def set_src_def src_def ep_stream_def out_bytes_def)+
  obtain dec where dec: "decode m (drop HEADER_LEN msg) = Inr dec"
    using n by (cases "decode m (drop HEADER_LEN msg)") (auto simp: take_message_def take Let_def msg_def end_turn_def)
  define x where "x = \<lparr>x_dir = d, x_h = h, x_iface = iface, x_m = m, x_version = version, x_msg = msg, x_dec = dec\<rparr>"
  obtain u where u: "handle k x t = (None, u)" "s' = drop_fds (fds u) (ses u)"
    using n dec
    by (auto simp: take_message_def take Let_def msg_def t_def s1_def x_def end_turn_def split: prod.splits option.splits)
  have obj: "obj_get s (hd_object h) = Some (iface, version)"
    "m \<in> set (case d of ClientToServer \<Rightarrow> i_requests iface | ServerToClient \<Rightarrow> i_events iface)"
    using lookup_Inr [OF look] by auto
  have ifc: "iface \<in> set INTERFACES" using s obj(1) by (force simp: ses_inv_def base_inv_def obj_inv_def)
  have "in_le s s'" using take_message_ok [OF s h size look fd, of c k] n by simp
  then have zh: "zone s' = zone s" "hold_awake s' = hold_awake s" by (simp_all add: in_le_def)
  show ?thesis
  proof (cases d)
    case ServerToClient
    then have "ep_stream (server s') = ep_stream (server s)"
      using handle_server_event [OF u(1)] s1 u(2) by (simp add: x_def t_def drop_fds_def)
    then show ?thesis using zh by (intro sees_refl) auto
  next
    case ClientToServer
    have f: "fresh t" "ses t = s1" by (simp_all add: fresh_def t_def)
    have "header_parse msg = Inr h"
      unfolding msg_def using header_parse_take [OF h] header_parse_bounds [OF h] by simp
    then have "admitted (hold_awake s) x"
      using handle_server [OF u(1) _ f(1)] ClientToServer size ifc obj(2) dec s1
      by (auto simp: admitted_def x_def x_body_def msg_def f(2))
    moreover have "ep_stream (server s') = ep_stream (server s) @ c2s_sent (zone s) x"
      using handle_server [OF u(1) _ f(1)] ClientToServer s1 u(2) by (simp add: x_def f(2) drop_fds_def)
    ultimately show ?thesis unfolding sees_def using zh by (intro conjI exI [of _ "[x]"]) auto
  qed
qed

lemma pump_one_sees:
  assumes s: "ses_inv s" and n: "pump_one k d s c = Next (s', c')"
  shows "sees s s'"
proof -
  obtain h where h: "header_parse (pending_in (src d s)) = Inr h" "unat (hd_size h) \<le> length (pending_in (src d s))"
    using n by (auto simp: pump_one_def Let_def split: if_splits sum.splits)
  show ?thesis
  proof (cases "d = ServerToClient \<and> hm_contains (placeholders s) (hd_object h)")
    case True
    obtain e where take: "ep_take (unat (hd_size h)) (src d s) = Inr (take (unat (hd_size h)) (pending_in (src d s)), e)"
      and e: "ep_stream e = ep_stream (src d s)"
      using ep_take_ok [OF _ h(2)] ep_inv_src [OF s, of d] by (auto simp: ep_inv_def ep_stream_def out_bytes_def)
    have "s' = set_src d e s"
      using n h take True by (auto simp: pump_one_def Let_def split: if_splits)
    then show ?thesis using e True by (intro sees_refl) (simp_all add: set_src_def src_def)
  next
    case False
    obtain iface m v where look: "lookup s (hd_object h) d (hd_opcode h) = Inr (iface, m, v)"
      and fd: "fd_count m \<le> length (in_fds (src d s))" and run: "take_message k d h iface m v s c = Next (s', c')"
      using n h False by (auto simp: pump_one_def Let_def split: if_splits sum.splits)
    show ?thesis by (rule take_message_sees [OF s h look fd run])
  qed
qed

lemma pump_loop_sees:
  "ses_inv s \<Longrightarrow> pump_loop n k d s c = Some (None, s', c') \<Longrightarrow> sees s s'"
proof (induction n arbitrary: s c)
  case (Suc n)
  have ok: "outcome_ok d s c (pump_one k d s c)" by (rule pump_one_ok [OF Suc.prems(1)])
  show ?case
  proof (cases "pump_one k d s c")
    case (Next sc)
    obtain s1 c1 where sc: "sc = (s1, c1)" by (cases sc)
    have "sees s s1" by (rule pump_one_sees [OF Suc.prems(1) Next [unfolded sc]])
    moreover have "sees s1 s'" using Suc.IH [of s1 c1] ok Suc.prems(2) by (simp add: Next sc)
    ultimately show ?thesis by (rule sees_trans)
  qed (use ok Suc.prems in \<open>auto intro: sees_refl\<close>)
qed simp

section \<open>All the compositor is sent\<close>

definition sees_all :: "session \<Rightarrow> bool" where
  "sees_all s \<longleftrightarrow> (\<exists>xs. list_all (admitted (hold_awake s)) xs
     \<and> ep_stream (server s) = concat (map (c2s_sent (zone s)) xs))"

lemma sees_all_step: "sees_all s \<Longrightarrow> sees s s' \<Longrightarrow> sees_all s'"
proof -
  assume a: "sees_all s" "sees s s'"
  then obtain xs ys where "list_all (admitted (hold_awake s)) xs" "list_all (admitted (hold_awake s)) ys"
      "ep_stream (server s) = concat (map (c2s_sent (zone s)) xs)"
      "ep_stream (server s') = ep_stream (server s) @ concat (map (c2s_sent (zone s)) ys)"
    unfolding sees_def sees_all_def by auto
  then show "sees_all s'" using a(2) unfolding sees_def sees_all_def by (intro exI [of _ "xs @ ys"]) auto
qed

lemma ep_read_stream: "ep_read a e = (r, e') \<Longrightarrow> ep_stream e' = ep_stream e"
  by (auto simp: ep_read_def Let_def ep_stream_def out_bytes_def split: recv_answer.splits if_splits)

lemma sees_src: "ep_stream e = ep_stream (src d s) \<Longrightarrow> sees s (set_src d e s)"
  by (cases d) (auto simp: set_src_def src_def intro: sees_refl)


end
