(* ===== verification/Proxy_Events.thy ===== *)
theory Proxy_Events
  imports Proxy_Stream
begin

text \<open>
  What a client is told by the compositor: the globals on the allowlist and no others, under their
  version caps, and of its monitors the geometry with no text in it that would tell one machine
  from another.
\<close>

section \<open>Sending on an event\<close>

lemma send_on_client:
  assumes "send_on x t = (None, t')" "x_dir x = ServerToClient"
  shows "ep_stream (client (ses t')) = ep_stream (client (ses t)) @
    (if forward t then out_msg x t @ (case stamp t of Some b \<Rightarrow> b | None \<Rightarrow> []) else [])
    \<and> globals (ses t') = globals (ses t)"
  using assms
  by (auto simp: send_on_def Let_def dst_def set_dst_def bump_forwarded_def split: if_splits option.splits)

text \<open>Events that make no object.\<close>

lemma decode_arg_no_new:
  "decode_arg a r d = Inr (d', r') \<Longrightarrow> (\<And>n. a \<noteq> Arg_NewId n) \<Longrightarrow> new_object d' = new_object d"
  by (cases "(a, r, d)" rule: decode_arg.cases) (auto simp: bind_res_eq_Inr Let_def split: option.splits if_splits)

definition makes_none :: "message \<Rightarrow> bool" where
  "makes_none m \<longleftrightarrow> list_all (\<lambda>a. case a of Arg_NewId _ \<Rightarrow> False | _ \<Rightarrow> True) (m_args m)"

lemma decode_args_no_new:
  "decode_args as r d = Inr (d', r') \<Longrightarrow> list_all (\<lambda>a. case a of Arg_NewId _ \<Rightarrow> False | _ \<Rightarrow> True) as
    \<Longrightarrow> new_object d' = new_object d"
proof (induction as arbitrary: r d)
  case (Cons a as)
  obtain d1 r1 where 1: "decode_arg a r d = Inr (d1, r1)" "decode_args as r1 d1 = Inr (d', r')"
    using Cons.prems(1) by (auto simp: bind_res_eq_Inr)
  have "\<And>n. a \<noteq> Arg_NewId n" using Cons.prems(2) by auto
  then show ?case using Cons.IH [OF 1(2)] Cons.prems(2) decode_arg_no_new [OF 1(1)] by simp
qed simp

lemma decode_makes_none: "makes_none m \<Longrightarrow> decode m b = Inr d \<Longrightarrow> new_object d = None"
  by (auto simp: decode_def makes_none_def bind_res_eq_Inr decoded_default_def dest!: decode_args_no_new split: if_splits)

lemma plain_events:
  "list_all makes_none (i_events if_wl_registry)" "list_all makes_none (i_events if_wl_output)"
  by (simp_all add: if_wl_registry_def if_wl_output_def makes_none_def)

lemma find_registry: "find ''wl_registry'' = Some if_wl_registry" and find_output: "find ''wl_output'' = Some if_wl_output"
  by (simp_all add: find_Some INTERFACES_def if_wl_registry_def if_wl_output_def)

lemma event_makes_none:
  assumes "ctx_ok x s" "x_dir x = ServerToClient" "i_name (x_iface x) \<in> {''wl_registry'', ''wl_output''}"
  shows "new_object (x_dec x) = None"
proof -
  have "x_iface x \<in> {if_wl_registry, if_wl_output}"
    using assms interface_unique [OF _ find_registry, of "x_iface x"] interface_unique [OF _ find_output, of "x_iface x"]
    by (auto simp: ctx_ok_def)
  then have "makes_none (x_m x)"
    using plain_events assms by (auto simp: ctx_ok_def x_table_def list_all_iff)
  then show ?thesis using decode_makes_none assms(1) by (auto simp: ctx_ok_def)
qed

lemma s2c_skips:
  "\<not> (i_name (x_iface x) = ''wl_registry'' \<and> hd_opcode (x_h x) = WL_REGISTRY_GLOBAL) \<Longrightarrow> s2c_global x t = (None, t)"
  "\<not> (i_name (x_iface x) = ''wl_registry'' \<and> hd_opcode (x_h x) = WL_REGISTRY_GLOBAL_REMOVE) \<Longrightarrow>
     s2c_global_remove x t = (None, t)"
  "i_name (x_iface x) \<noteq> ''wl_output'' \<Longrightarrow> s2c_output x t = (None, t)"
  "i_name (x_iface x) \<noteq> ''wl_keyboard'' \<Longrightarrow> s2c_keyboard x t = (None, t)"
  "hd_object (x_h x) \<noteq> WL_DISPLAY \<or> hd_opcode (x_h x) \<noteq> WL_DISPLAY_DELETE_ID \<Longrightarrow> s2c_delete_id k x t = (None, t)"
  by (auto simp: s2c_global_def s2c_global_remove_def s2c_output_def s2c_keyboard_def s2c_delete_id_def)

lemma unwrap_str_Some: "unwrap_str (Some s) = s"
  by (simp add: unwrap_str_def)

lemma handle_event:
  assumes "handle k x t = (None, t')" "x_dir x = ServerToClient" "new_object (x_dec x) = None"
  obtains u where "s2c k x t = (None, u)" "send_on x u = (None, t')"
  using assms by (auto simp: handle_def andthen_ok_iff new_obj_def)

section \<open>Globals\<close>

definition global_msg :: "u32 \<Rightarrow> u32 \<Rightarrow> string \<Rightarrow> u32 \<Rightarrow> bytes" where
  "global_msg reg g n v =
     (case mw_finish (mw_u32 v (mw_string n (mw_u32 g (mw_new reg WL_REGISTRY_GLOBAL)))) of Some m \<Rightarrow> m | None \<Rightarrow> [])"

lemma allowed_names_short: "list_all (\<lambda>(n, _). length n \<le> 100) (ALLOWED @ [HOLD_AWAKE])"
  by code_simp

lemma global_msg_fits:
  assumes "allowed_version n h = Some a"
  shows "mw_finish (mw_u32 v (mw_string n (mw_u32 g (mw_new reg WL_REGISTRY_GLOBAL)))) = Some (global_msg reg g n v)"
proof -
  have "length n \<le> 100" using allowed_names_short allowed_version_in [OF assms] unfolding list_all_iff by blast
  then have "HEADER_LEN + length (mw_body (mw_u32 v (mw_string n (mw_u32 g (mw_new reg WL_REGISTRY_GLOBAL))))) \<le> MAX_MESSAGE_LEN"
    using mw_string_len [of n "mw_u32 g (mw_new reg WL_REGISTRY_GLOBAL)"]
    by (simp add: mw_u32_def mw_new_def HEADER_LEN_def MAX_MESSAGE_LEN_def)
  then show ?thesis by (simp add: global_msg_def mw_finish_def Let_def MAX_MESSAGE_LEN_def)
qed


section \<open>Monitors\<close>

lemma finish_header:
  assumes "mw_aligned w" "mw_finish w = Some m"
  shows "header_parse m = Inr \<lparr>hd_object = mw_object w, hd_opcode = mw_opcode w, hd_size = of_nat (length m)\<rparr>"
    and "drop HEADER_LEN m = mw_body w" and "length (mw_body w) \<le> MAX_MESSAGE_LEN"
proof -
  note m = assms(2) [unfolded mw_finish_Some]
  have len: "length m = HEADER_LEN + length (mw_body w)" using mw_finish_length [OF assms(2)] .
  have "size_ok (length m)" using assms(1) m len by (auto simp: size_ok_def mw_aligned_def HEADER_LEN_def)
  moreover have "unat (of_nat (length m) :: u16) = length m"
    by (rule unat_of_nat_small) (use m len in \<open>simp add: MAX_MESSAGE_LEN_def\<close>)
  ultimately show "header_parse m = Inr \<lparr>hd_object = mw_object w, hd_opcode = mw_opcode w, hd_size = of_nat (length m)\<rparr>"
    using header_parse_encode [of "\<lparr>hd_object = mw_object w, hd_opcode = mw_opcode w, hd_size = of_nat (length m)\<rparr>" "mw_body w"]
      m len by simp
  show "drop HEADER_LEN m = mw_body w" "length (mw_body w) \<le> MAX_MESSAGE_LEN" using m by simp_all
qed

text \<open>Writing a message whose strings are plain, and reading it back.\<close>

lemma string_enc_reads:
  "string_writable t \<Longrightarrow> arg_reads (Arg_String n) at (string_enc t) d (d\<lparr>d_strings := d_strings d @ [(at, t)]\<rparr>)"
  by (intro arg_reads.str string_bytes_enc)

lemma word_reads: "arg_reads Arg_Int at (u32_to_ne v) d d"
  by (intro arg_reads.word) simp

definition GEOMETRY :: "arg list" where
  "GEOMETRY = [Arg_Int, Arg_Int, Arg_Int, Arg_Int, Arg_Int, Arg_String False, Arg_String False, Arg_Int]"

lemma output_messages:
  assumes "ctx_ok x s" "x_dir x = ServerToClient" "i_name (x_iface x) = ''wl_output''"
  shows "m_name (x_m x) = ''geometry'' \<Longrightarrow> m_args (x_m x) = GEOMETRY"
    "m_name (x_m x) \<in> {''name'', ''description''} \<Longrightarrow> m_args (x_m x) = [Arg_String False]"
proof -
  have "x_iface x = if_wl_output"
    using assms interface_unique [OF _ find_output, of "x_iface x"] by (auto simp: ctx_ok_def)
  then have "x_m x \<in> set (i_events if_wl_output)" using assms(1,2) by (simp add: ctx_ok_def x_table_def)
  then show "m_name (x_m x) = ''geometry'' \<Longrightarrow> m_args (x_m x) = GEOMETRY"
    "m_name (x_m x) \<in> {''name'', ''description''} \<Longrightarrow> m_args (x_m x) = [Arg_String False]"
    by (auto simp: if_wl_output_def GEOMETRY_def)
qed

definition geometry_writer :: "u32 \<Rightarrow> u16 \<Rightarrow> u32 list \<Rightarrow> message_writer" where
  "geometry_writer i op vs = mw_u32 (vs ! 5) (mw_string [] (mw_string [] (mw_u32 (vs ! 4) (mw_u32 (vs ! 3) (mw_u32 (vs ! 2)
     (mw_u32 (vs ! 1) (mw_u32 (vs ! 0) (mw_new i op))))))))"

lemma blank_geometry_writer:
  assumes "blank_geometry x = Inr w"
  shows "\<exists>vs. w = geometry_writer (hd_object (x_h x)) (hd_opcode (x_h x)) vs"
proof -
  obtain a b c d e f where "w = mw_u32 f (mw_string [] (mw_string [] (mw_u32 e (mw_u32 d (mw_u32 c
         (mw_u32 b (mw_u32 a (mw_new (hd_object (x_h x)) (hd_opcode (x_h x))))))))))"
    using assms by (auto simp: blank_geometry_def bind_res_eq_Inr)
  then have "w = geometry_writer (hd_object (x_h x)) (hd_opcode (x_h x)) [a, b, c, d, e, f]"
    by (simp add: geometry_writer_def)
  then show ?thesis ..
qed

lemma geometry_body:
  "mw_body (geometry_writer i op vs) = u32_to_ne (vs ! 0) @ u32_to_ne (vs ! 1) @ u32_to_ne (vs ! 2) @ u32_to_ne (vs ! 3)
     @ u32_to_ne (vs ! 4) @ string_enc [] @ string_enc [] @ u32_to_ne (vs ! 5) @ []"
  and geometry_aligned: "mw_aligned (geometry_writer i op vs)"
  and geometry_head: "mw_object (geometry_writer i op vs) = i" "mw_opcode (geometry_writer i op vs) = op"
proof -
  have str: "mw_body (mw_string v w) = mw_body w @ string_enc v" if "mw_aligned w" for v w
    using string_codec.put_eq [OF that, of v] by simp
  have u32: "mw_body (mw_u32 v w) = mw_body w @ u32_to_ne v" for v w by (simp add: mw_u32_def)
  show "mw_body (geometry_writer i op vs) = u32_to_ne (vs ! 0) @ u32_to_ne (vs ! 1) @ u32_to_ne (vs ! 2) @ u32_to_ne (vs ! 3)
     @ u32_to_ne (vs ! 4) @ string_enc [] @ string_enc [] @ u32_to_ne (vs ! 5) @ []"
    by (simp add: geometry_writer_def str u32 u32_codec.put_aligned string_codec.put_aligned) (simp add: mw_new_def)
  show "mw_aligned (geometry_writer i op vs)"
    unfolding geometry_writer_def by (intro u32_codec.put_aligned string_codec.put_aligned mw_aligned_new)
  show "mw_object (geometry_writer i op vs) = i" "mw_opcode (geometry_writer i op vs) = op"
    by (simp_all add: geometry_writer_def mw_u32_def mw_string_def mw_new_def)
qed

lemma geometry_reads:
  "args_read GEOMETRY 0 (mw_body (geometry_writer i op vs)) decoded_default (decoded_default\<lparr>d_strings := [(20, []), (28, [])]\<rparr>)"
proof -
  have s: "string_writable []" by (simp add: string_writable_def)
  have len: "length (string_enc []) = 8" by (simp add: string_enc_def pad_body_eq)
  have "args_read GEOMETRY 0 (mw_body (geometry_writer i op vs)) decoded_default
      (decoded_default\<lparr>d_strings := d_strings decoded_default @ [(0 + 4 + 4 + 4 + 4 + 4, [])],
         d_strings := d_strings (decoded_default\<lparr>d_strings := d_strings decoded_default @ [(0 + 4 + 4 + 4 + 4 + 4, [])]\<rparr>)
           @ [(0 + 4 + 4 + 4 + 4 + 4 + 8, [])]\<rparr>)"
    unfolding GEOMETRY_def geometry_body
    by (intro args_read.cons [OF word_reads] args_read.cons [OF string_enc_reads [OF s]] args_read.nil, unfold length_u32_to_ne len)
      (intro args_read.cons [OF word_reads] args_read.cons [OF string_enc_reads [OF s]] args_read.nil)
  then show ?thesis by (simp add: decoded_default_def)
qed

definition output_name :: "session \<Rightarrow> u32 \<Rightarrow> string" where
  "output_name s i = ''output-'' @ show_u32 (case hm_get (outputs s) i of Some n \<Rightarrow> n | None \<Rightarrow> 0)"

lemma output_name_writable:
  assumes "mw_finish (mw_string (output_name s i) (mw_new j op)) = Some m"
  shows "string_writable (output_name s i)"
proof -
  have digits: "list_all is_ascii_digit (show_u32 n)" for n using nat_to_string_digits by (simp add: show_u32_def)
  have "ascii (show_u32 n) \<and> CHR 0x00 \<notin> set (show_u32 n)" for n
    using digits [of n] by (auto simp: ascii_def list_all_iff is_ascii_digit_def byte_in_def)
  then have "from_utf8_ok (output_name s i)" "CHR 0x00 \<notin> set (output_name s i)"
    by (auto simp: output_name_def intro!: ascii_utf8_ok)
  moreover have "length (output_name s i) \<le> length (mw_body (mw_string (output_name s i) (mw_new j op)))"
    by (simp add: mw_string_def pad_body_eq)
  then have "length (output_name s i) \<le> MAX_MESSAGE_LEN" using assms by (simp add: mw_finish_Some)
  ultimately show ?thesis by (simp add: string_writable_def MAX_MESSAGE_LEN_def)
qed

lemma decode_written:
  assumes "mw_aligned w" "mw_finish w = Some m" "args_read (m_args msg) 0 (mw_body w) decoded_default d"
  shows "decode msg (drop HEADER_LEN m) = Inr d"
  using finish_header(2,3) [OF assms(1,2)] assms(3) by (subst decode_args_read) (simp_all add: MAX_MESSAGE_LEN_def)

text \<open>
  C16: What a zone learns of the monitors has no text of theirs in it. When a \<open>wl_output\<close> geometry,
  name or description event is handled, the client's stream grows by one message for the same
  object and event that decodes against the event's own signature, and whose strings are empty in a
  geometry and otherwise \<open>output-\<close> with the number of the global: make, model, serial and connector
  stay in zone 0.
\<close>

theorem outputs_anonymous:
  assumes "handle k x t = (None, t')" "fresh t" "ctx_ok x (ses t)" "x_dir x = ServerToClient"
    and "i_name (x_iface x) = ''wl_output''" "m_name (x_m x) \<in> {''geometry'', ''name'', ''description''}"
    and "hd_object (x_h x) \<noteq> WL_DISPLAY"
  shows "\<exists>m d. ep_stream (client (ses t')) = ep_stream (client (ses t)) @ m
    \<and> header_parse m = Inr \<lparr>hd_object = hd_object (x_h x), hd_opcode = hd_opcode (x_h x), hd_size = of_nat (length m)\<rparr>
    \<and> decode (x_m x) (drop HEADER_LEN m) = Inr d
    \<and> map snd (d_strings d) = (if m_name (x_m x) = ''geometry'' then [[], []]
        else [output_name (ses t) (hd_object (x_h x))])"
proof -
  have none: "new_object (x_dec x) = None" using event_makes_none [OF assms(3,4)] assms(5) by simp
  obtain u where u: "s2c k x t = (None, u)" "send_on x u = (None, t')" by (rule handle_event [OF assms(1,4) none])
  have "s2c k x t = s2c_output x t"
    using assms(5,7) by (cases "s2c_output x t") (auto simp: s2c_def s2c_skips andthen_def split: option.splits)
  then have run: "s2c_output x t = (None, u)" using u(1) by simp
  let ?i = "hd_object (x_h x)" and ?op = "hd_opcode (x_h x)"
  let ?r = "if m_name (x_m x) = ''geometry'' then blank_geometry x else Inr (mw_string (output_name (ses t) ?i) (mw_new ?i ?op))"
  obtain w m where w: "?r = Inr w" "mw_finish w = Some m" and u': "u = t\<lparr>rewritten := Some m\<rparr>"
    using run assms(5,6)
    by (cases ?r) (auto simp: s2c_output_def try_val_def wire_def output_name_def split: sum.splits option.splits if_splits)
  have out: "ep_stream (client (ses t')) = ep_stream (client (ses t)) @ m"
    using send_on_client [OF u(2) assms(4)] assms(2) by (simp add: u' fresh_def out_msg_def)
  have "\<exists>d. mw_aligned w \<and> mw_object w = ?i \<and> mw_opcode w = ?op \<and> args_read (m_args (x_m x)) 0 (mw_body w) decoded_default d
      \<and> map snd (d_strings d) = (if m_name (x_m x) = ''geometry'' then [[], []] else [output_name (ses t) ?i])"
  proof (cases "m_name (x_m x) = ''geometry''")
    case True
    then obtain vs where vs: "w = geometry_writer ?i ?op vs" using w(1) blank_geometry_writer by auto
    show ?thesis
      using True output_messages(1) [OF assms(3-5) True] geometry_reads geometry_aligned
      by (intro exI [of _ "decoded_default\<lparr>d_strings := [(20, []), (28, [])]\<rparr>"]) (simp add: vs geometry_head)
  next
    case False
    then have ww: "w = mw_string (output_name (ses t) ?i) (mw_new ?i ?op)" using w(1) by simp
    have "args_read [Arg_String False] 0 (string_enc (output_name (ses t) ?i) @ []) decoded_default
        (decoded_default\<lparr>d_strings := d_strings decoded_default @ [(0, output_name (ses t) ?i)]\<rparr>)"
      by (rule args_read.cons [OF string_enc_reads [OF output_name_writable [OF w(2) [unfolded ww]]] args_read.nil])
    then show ?thesis
      using False assms(6) output_messages(2) [OF assms(3-5)] string_codec.enc_aligned [of "output_name (ses t) ?i"]
        string_codec.put_eq [OF mw_aligned_new [of ?i ?op], of "output_name (ses t) ?i"]
      by (intro exI [of _ "decoded_default\<lparr>d_strings := [(0, output_name (ses t) ?i)]\<rparr>"])
        (simp add: ww mw_new_def decoded_default_def mw_aligned_def)
  qed
  then obtain d where d: "mw_aligned w" "mw_object w = ?i" "mw_opcode w = ?op"
      "args_read (m_args (x_m x)) 0 (mw_body w) decoded_default d"
      "map snd (d_strings d) = (if m_name (x_m x) = ''geometry'' then [[], []] else [output_name (ses t) ?i])" by auto
  show ?thesis
    using out finish_header(1) [OF d(1) w(2)] decode_written [OF d(1) w(2) d(4)] d(2,3,5)
    by (intro exI [of _ m] exI [of _ d]) simp
qed

end
