(* ===== verification/Proxy_Scenario.thy ===== *)
theory Proxy_Scenario
  imports Proxy_Events
begin

text \<open>
  A connection run through the model: a client asks for the registry and is told of the proxy's own
  global. The theorems on sessions are applied to it, so that none of them speaks of nothing.
\<close>

section \<open>Running a script\<close>

fun drive :: "kernel \<Rightarrow> (dir \<times> recv_answer) list \<Rightarrow> session \<times> clipboard \<Rightarrow> (session \<times> clipboard) option" where
  "drive k [] sc = Some sc"
| "drive k ((d, a) # as) (s, c) = (case ep_read a (src d s) of
     (Inr _, e) \<Rightarrow> (case pump k d (set_src d e s) c of
         Some (None, sc) \<Rightarrow> drive k as sc
       | _ \<Rightarrow> None)
   | _ \<Rightarrow> None)"

lemma drive_reach: "ses_reach k s \<Longrightarrow> drive k as (s, c) = Some (s', c') \<Longrightarrow> ses_reach k s'"
proof (induction as arbitrary: s c)
  case (Cons da as)
  obtain d a where da: "da = (d, a)" by (cases da)
  obtain n e where e: "ep_read a (src d s) = (Inr n, e)"
    using Cons.prems(2) da by (auto split: prod.splits sum.splits)
  obtain s1 c1 where p: "pump k d (set_src d e s) c = Some (None, s1, c1)" "drive k as (s1, c1) = Some (s', c')"
    using Cons.prems(2) da e by (auto split: option.splits)
  have "ses_reach k s1" by (rule ses_reach.pump [OF ses_reach.read_in [OF Cons.prems(1) e] p(1)])
  then show ?case by (rule Cons.IH [OF _ p(2)])
qed simp

section \<open>The script\<close>

definition msg :: "message_writer \<Rightarrow> bytes" where
  "msg w = (case mw_finish w of Some m \<Rightarrow> m | None \<Rightarrow> [])"

definition GET_REGISTRY :: bytes where
  "GET_REGISTRY = msg (mw_u32 2 (mw_new 1 1))"

definition script :: "(dir \<times> recv_answer) list" where
  "script = [(ClientToServer, Recv GET_REGISTRY [] False)]"

text \<open>A kernel whose every descriptor is a sealed piece of shared memory.\<close>

definition plain_kernel :: kernel where
  "plain_kernel = \<lparr>k_getfl = (\<lambda>_. 2), k_fstatfs = (\<lambda>_. Some TMPFS_MAGIC), k_get_seals = (\<lambda>_. 1),
     k_fstat = (\<lambda>f. Inr (1, of_nat f)), k_dupfd = (\<lambda>f. Inr (f + 100)), k_punch = (\<lambda>_ _. None)\<rparr>"

definition demo_start :: session where
  "demo_start = (the (session_new ''work'' 3 4))\<lparr>ses_id := 1, hold_awake := False\<rparr>"

lemma demo_start_reach: "ses_reach k demo_start"
proof -
  have "case session_new ''work'' 3 4 of Some s \<Rightarrow> True | None \<Rightarrow> False" by code_simp
  then show ?thesis unfolding demo_start_def by (intro ses_reach.new) (auto split: option.splits)
qed

definition demo :: session where
  "demo = fst (the (drive plain_kernel script (demo_start, clipboard_default)))"

definition demo_read :: session where
  "demo_read = set_src ClientToServer (snd (ep_read (Recv GET_REGISTRY [] False) (src ClientToServer demo_start))) demo_start"

lemma demo_runs:
  "case drive plain_kernel script (demo_start, clipboard_default) of
     Some (s, c) \<Rightarrow> ob_live (ses_objects s) = 2 \<and> pools s = [] \<and> zone s = ''work''
       \<and> map fst (globals s) = [OWN_GLOBAL_BASE] \<and> ep_stream (server s) = GET_REGISTRY
   | None \<Rightarrow> False"
  by code_simp

lemma demo_facts:
  "\<exists>c. drive plain_kernel script (demo_start, clipboard_default) = Some (demo, c)"
  "ses_reach plain_kernel demo" "pools demo = []" "ob_live (ses_objects demo) = 2" "zone demo = ''work''" "ep_stream (server demo) = GET_REGISTRY"
proof -
  show d: "\<exists>c. drive plain_kernel script (demo_start, clipboard_default) = Some (demo, c)"
    using demo_runs by (auto simp: demo_def split: option.splits)
  then show "ses_reach plain_kernel demo" using drive_reach [OF demo_start_reach] by blast
  show "pools demo = []" "ob_live (ses_objects demo) = 2" "zone demo = ''work''" "ep_stream (server demo) = GET_REGISTRY"
    using d demo_runs by auto
qed

lemma demo_read_ok: "ep_read (Recv GET_REGISTRY [] False) (src ClientToServer demo_start)
    = (Inr 12, snd (ep_read (Recv GET_REGISTRY [] False) (src ClientToServer demo_start)))"
proof -
  have "fst (ep_read (Recv GET_REGISTRY [] False) (src ClientToServer demo_start)) = Inr 12" by code_simp
  then show ?thesis by (metis prod.collapse)
qed

lemma demo_read_reach: "ses_reach k demo_read"
  unfolding demo_read_def by (rule ses_reach.read_in [OF demo_start_reach demo_read_ok])

lemma demo_pump: "\<exists>c. pump plain_kernel ClientToServer demo_read clipboard_default = Some (None, demo, c)"
  using demo_facts(1) demo_read_ok
  by (auto simp: script_def demo_read_def split: prod.splits option.splits sum.splits)

section \<open>The theorems on it\<close>

theorem pump_returns_witness:
  "\<exists>s' c'. pump plain_kernel ClientToServer demo_read clipboard_default = Some (None, s', c')
     \<and> ses_reach plain_kernel s' \<and> pump_one plain_kernel ClientToServer s' c' = Wait (s', c')"
  using pump_returns [OF demo_read_reach, of plain_kernel ClientToServer clipboard_default] demo_pump by auto

theorem session_bounds_witness:
  "ses_reach plain_kernel demo \<and> ob_live (ses_objects demo) = 2 \<and> 2 \<le> MAX_OBJECTS
   \<and> table_count (obj_get demo) (\<lambda>_. True) = 2"
  using session_bounds [OF demo_facts(2)] demo_facts(2,4) by auto

theorem pump_conserves_fds_witness:
  "\<exists>c'. pump plain_kernel ClientToServer demo_read clipboard_default = Some (None, demo, c')
    \<and> ses_fds demo + mset (clip_fds c') + mset (ses_opened demo_read)
      = ses_fds demo_read + mset (clip_fds clipboard_default) + mset (ses_opened demo)"
  using pump_conserves_fds [OF demo_read_reach] demo_pump by blast



text \<open>Two events, arriving at a session that has the object they are for.\<close>

lemma find_display: "find ''wl_display'' = Some if_wl_display"
  by (simp add: find_Some INTERFACES_def if_wl_display_def)

lemma demo_start_parts:
  "client demo_start = ep_new 3" "hold_awake demo_start = False" "outputs demo_start = []"
  "ses_objects demo_start = objects_new (if_wl_display, 1)"
  by (simp_all add: demo_start_def session_new_def find_display)

definition arriving :: "interface \<Rightarrow> turn" where
  "arriving iface = \<lparr>ses = demo_start\<lparr>ses_objects := snd (objects_insert 2 (iface, 1) (ses_objects demo_start))\<rparr>,
     clip = clipboard_default, fds = [], forward = True, rewritten = None, stamp = None\<rparr>"

lemma arriving_parts:
  "fresh (arriving i)" "client (ses (arriving i)) = ep_new 3" "hold_awake (ses (arriving i)) = False"
  "outputs (ses (arriving i)) = []" "obj_get (ses (arriving i)) 2 = Some (i, 1)"
  by (simp_all add: fresh_def arriving_def demo_start_parts obj_get_def objects_insert_def objects_new_def objects_get_def
      slots_def set_slots_def slot_index_def in_client_range_def SERVER_ID_BASE_def MAX_OBJECTS_def MAX_ID_SLOTS_def Let_def)

definition LAYER_SHELL :: mctx where
  "LAYER_SHELL = \<lparr>x_dir = ServerToClient, x_h = \<lparr>hd_object = 2, hd_opcode = 0, hd_size = 40\<rparr>, x_iface = if_wl_registry,
     x_m = Msg ''global'' [Arg_Uint, Arg_String False, Arg_Uint] 0 1, x_version = 1,
     x_msg = msg (mw_u32 4 (mw_string ''zwlr_layer_shell_v1'' (mw_u32 8 (mw_new 2 0)))),
     x_dec = \<lparr>new_object = None, d_strings = [(4, ''zwlr_layer_shell_v1'')], bind_version = None\<rparr>\<rparr>"

definition MONITOR_NAME :: mctx where
  "MONITOR_NAME = \<lparr>x_dir = ServerToClient, x_h = \<lparr>hd_object = 2, hd_opcode = 4, hd_size = 24\<rparr>, x_iface = if_wl_output,
     x_m = Msg ''name'' [Arg_String False] 0 4, x_version = 1, x_msg = msg (mw_string ''HDMI-A-1'' (mw_new 2 4)),
     x_dec = \<lparr>new_object = None, d_strings = [(0, ''HDMI-A-1'')], bind_version = None\<rparr>\<rparr>"

lemma layer_shell_reads:
  "\<exists>r1 r2 r3. ar_u32 (ar_new (x_body LAYER_SHELL)) = Inr (8, r1)
     \<and> ar_string r1 = Inr (Some ''zwlr_layer_shell_v1'', r2) \<and> ar_u32 r2 = Inr (4, r3)"
proof -
  let ?r = "bind_res (ar_u32 (ar_new (x_body LAYER_SHELL))) (\<lambda>(g, r1). bind_res (ar_string r1) (\<lambda>(n, r2).
    bind_res (ar_u32 r2) (\<lambda>(v, _). Inr (g, n, v))))"
  have "?r = Inr (8, Some ''zwlr_layer_shell_v1'', 4)" by code_simp
  then show ?thesis by (auto simp: bind_res_eq_Inr)
qed

lemma layer_shell_ok: "ctx_ok LAYER_SHELL (ses (arriving if_wl_registry))"
proof -
  have "decode (x_m LAYER_SHELL) (x_body LAYER_SHELL) = Inr (x_dec LAYER_SHELL)" "fits_batch (x_msg LAYER_SHELL) []"
    by code_simp+
  then show ?thesis
    by (simp add: ctx_ok_def LAYER_SHELL_def arriving_parts x_table_def INTERFACES_def)
      (simp add: if_wl_registry_def)
qed

lemma monitor_name_ok: "ctx_ok MONITOR_NAME (ses (arriving if_wl_output))"
proof -
  have "decode (x_m MONITOR_NAME) (x_body MONITOR_NAME) = Inr (x_dec MONITOR_NAME)" "fits_batch (x_msg MONITOR_NAME) []"
    by code_simp+
  then show ?thesis
    by (simp add: ctx_ok_def MONITOR_NAME_def arriving_parts x_table_def INTERFACES_def)
      (simp add: if_wl_output_def)
qed

lemma layer_shell_hidden: "allowed_version ''zwlr_layer_shell_v1'' False = None"
  by code_simp

lemma event_parts:
  "x_dir LAYER_SHELL = ServerToClient" "i_name (x_iface LAYER_SHELL) = ''wl_registry''"
  "hd_opcode (x_h LAYER_SHELL) = WL_REGISTRY_GLOBAL" "new_object (x_dec LAYER_SHELL) = None"
  "x_dir MONITOR_NAME = ServerToClient" "i_name (x_iface MONITOR_NAME) = ''wl_output''"
  "m_name (x_m MONITOR_NAME) = ''name''" "hd_object (x_h MONITOR_NAME) \<noteq> WL_DISPLAY" "new_object (x_dec MONITOR_NAME) = None"
  by (simp_all add: LAYER_SHELL_def MONITOR_NAME_def if_wl_registry_def if_wl_output_def WL_REGISTRY_GLOBAL_def WL_DISPLAY_def)

lemma layer_shell_runs: "\<exists>t'. handle plain_kernel LAYER_SHELL (arriving if_wl_registry) = (None, t')"
proof -
  obtain r1 r2 r3 where r: "ar_u32 (ar_new (x_body LAYER_SHELL)) = Inr (8, r1)"
      "ar_string r1 = Inr (Some ''zwlr_layer_shell_v1'', r2)" "ar_u32 r2 = Inr (4, r3)"
    using layer_shell_reads by blast
  have "\<exists>t. s2c_global LAYER_SHELL (arriving if_wl_registry) = (None, t) \<and> \<not> forward t"
    by (simp add: s2c_global_def event_parts r try_val_def wire_def Let_def unwrap_str_Some arriving_parts layer_shell_hidden)
  then show ?thesis
    by (auto simp: handle_def s2c_def event_parts s2c_skips WL_REGISTRY_GLOBAL_def WL_REGISTRY_GLOBAL_REMOVE_def
        WL_DISPLAY_DELETE_ID_def new_obj_def send_on_def)
qed

lemma monitor_name_runs: "\<exists>t'. handle plain_kernel MONITOR_NAME (arriving if_wl_output) = (None, t')"
proof -
  let ?w = "mw_string (''output-'' @ show_u32 0) (mw_new (hd_object (x_h MONITOR_NAME)) (hd_opcode (x_h MONITOR_NAME)))"
  have "case mw_finish ?w of Some m \<Rightarrow> length m = 24 | None \<Rightarrow> False" by code_simp
  then obtain m where m: "mw_finish ?w = Some m" "length m = 24" by (auto split: option.splits)
  have "s2c_output MONITOR_NAME (arriving if_wl_output) = (None, (arriving if_wl_output)\<lparr>rewritten := Some m\<rparr>)"
    by (simp add: s2c_output_def event_parts try_val_def wire_def arriving_parts m(1) [simplified])
  then show ?thesis
    using arriving_parts(1) [of if_wl_output] m(2)
    by (simp add: handle_def s2c_def event_parts s2c_skips new_obj_def send_on_def Let_def dst_def out_msg_def fresh_def
        arriving_parts ep_new_def MAX_PENDING_BYTES_def MAX_PENDING_FDS_def) (simp add: arriving_def MAX_PENDING_FDS_def)
qed


theorem outputs_anonymous_witness:
  "\<exists>t' m d. handle plain_kernel MONITOR_NAME (arriving if_wl_output) = (None, t')
     \<and> ep_stream (client (ses t')) = ep_stream (client (ses (arriving if_wl_output))) @ m
     \<and> decode (x_m MONITOR_NAME) (drop HEADER_LEN m) = Inr d
     \<and> map snd (d_strings d) = [output_name (ses (arriving if_wl_output)) (hd_object (x_h MONITOR_NAME))]"
proof -
  obtain t' where t': "handle plain_kernel MONITOR_NAME (arriving if_wl_output) = (None, t')"
    using monitor_name_runs by blast
  show ?thesis
    using t' outputs_anonymous [OF t' arriving_parts(1) monitor_name_ok event_parts(5,6) _ event_parts(8)]
      event_parts(7) by auto
qed

end
