(* ===== verification/Proxy_Runs.thy ===== *)
theory Proxy_Runs
  imports Turn_Safe Proxy_Scenario
begin

text \<open>
  The proxy over any number of turns: it never panics and never stalls in one, and the zone stays
  within its bounds. Then what a passed budget does to the sessions that did not pass it.
\<close>

unbundle bit_operations_syntax

section \<open>The phases of a turn\<close>

lemma step_sessions_ok:
  assumes ok: "px_ok k [] px" and io: "\<And>i. sends_ok (io_server_sends (io i)) \<and> sends_ok (io_client_sends (io i))"
  shows "\<exists>sh px'. step_sessions k dbg now io px = Some (sh, px') \<and> px_ok k sh px' \<and> px_next_id px' = px_next_id px
    \<and> map l_id (px_sessions px') = map l_id (px_sessions px)"
proof -
  let ?lp = "\<lparr>lp_lives = [], lp_clip = px_clip px, lp_log = px_log px, lp_closed = [], lp_total = zone_totals px\<rparr>"
  have "loop_ok k (px_sessions px) ?lp" using ok by (simp add: loop_ok_def zone_totals_def px_ok_def)
  then obtain lp where lp: "step_lives k dbg now io (px_sessions px) ?lp = Some lp" "loop_ok k [] lp" "map l_id (lp_lives lp) = map l_id (px_sessions px)"
    using step_lives_ok [OF _ io] by fastforce
  have len: "length (lp_lives lp) = length (px_sessions px)" using lp(3) by (metis length_map)
  have ids: "list_all (\<lambda>l. P (l_id l)) (lp_lives lp) = list_all (\<lambda>l. P (l_id l)) (px_sessions px)" for P
    using arg_cong [OF lp(3), of "list_all P"] by (simp add: list.pred_map comp_def)
  have "fits (surv (lp_closed lp) (lp_lives lp))"
    using lp(2) by (cases "surv (lp_closed lp) (lp_lives lp) = []") (auto simp: loop_ok_def fits_def)
  then have "px_ok k (lp_closed lp) (px\<lparr>px_sessions := lp_lives lp, px_clip := lp_clip lp, px_log := lp_log lp\<rparr>)"
    using ok lp(2,3) ids [of "\<lambda>i. i \<noteq> OWN \<and> i < px_next_id px"]
    by (auto simp: px_ok_def loop_ok_def split: prod.splits)
  then show ?thesis using lp(1,3) by (auto simp: step_sessions_def)
qed

lemma px_ok_move: "px_ok k sh px \<Longrightarrow> px_ok k sh (step_move dbg now io (accept_move me now' acc px))"
  by (auto simp: px_ok_def step_move_def accept_move_def split: option.split prod.split bool.split)

lemma move_frame [simp]:
  "px_next_id (accept_move me now acc px) = px_next_id px" "px_sessions (accept_move me now acc px) = px_sessions px"
  "px_next_id (step_move dbg now io px) = px_next_id px" "px_sessions (step_move dbg now io px) = px_sessions px"
  by (simp_all add: step_move_def accept_move_def split: option.split prod.split bool.split)

lemma px_ok_late: "px_ok k [] px \<Longrightarrow> px_ok k [] (punch_due k' now (step_writers now ws px))"
  by (simp add: px_ok_def punch_due_def step_writers_def) (meson length_filter_le order_trans)

lemma late_frame [simp]:
  "px_next_id (punch_due k now (step_writers now ws px)) = px_next_id px"
  "px_sessions (punch_due k now (step_writers now ws px)) = px_sessions px"
  "px_clip (punch_due k now (step_writers now ws px)) = px_clip px"
  by (simp_all add: punch_due_def step_writers_def)

lemma less_succ:
  fixes n :: u64
  assumes "n \<noteq> - 1"
  shows "n + 1 \<noteq> 0" "i \<le> n \<Longrightarrow> i < n + 1"
proof -
  show nz: "n + 1 \<noteq> 0" using assms eq_neg_iff_add_eq_0 by blast
  then have "unat (n + 1) = Suc (unat n)" using unatSuc [of n] by (simp add: add.commute)
  then show "i \<le> n \<Longrightarrow> i < n + 1" by (simp add: word_le_nat_alt word_less_nat_alt)
qed

lemma accept_client_returns: "px_next_id px \<noteq> - 1 \<Longrightarrow> accept_client o' now acc px \<noteq> None"
  by (simp add: accept_client_def session_new_def find_display split: accept_answer.split sum.split)

lemma accept_client_ok:
  assumes ok: "px_ok k [] px" and acc: "accept_client o' now acc px = Some px'"
  shows "px_ok k [] px' \<and> px_clip px' = px_clip px \<and> length (px_sessions px') \<le> Suc (length (px_sessions px))"
proof (cases "\<exists>cfd sfd. acc = Accepted cfd (Inr sfd)")
  case True
  then obtain cfd sfd where a: "acc = Accepted cfd (Inr sfd)" by blast
  obtain s where s: "session_new (o_zone o') cfd sfd = Some s" by (simp add: session_new_def find_display)
  have n: "px_next_id px \<noteq> - 1" using acc a s by (auto simp: accept_client_def)
  let ?l = "\<lparr>l_s = s\<lparr>ses_id := px_next_id px, hold_awake := o_hold_awake o'\<rparr>, l_id = px_next_id px\<rparr>"
  have "live_ok k ?l" using ses_reach.new [OF s] by (simp add: live_ok_def)
  moreover have "usage_of s = (0, 0, 0)" using s by (auto simp: session_new_def usage_of_def split: option.splits)
  then have "fits (px_sessions px @ [?l])" using ok by (auto simp: px_ok_def fits_def usage_of_def)
  moreover have "px_next_id px \<notin> l_id ` set (px_sessions px)" using ok by (force simp: px_ok_def list_all_iff)
  moreover have "list_all (\<lambda>l. l_id l \<noteq> OWN \<and> l_id l < px_next_id px + 1) (px_sessions px @ [?l])"
    using ok less_succ [OF n] by (auto simp: px_ok_def list_all_iff OWN_def)
  ultimately show ?thesis
    using ok acc s a less_succ(1) [OF n] by (auto simp: accept_client_def px_ok_def split: if_splits)
next
  case False
  then show ?thesis
    using ok acc by (auto simp: accept_client_def px_ok_def split: accept_answer.splits sum.splits)
qed

lemma accept_client_ids:
  "accept_client o' now acc px = Some px' \<Longrightarrow> l_id ` set (px_sessions px') \<subseteq> insert (px_next_id px) (l_id ` set (px_sessions px))"
  by (auto simp: accept_client_def split: accept_answer.splits sum.splits option.splits if_splits)

lemma finish_turn_eq:
  "finish_turn k o' io px = (if t_listen io AND ev_in \<noteq> 0
     then map_option Go_On (accept_client o' (t_later io) (t_accept io) (punch_due k (t_later io) (step_writers (t_later io) (t_writes io) px)))
     else Some (Go_On (punch_due k (t_later io) (step_writers (t_later io) (t_writes io) px))))"
  by (simp add: finish_turn_def Let_def)

lemma finish_turn_ok:
  assumes ok: "px_ok k [] px" and f: "finish_turn k' o' io px = Some (Go_On px')"
  shows "px_ok k [] px' \<and> px_clip px' = px_clip px
    \<and> length (px_sessions px') \<le> length (px_sessions px) + (if t_listen io AND ev_in \<noteq> 0 then 1 else 0)"
  using accept_client_ok [OF px_ok_late [OF ok]] px_ok_late [OF ok] f by (auto simp: finish_turn_eq split: if_splits)

text \<open>Closing sessions leaves no more than those that were not to be closed.\<close>

lemma do_action_more: "do_action dbg now sends a (sh, px) = Some (sh', px') \<Longrightarrow> set sh \<subseteq> set sh' \<and> px_next_id px' = px_next_id px"
  by (auto simp: do_action_def own_paste_def Let_def split: if_splits option.splits prod.splits action.splits)

lemma do_actions_more: "do_actions dbg now sends as (sh, px) = Some (sh', px') \<Longrightarrow> set sh \<subseteq> set sh' \<and> px_next_id px' = px_next_id px"
  by (induction as arbitrary: sh px) (auto dest!: do_action_more split: Option.bind_splits)

lemma take_actions_more: "take_actions dbg now sends (sh, px) = Some (sh', px') \<Longrightarrow> set sh \<subseteq> set sh' \<and> px_next_id px' = px_next_id px"
  using do_actions_more by (fastforce simp: take_actions_def)

lemma close_sessions_next_id: "close_sessions k o' now is px = Some (Go_On px') \<Longrightarrow> px_next_id px' = px_next_id px"
  by (induction "is" arbitrary: px) (auto simp: close_session_def Let_def split: Option.bind_splits if_splits)

lemma settle_length:
  "settle k o' dbg now sends cp = Some (Go_On px') \<Longrightarrow>
     length (px_sessions px') + card (set (fst cp)) \<le> length (px_sessions (snd cp)) \<and> px_next_id px' = px_next_id (snd cp)"
proof (induction k o' dbg now sends cp rule: settle.induct)
  case (1 k o' dbg now sends cp)
  obtain sh0 px0 where cp: "cp = (sh0, px0)" by (cases cp)
  obtain sh px where t: "take_actions dbg now sends cp = Some (sh, px)"
    using 1(2) by (subst (asm) settle.simps) (auto split: option.splits)
  note t' = take_actions_more [OF t [unfolded cp]] take_actions_length [OF t [unfolded cp]]
  have card: "card (set sh) = length (sort_dedup sh)" by (metis distinct_card sort_dedup_props(2,3))
  have sub: "card (set sh0) \<le> card (set sh)" using t'(1) by (intro card_mono) auto
  show ?case
  proof (cases "sh = []")
    case True
    then have "px' = px" using 1(2) t by (subst (asm) settle.simps) simp
    then show ?thesis using t' True cp by simp
  next
    case sh: False
    obtain px1 where c: "close_sessions k o' now (rev (sort_dedup sh)) px = Some (Go_On px1)"
        "settle k o' dbg now sends ([], px1) = Some (Go_On px')"
      using 1(2) t sh by (subst (asm) settle.simps) (auto split: option.splits turn_end.splits)
    show ?thesis
      using 1(1) [OF t refl sh c(1) refl c(2)] close_sessions_length [OF c(1)] close_sessions_next_id [OF c(1)] card sub t' cp by simp
  qed
qed

section \<open>Reachable states of the proxy\<close>

definition proxy_ok :: "kernel \<Rightarrow> opts \<Rightarrow> proxy \<Rightarrow> bool" where
  "proxy_ok k o' px \<longleftrightarrow> px_ok k [] px \<and> length (px_sessions px) \<le> o_max_clients o' \<and> actions (px_clip px) = []"

lemma turn_settles:
  assumes "px_ok k [] px" "\<And>i. sends_ok (io_server_sends (t_ses io i)) \<and> sends_ok (io_client_sends (t_ses io i))"
  obtains (exits) c px1 where "proxy_turn k o' me dbg (Polled io) px = Some (Exit c px1)"
  | (goes_on) px1 where "proxy_turn k o' me dbg (Polled io) px = finish_turn k o' io px1" "px_ok k [] px1"
      "px_next_id px1 = px_next_id px" "actions (px_clip px1) = []" "length (px_sessions px1) \<le> length (px_sessions px)"
proof -
  obtain sh px0 where 0: "step_sessions k dbg (t_now io) (t_ses io) px = Some (sh, px0)" "px_ok k sh px0" "px_next_id px0 = px_next_id px"
      "map l_id (px_sessions px0) = map l_id (px_sessions px)"
    using step_sessions_ok [OF assms(1), of "t_ses io" dbg "t_now io"] assms(2) by blast
  let ?px = "step_move dbg (t_now io) (t_move io) (accept_move me (t_now io) (mv_accept (t_move io)) px0)"
  obtain r where r: "settle k o' dbg (t_now io) (t_refuse io) (sh, ?px) = Some r"
      "\<And>px'. r = Go_On px' \<Longrightarrow> px_ok k [] px' \<and> actions (px_clip px') = []"
    using settle_ok [of k "(sh, ?px)" o' dbg "t_now io" "t_refuse io"] px_ok_move [OF 0(2)] by auto
  have len: "length (px_sessions px0) = length (px_sessions px)" using 0(4) by (metis length_map)
  show thesis
  proof (cases r)
    case (Go_On px1)
    then show thesis
      using settle_length [of k o' dbg "t_now io" "t_refuse io" "(sh, ?px)" px1] r 0 len
      by (intro goes_on [of px1]) (auto simp: proxy_turn_def)
  qed (use r(1) 0(1) exits in \<open>auto simp: proxy_turn_def\<close>)
qed

lemma proxy_turn_ok:
  assumes "proxy_ok k o' px" "poll_ok o' now px ans" "proxy_turn k o' me dbg ans px = Some (Go_On px')"
  shows "proxy_ok k o' px'"
proof (cases ans)
  case (Polled io)
  have ok: "px_ok k [] px" using assms(1) by (simp add: proxy_ok_def)
  have sends: "sends_ok (io_server_sends (t_ses io i)) \<and> sends_ok (io_client_sends (t_ses io i))" for i
    using assms(2) Polled by simp
  show ?thesis
  proof (rule turn_settles [OF ok sends, of o' me dbg], goal_cases exits goes_on)
    case (goes_on px1)
    have f: "finish_turn k o' io px1 = Some (Go_On px')" using goes_on(1) assms(3) Polled by simp
    show ?case
      using finish_turn_ok [OF goes_on(2) f] goes_on(4,5) assms(1,2) Polled
      by (auto simp: proxy_ok_def accepting_def split: if_splits)
  qed (use assms(3) Polled in simp)
qed (use assms in \<open>auto simp: proxy_turn_def\<close>)

inductive proxy_reach :: "kernel \<Rightarrow> opts \<Rightarrow> u32 \<Rightarrow> (string \<Rightarrow> string) \<Rightarrow> proxy \<Rightarrow> bool" for k o' me dbg where
  started: "proxy_reach k o' me dbg (proxy_start o' now)"
| turned: "proxy_reach k o' me dbg px \<Longrightarrow> poll_ok o' now px ans \<Longrightarrow> proxy_turn k o' me dbg ans px = Some (Go_On px')
    \<Longrightarrow> proxy_reach k o' me dbg px'"

lemma proxy_start_ok: "proxy_ok k o' (proxy_start o' now)"
  by (simp add: proxy_ok_def proxy_start_def px_ok_def fits_def clipboard_default_def)

lemma proxy_reach_ok: "proxy_reach k o' me dbg px \<Longrightarrow> proxy_ok k o' px"
  by (induction rule: proxy_reach.induct) (auto intro: proxy_start_ok proxy_turn_ok)


text \<open>
  C5: A zone stays within its bounds. In any state the loop can reach, all the zone's connections
  together hold no more pool bytes, pools and windows than the zone may, no more clients are connected
  than the option allows and no more pastes are being written than eight; every session is one that
  \<open>session.rs\<close> can reach, under its own id, no two have the same id and none that of the proxy.
\<close>

theorem zone_within_bounds:
  assumes "proxy_reach k o' me dbg px"
  shows "used shm_pool_bytes (px_sessions px) \<le> MAX_SHM_BYTES_PER_ZONE
    \<and> used shm_pool_count (px_sessions px) \<le> MAX_SHM_POOLS_PER_ZONE
    \<and> used toplevels (px_sessions px) \<le> MAX_TOPLEVELS_PER_ZONE
    \<and> length (px_sessions px) \<le> o_max_clients o' \<and> length (px_writers px) \<le> MAX_WRITERS
    \<and> (\<forall>l \<in> set (px_sessions px). ses_reach k (l_s l) \<and> ses_id (l_s l) = l_id l \<and> l_id l \<noteq> OWN)
    \<and> distinct (map l_id (px_sessions px))"
  using proxy_reach_ok [OF assms] by (auto simp: proxy_ok_def px_ok_def fits_def live_ok_def list_all_iff)

section \<open>A budget passed\<close>

definition idle :: "session \<Rightarrow> bool" where
  "idle s \<longleftrightarrow> pending_in (client s) = [] \<and> pending_in (server s) = []"

lemma pump_idle: "idle s \<Longrightarrow> pump k d s c = Some (None, s, c)"
  by (cases d) (simp_all add: idle_def pump_def pump_one_def src_def HEADER_LEN_def)

lemma ses_step_idle:
  assumes "idle s" "io_ce io = 0" "io_se io = 0" "fst tot > MAX_SHM_BYTES_PER_ZONE"
  shows "ses_step k dbg tot io s c = Some (Some ''zone Wayland resource budget exceeded'', s, c)"
proof -
  have "over_budget tot (usage_of s) (usage_of s) = Some True"
    using assms(4) by (cases tot) (simp add: over_budget_def usage_of_def replaced_def)
  then show ?thesis using assms(1-3) by (simp add: ses_step_def read_side_def pump_side_def pump_idle)
qed

lemma step_lives_idle:
  assumes "list_all (\<lambda>l. idle (l_s l)) ls" "\<And>i. io_ce (io i) = 0 \<and> io_se (io i) = 0" "fst (lp_total lp) > MAX_SHM_BYTES_PER_ZONE"
    and "step_lives k dbg now io ls lp = Some lp'"
  shows "lp_closed lp' = lp_closed lp @ [length (lp_lives lp) ..< length (lp_lives lp) + length ls]
    \<and> length (lp_lives lp') = length (lp_lives lp) + length ls"
  using assms
proof (induction ls arbitrary: lp)
  case (Cons l ls)
  have st: "ses_step k dbg (lp_total lp) (io (length (lp_lives lp))) (l_s l) c = Some (Some ''zone Wayland resource budget exceeded'', l_s l, c)" for c
    using Cons.prems by (intro ses_step_idle) auto
  obtain lp1 where lp1: "step_live k dbg now (io (length (lp_lives lp))) l lp = Some lp1" "step_lives k dbg now io ls lp1 = Some lp'"
    using Cons.prems(4) by (auto split: Option.bind_splits)
  have "lp_closed lp1 = lp_closed lp @ [length (lp_lives lp)] \<and> length (lp_lives lp1) = Suc (length (lp_lives lp)) \<and> lp_total lp1 = lp_total lp"
    using lp1(1) st by (auto simp: step_live_def split: prod.splits)
  moreover have "[n ..< n + length (l # ls)] = n # [Suc n ..< Suc n + length ls]" for n by (subst upt_conv_Cons) simp_all
  ultimately show ?case using Cons.IH [OF _ Cons.prems(2) _ lp1(2)] Cons.prems(1,3) by (simp del: upt_Suc)
qed simp

text \<open>
  C26: A zone's budget, once passed, ends every connection of the zone, not the one that passed it.
  When the pools of the zone's sessions and of those that ended in the last second come to more than
  the zone's limit, then a turn in which no client sends anything ends all the sessions there were,
  whatever their own share: at most the client accepted in that turn is left. A client that goes over
  the limit brings this about, as its own pools still count in the next turn.
\<close>

theorem budget_error_spreads:
  assumes "list_all (\<lambda>l. idle (l_s l)) (px_sessions px)"
    and "\<And>i. io_ce (t_ses io i) = 0 \<and> io_se (t_ses io i) = 0"
    and "fst (zone_totals px) > MAX_SHM_BYTES_PER_ZONE"
    and "proxy_turn k o' me dbg (Polled io) px = Some (Go_On px')"
  shows "l_id ` set (px_sessions px') \<subseteq> {px_next_id px}"
proof -
  obtain sh px0 where 0: "step_sessions k dbg (t_now io) (t_ses io) px = Some (sh, px0)"
    using assms(4) by (auto simp: proxy_turn_def split: option.splits)
  then obtain lp where lp: "step_lives k dbg (t_now io) (t_ses io) (px_sessions px)
      \<lparr>lp_lives = [], lp_clip = px_clip px, lp_log = px_log px, lp_closed = [], lp_total = zone_totals px\<rparr> = Some lp"
      "sh = lp_closed lp" "px_sessions px0 = lp_lives lp" "px_next_id px0 = px_next_id px"
    by (auto simp: step_sessions_def)
  have sh: "sh = [0 ..< length (px_sessions px)]" "length (px_sessions px0) = length (px_sessions px)"
    using step_lives_idle [OF assms(1), of "t_ses io", OF assms(2) _ lp(1)] assms(3) lp(2,3) by simp_all
  let ?px = "step_move dbg (t_now io) (t_move io) (accept_move me (t_now io) (mv_accept (t_move io)) px0)"
  obtain px1 where 1: "settle k o' dbg (t_now io) (t_refuse io) (sh, ?px) = Some (Go_On px1)" "finish_turn k o' io px1 = Some (Go_On px')"
    using assms(4) 0 by (auto simp: proxy_turn_def split: option.splits turn_end.splits)
  have "px_sessions px1 = []" "px_next_id px1 = px_next_id px" using settle_length [OF 1(1)] sh lp(4) by auto
  then show ?thesis using 1(2) accept_client_ids by (fastforce simp: finish_turn_eq split: if_splits)
qed

section \<open>The theorems on a run\<close>

text \<open>A client connects, and is idle; the pools of two that ended go over the budget.\<close>

definition demo_opts :: opts where
  "demo_opts = opts_default\<lparr>o_zone := ''work'', o_max_clients := 4\<rparr>"

definition quiet_io :: ses_io where
  "quiet_io = \<lparr>io_ce = 0, io_se = 0, io_client_read = Recv_WouldBlock, io_server_read = Recv_WouldBlock,
     io_server_sends = [], io_client_sends = [], io_refuse_sends = []\<rparr>"

definition demo_turn :: turn_io where
  "demo_turn = \<lparr>t_listen = ev_in, t_accept = Accepted 3 (Inr 4), t_ses = (\<lambda>_. quiet_io),
     t_move = \<lparr>mv_accept = None, mv_pipe2 = None, mv_io = \<lparr>conn_reads = [], pipe_reads = [], conn_writes = []\<rparr>\<rparr>,
     t_refuse = (\<lambda>_. []), t_writes = (\<lambda>_. []), t_now = 1, t_later = 2\<rparr>"

definition demo_px :: proxy where
  "demo_px = (case proxy_turn plain_kernel demo_opts 0 (\<lambda>x. x) (Polled demo_turn) (proxy_start demo_opts 0) of
     Some (Go_On px) \<Rightarrow> px | _ \<Rightarrow> proxy_start demo_opts 0)"

lemma demo_px_runs:
  "case proxy_turn plain_kernel demo_opts 0 (\<lambda>x. x) (Polled demo_turn) (proxy_start demo_opts 0) of
     Some (Go_On px) \<Rightarrow> map l_id (px_sessions px) = [1] \<and> px_next_id px = 2 \<and> px_accept_after px = 0
       \<and> list_all (\<lambda>l. idle (l_s l)) (px_sessions px)
   | _ \<Rightarrow> False"
  by code_simp

lemma demo_px_eq:
  "proxy_turn plain_kernel demo_opts 0 (\<lambda>x. x) (Polled demo_turn) (proxy_start demo_opts 0) = Some (Go_On demo_px)"
  using demo_px_runs by (auto simp: demo_px_def split: option.splits turn_end.splits)

lemma demo_px_facts: "map l_id (px_sessions demo_px) = [1]" "px_next_id demo_px = 2" "px_accept_after demo_px = 0"
    "list_all (\<lambda>l. idle (l_s l)) (px_sessions demo_px)"
  using demo_px_runs demo_px_eq by simp_all

lemma demo_poll_ok: "length (px_sessions px) < 4 \<Longrightarrow> px_accept_after px = 0 \<Longrightarrow> poll_ok demo_opts 0 px (Polled demo_turn)"
  by (simp add: demo_turn_def quiet_io_def sends_ok_def accepting_def demo_opts_def)

lemma demo_px_reach: "proxy_reach plain_kernel demo_opts 0 (\<lambda>x. x) demo_px"
  by (rule proxy_reach.turned [OF proxy_reach.started [of _ _ _ _ 0] demo_poll_ok demo_px_eq]) (simp_all add: proxy_start_def)


theorem zone_within_bounds_witness:
  "proxy_reach plain_kernel demo_opts 0 (\<lambda>x. x) demo_px \<and> used shm_pool_bytes (px_sessions demo_px) \<le> MAX_SHM_BYTES_PER_ZONE
   \<and> map l_id (px_sessions demo_px) = [1]"
  using zone_within_bounds [OF demo_px_reach] demo_px_reach demo_px_facts(1) by blast

definition demo_over :: proxy where
  "demo_over = demo_px\<lparr>px_gone := [(9, 2 ^ 30, 5000), (10, 4096, 5000)]\<rparr>"

lemma demo_over_runs:
  "case proxy_turn plain_kernel demo_opts 0 (\<lambda>x. x) (Polled (demo_turn\<lparr>t_listen := 0\<rparr>)) demo_over of
     Some (Go_On px) \<Rightarrow> px_sessions px = [] | _ \<Rightarrow> False"
  by code_simp

theorem budget_error_spreads_witness:
  "map l_id (px_sessions demo_over) = [1]
   \<and> (\<exists>px'. proxy_turn plain_kernel demo_opts 0 (\<lambda>x. x) (Polled (demo_turn\<lparr>t_listen := 0\<rparr>)) demo_over = Some (Go_On px')
        \<and> l_id ` set (px_sessions px') \<subseteq> {2})"
proof -
  obtain px' where px': "proxy_turn plain_kernel demo_opts 0 (\<lambda>x. x) (Polled (demo_turn\<lparr>t_listen := 0\<rparr>)) demo_over = Some (Go_On px')"
    using demo_over_runs by (auto split: option.splits turn_end.splits)
  have "l_id ` set (px_sessions px') \<subseteq> {px_next_id demo_over}"
    by (rule budget_error_spreads [OF _ _ _ px'])
      (use demo_px_facts(4) in \<open>simp_all add: demo_over_def demo_turn_def quiet_io_def zone_totals_def MAX_SHM_BYTES_PER_ZONE_def\<close>)
  then show ?thesis using px' demo_px_facts(1,2) by (auto simp: demo_over_def)
qed

end
