(* ===== verification/Bpf.thy ===== *)
theory Bpf
  imports Rust_Prelude
begin

text \<open>
  Classic BPF as the seccomp filters of \<open>compartments/kryptikd/src/seccomp.rs\<close> use it: the
  instructions, and the interpreter the sources check them with (\<open>seccomp/tests.rs\<close>,
  \<open>evaluate_args\<close>). A run that reads past the end, loads an unknown offset or meets an unknown opcode
  is \<^const>\<open>None\<close>.

  Every jump is forward and relative, so a run depends only on the instructions that are left:
  \<open>bpf_run\<close> is the interpreter on that suffix, which is what the proofs about emitted blocks use. A
  filter is a chain of blocks, each guarded by a call number and each ending in a return; the locale
  \<open>guarded_blocks\<close> says what such a chain decides.
\<close>

unbundle bit_operations_syntax

section \<open>Instructions\<close>

definition BPF_LD :: u16 where "BPF_LD = 0x00"
definition BPF_W :: u16 where "BPF_W = 0x00"
definition BPF_ABS :: u16 where "BPF_ABS = 0x20"
definition BPF_JMP :: u16 where "BPF_JMP = 0x05"
definition BPF_JEQ :: u16 where "BPF_JEQ = 0x10"
definition BPF_JGT :: u16 where "BPF_JGT = 0x20"
definition BPF_JGE :: u16 where "BPF_JGE = 0x30"
definition BPF_JSET :: u16 where "BPF_JSET = 0x40"
definition BPF_K :: u16 where "BPF_K = 0x00"
definition BPF_RET :: u16 where "BPF_RET = 0x06"

lemmas bpf_code_defs = BPF_LD_def BPF_W_def BPF_ABS_def BPF_JMP_def BPF_JEQ_def BPF_JGT_def
  BPF_JGE_def BPF_JSET_def BPF_K_def BPF_RET_def

definition OFF_NR :: u32 where "OFF_NR = 0"
definition OFF_ARCH :: u32 where "OFF_ARCH = 4"

definition arg_lo :: "u32 \<Rightarrow> u32" where
  "arg_lo i = 16 + 8 * i"

record sock_filter =
  sf_code :: u16
  sf_jt :: u8
  sf_jf :: u8
  sf_k :: u32

definition stmt :: "u16 \<Rightarrow> u32 \<Rightarrow> sock_filter" where
  "stmt code k = \<lparr>sf_code = code, sf_jt = 0, sf_jf = 0, sf_k = k\<rparr>"

definition jump :: "u16 \<Rightarrow> u32 \<Rightarrow> u8 \<Rightarrow> u8 \<Rightarrow> sock_filter" where
  "jump code k jt jf = \<lparr>sf_code = code, sf_jt = jt, sf_jf = jf, sf_k = k\<rparr>"

section \<open>The interpreter\<close>

text \<open>The call as the kernel describes it; its six arguments are those at 0 to 5.\<close>

record seccomp_data =
  sd_arch :: u32
  sd_nr :: u32
  sd_args :: "nat \<Rightarrow> u64"

abbreviation arg32 :: "seccomp_data \<Rightarrow> nat \<Rightarrow> u32" where
  "arg32 c i \<equiv> ucast (sd_args c i)"

definition bpf_load :: "seccomp_data \<Rightarrow> u32 \<Rightarrow> u32 option" where
  "bpf_load c k =
     (if k = OFF_ARCH then Some (sd_arch c)
      else if k = OFF_NR then Some (sd_nr c)
      else if 16 \<le> k \<and> k < 64 \<and> unat (k - 16) mod 8 = 0 then Some (ucast (sd_args c (unat (k - 16) div 8)))
      else if 16 \<le> k \<and> k < 64 \<and> unat (k - 16) mod 8 = 4 then Some (ucast (drop_bit 32 (sd_args c (unat (k - 16) div 8))))
      else None)"

text \<open>What one instruction does: return, or go on with an accumulator so many instructions further.\<close>

datatype bpf_next = Ret u32 | Next u32 nat

definition branch :: "sock_filter \<Rightarrow> u32 \<Rightarrow> bool \<Rightarrow> bpf_next option" where
  "branch ins acc b = Some (Next acc (if b then unat (sf_jt ins) else unat (sf_jf ins)))"

definition bpf_step :: "seccomp_data \<Rightarrow> sock_filter \<Rightarrow> u32 \<Rightarrow> bpf_next option" where
  "bpf_step c ins acc =
     (if sf_code ins = BPF_LD OR BPF_W OR BPF_ABS then (case bpf_load c (sf_k ins) of Some v \<Rightarrow> Some (Next v 0) | None \<Rightarrow> None)
      else if sf_code ins = BPF_JMP OR BPF_JEQ OR BPF_K then branch ins acc (acc = sf_k ins)
      else if sf_code ins = BPF_JMP OR BPF_JGT OR BPF_K then branch ins acc (acc > sf_k ins)
      else if sf_code ins = BPF_JMP OR BPF_JGE OR BPF_K then branch ins acc (acc \<ge> sf_k ins)
      else if sf_code ins = BPF_JMP OR BPF_JSET OR BPF_K then branch ins acc (acc AND sf_k ins \<noteq> 0)
      else if sf_code ins = BPF_RET OR BPF_K then Some (Ret (sf_k ins))
      else None)"

function evaluate_from :: "sock_filter list \<Rightarrow> nat \<Rightarrow> u32 \<Rightarrow> seccomp_data \<Rightarrow> u32 option" where
  "evaluate_from prog pc acc c =
     (if pc < length prog
      then (case bpf_step c (prog ! pc) acc of
              Some (Ret r) \<Rightarrow> Some r
            | Some (Next acc' off) \<Rightarrow> evaluate_from prog (pc + 1 + off) acc' c
            | None \<Rightarrow> None)
      else None)"
  by pat_completeness auto
termination by (relation "measure (\<lambda>(prog, pc, acc, c). length prog - pc)") auto

declare evaluate_from.simps [simp del]

definition evaluate_args :: "sock_filter list \<Rightarrow> seccomp_data \<Rightarrow> u32 option" where
  "evaluate_args prog c = evaluate_from prog 0 0 c"

section \<open>Running what is left\<close>

function bpf_run :: "seccomp_data \<Rightarrow> sock_filter list \<Rightarrow> u32 \<Rightarrow> u32 option" where
  "bpf_run c [] acc = None"
| "bpf_run c (i # p) acc = (case bpf_step c i acc of
       Some (Ret r) \<Rightarrow> Some r
     | Some (Next acc' off) \<Rightarrow> bpf_run c (drop off p) acc'
     | None \<Rightarrow> None)"
  by pat_completeness auto
termination by (relation "measure (\<lambda>(c, p, acc). length p)") auto

lemma evaluate_from_run: "evaluate_from prog pc acc c = bpf_run c (drop pc prog) acc"
proof (induction prog pc acc c rule: evaluate_from.induct)
  case (1 prog pc acc c)
  show ?case
  proof (cases "pc < length prog")
    case True
    have d: "drop pc prog = prog ! pc # drop (Suc pc) prog" using True by (simp add: Cons_nth_drop_Suc)
    show ?thesis
      using 1 True by (subst evaluate_from.simps) (simp add: d add.commute split: option.split bpf_next.split)
  qed (simp add: evaluate_from.simps)
qed

lemma evaluate_args_run: "evaluate_args prog c = bpf_run c prog 0"
  by (simp add: evaluate_args_def evaluate_from_run)

abbreviation ld :: "u32 \<Rightarrow> sock_filter" where "ld k \<equiv> stmt (BPF_LD OR BPF_W OR BPF_ABS) k"
abbreviation ret :: "u32 \<Rightarrow> sock_filter" where "ret k \<equiv> stmt (BPF_RET OR BPF_K) k"
abbreviation jeq :: "u32 \<Rightarrow> u8 \<Rightarrow> u8 \<Rightarrow> sock_filter" where "jeq k jt jf \<equiv> jump (BPF_JMP OR BPF_JEQ OR BPF_K) k jt jf"
abbreviation jgt :: "u32 \<Rightarrow> u8 \<Rightarrow> u8 \<Rightarrow> sock_filter" where "jgt k jt jf \<equiv> jump (BPF_JMP OR BPF_JGT OR BPF_K) k jt jf"
abbreviation jge :: "u32 \<Rightarrow> u8 \<Rightarrow> u8 \<Rightarrow> sock_filter" where "jge k jt jf \<equiv> jump (BPF_JMP OR BPF_JGE OR BPF_K) k jt jf"
abbreviation jset :: "u32 \<Rightarrow> u8 \<Rightarrow> u8 \<Rightarrow> sock_filter" where "jset k jt jf \<equiv> jump (BPF_JMP OR BPF_JSET OR BPF_K) k jt jf"

declare bpf_run.simps(2) [simp del]

lemma run_ld [simp]: "bpf_run c (ld k # p) acc = (case bpf_load c k of Some v \<Rightarrow> bpf_run c p v | None \<Rightarrow> None)"
  by (simp add: stmt_def bpf_step_def bpf_run.simps split: option.split)

lemma run_ret [simp]: "bpf_run c (ret k # p) acc = Some k"
  by (simp add: stmt_def bpf_step_def bpf_run.simps bpf_code_defs)

lemma run_jumps [simp]:
  "bpf_run c (jeq k jt jf # p) acc = bpf_run c (drop (if acc = k then unat jt else unat jf) p) acc"
  "bpf_run c (jgt k jt jf # p) acc = bpf_run c (drop (if acc > k then unat jt else unat jf) p) acc"
  "bpf_run c (jge k jt jf # p) acc = bpf_run c (drop (if acc \<ge> k then unat jt else unat jf) p) acc"
  "bpf_run c (jset k jt jf # p) acc = bpf_run c (drop (if acc AND k \<noteq> 0 then unat jt else unat jf) p) acc"
  by (simp_all add: jump_def bpf_step_def branch_def bpf_run.simps bpf_code_defs)

lemma bpf_load_simps [simp]:
  "bpf_load c OFF_ARCH = Some (sd_arch c)" "bpf_load c OFF_NR = Some (sd_nr c)"
  "bpf_load c (arg_lo 0) = Some (arg32 c 0)" "bpf_load c (arg_lo 1) = Some (arg32 c 1)"
  "bpf_load c (arg_lo 2) = Some (arg32 c 2)" "bpf_load c (arg_lo 5) = Some (arg32 c 5)"
  by (simp_all add: bpf_load_def OFF_ARCH_def OFF_NR_def arg_lo_def)

text \<open>\<open>jeq n; ret r\<close>, and a block the number guards: another number skips it.\<close>

lemma run_pair [simp]: "bpf_run c (jeq n 0 1 # ret r # p) acc = (if acc = n then Some r else bpf_run c p acc)"
  by simp

lemma run_guard:
  assumes "length body < 256"
  shows "bpf_run c (jeq n 0 (of_nat (length body)) # body @ p) acc =
    (if acc = n then bpf_run c (body @ p) acc else bpf_run c p acc)"
  using assms by (simp add: unat_of_nat_small)

section \<open>Chains of guarded blocks\<close>

text \<open>A block that always returns, and its decision.\<close>

locale guarded_blocks =
  fixes number :: "'r \<Rightarrow> u32"
    and block :: "'r \<Rightarrow> sock_filter list"
    and decision :: "'r \<Rightarrow> seccomp_data \<Rightarrow> u32"
    and short :: "'r \<Rightarrow> bool"
  assumes decides: "short r \<Longrightarrow> bpf_run c (block r @ p) acc = Some (decision r c)"
    and fits: "short r \<Longrightarrow> length (block r) < 256"
begin

lemma run_chain:
  assumes "list_all short rs"
  shows "bpf_run c (concat (map (\<lambda>r. jeq (number r) 0 (of_nat (length (block r))) # block r) rs) @ p) acc =
    (case find (\<lambda>r. acc = number r) rs of Some r \<Rightarrow> Some (decision r c) | None \<Rightarrow> bpf_run c p acc)"
  using assms by (induction rs) (auto simp: run_guard decides fits simp del: run_jumps)

end

lemma run_pairs:
  "bpf_run c (concat (map (\<lambda>(n, r). [jeq n 0 1, ret r]) ps) @ p) acc =
    (case map_of ps acc of Some r \<Rightarrow> Some r | None \<Rightarrow> bpf_run c p acc)"
  by (induction ps) auto

end
