(* ===== verification/Seccomp_Names.thy ===== *)
theory Seccomp_Names
  imports Bpf
begin

text \<open>
  The data of \<open>compartments/kryptikd/src/seccomp.rs\<close>: the kernel's constants it spells out, and its lists
  of system calls. The numbers of the calls are the \<open>libc\<close> crate's \<open>SYS_\<close> constants, which are not part
  of the sources: a call is listed by its name, and every definition that needs its number takes the
  numbering \<open>sys\<close> as a parameter. What is relied on is \<open>sys_ok\<close>: the names listed have different
  numbers below the x32 bit, and none has the number 453, which the sources give
  \<open>map_shadow_stack\<close>. \<open>X86_64\<close> is the kernel's own numbering, with which it holds.
\<close>

section \<open>Constants\<close>

definition AUDIT_ARCH_X86_64 :: u32 where "AUDIT_ARCH_X86_64 = 0xc000003e"
definition X32_SYSCALL_BIT :: u32 where "X32_SYSCALL_BIT = 0x40000000"
definition SECCOMP_RET_KILL_PROCESS :: u32 where "SECCOMP_RET_KILL_PROCESS = 0x80000000"
definition SECCOMP_RET_ALLOW :: u32 where "SECCOMP_RET_ALLOW = 0x7fff0000"
definition SECCOMP_RET_ERRNO :: u32 where "SECCOMP_RET_ERRNO = 0x00050000"
definition SECCOMP_RET_USER_NOTIF :: u32 where "SECCOMP_RET_USER_NOTIF = 0x7fc00000"
definition SECCOMP_FILTER_FLAG_TSYNC :: u64 where "SECCOMP_FILTER_FLAG_TSYNC = 1"
definition SECCOMP_FILTER_FLAG_NEW_LISTENER :: u64 where "SECCOMP_FILTER_FLAG_NEW_LISTENER = 8"

lemmas action_defs = SECCOMP_RET_KILL_PROCESS_def SECCOMP_RET_ALLOW_def SECCOMP_RET_ERRNO_def
  SECCOMP_RET_USER_NOTIF_def

definition CLONE_NS_MASK :: u32 where "CLONE_NS_MASK = 0x7e020000"
definition TIOCSTI :: u32 where "TIOCSTI = 0x5412"
definition TIOCLINUX :: u32 where "TIOCLINUX = 0x541C"
definition SIOCETHTOOL :: u32 where "SIOCETHTOOL = 0x8946"
definition SIOCSMIIREG :: u32 where "SIOCSMIIREG = 0x8949"
definition SIOCDEVPRIVATE :: u32 where "SIOCDEVPRIVATE = 0x89F0"

lemmas ioctl_defs = TIOCSTI_def TIOCLINUX_def SIOCETHTOOL_def SIOCSMIIREG_def SIOCDEVPRIVATE_def

definition AF_UNIX :: u32 where "AF_UNIX = 1"
definition AF_INET :: u32 where "AF_INET = 2"
definition AF_INET6 :: u32 where "AF_INET6 = 10"
definition AF_NETLINK :: u32 where "AF_NETLINK = 16"
definition NETLINK_ROUTE :: u32 where "NETLINK_ROUTE = 0"
definition EAFNOSUPPORT :: u32 where "EAFNOSUPPORT = 97"
definition ENOSYS :: u32 where "ENOSYS = 38"
definition EPERM :: u32 where "EPERM = 1"
definition AF_PACKET :: u32 where "AF_PACKET = 17"
definition NETLINK_GENERIC :: u32 where "NETLINK_GENERIC = 16"
definition SOCK_DGRAM :: u32 where "SOCK_DGRAM = 2"
definition SOCK_DGRAM_FLAGS :: u32 where "SOCK_DGRAM_FLAGS = SOCK_DGRAM OR 0x80000 OR 0x800"
definition FIONBIO :: u32 where "FIONBIO = 0x5421"
definition PROT_EXEC :: u32 where "PROT_EXEC = 0x4"
definition FALLOC_FL_KEEP_SIZE :: u32 where "FALLOC_FL_KEEP_SIZE = 1"
definition FALLOC_FL_PUNCH_HOLE :: u32 where "FALLOC_FL_PUNCH_HOLE = 2"

lemmas family_defs = AF_UNIX_def AF_INET_def AF_INET6_def AF_NETLINK_def AF_PACKET_def

definition BASE_SOCKET_FAMILIES :: "u32 list" where
  "BASE_SOCKET_FAMILIES = [AF_UNIX, AF_INET, AF_INET6, AF_NETLINK]"

definition SOCKET_FAMILY_NAMES :: "(string \<times> u32) list" where
  "SOCKET_FAMILY_NAMES = [
    (''AF_UNIX'', AF_UNIX), (''AF_INET'', AF_INET), (''AF_INET6'', AF_INET6), (''AF_NETLINK'', AF_NETLINK),
    (''AF_PACKET'', 17), (''AF_KEY'', 15), (''AF_RDS'', 21), (''AF_CAN'', 29), (''AF_TIPC'', 30),
    (''AF_BLUETOOTH'', 31), (''AF_ALG'', 38), (''AF_VSOCK'', 40), (''AF_XDP'', 44)]"

definition NETLINK_PROTOCOL_NAMES :: "(string \<times> u32) list" where
  "NETLINK_PROTOCOL_NAMES = [
    (''NETLINK_ROUTE'', NETLINK_ROUTE), (''NETLINK_XFRM'', 6), (''NETLINK_AUDIT'', 9),
    (''NETLINK_NETFILTER'', 12), (''NETLINK_KOBJECT_UEVENT'', 15), (''NETLINK_GENERIC'', 16)]"

text \<open>\<open>find\<close> on the first component, then the second.\<close>

definition socket_family_by_name :: "string \<Rightarrow> u32 option" where
  "socket_family_by_name name = map_of SOCKET_FAMILY_NAMES name"

definition netlink_protocol_by_name :: "string \<Rightarrow> u32 option" where
  "netlink_protocol_by_name name = map_of NETLINK_PROTOCOL_NAMES name"

section \<open>The lists of calls\<close>

definition SYS_MAP_SHADOW_STACK :: int where "SYS_MAP_SHADOW_STACK = 453"

text \<open>The calls of \<open>BASE_ALLOWLIST\<close> that \<open>libc\<close> names; the list adds \<open>map_shadow_stack\<close>.\<close>

definition BASE_SYS :: "string list" where
  "BASE_SYS = [
    ''read'', ''write'', ''readv'', ''writev'', ''pread64'', ''pwrite64'', ''preadv'', ''pwritev'',
    ''open'', ''openat'', ''close'', ''lseek'', ''stat'', ''fstat'', ''lstat'', ''newfstatat'', ''statx'',
    ''access'', ''faccessat'', ''faccessat2'', ''getdents64'', ''readlink'', ''readlinkat'', ''fcntl'',
    ''ioctl'', ''dup'', ''dup2'', ''dup3'', ''pipe'', ''pipe2'', ''fsync'', ''fdatasync'', ''ftruncate'',
    ''truncate'', ''getcwd'', ''chdir'', ''fchdir'', ''rename'', ''renameat'', ''renameat2'', ''mkdir'',
    ''mkdirat'', ''rmdir'', ''unlink'', ''unlinkat'', ''symlink'', ''symlinkat'', ''link'', ''linkat'',
    ''umask'', ''flock'', ''fallocate'', ''creat'', ''openat2'', ''close_range'', ''mknod'', ''mknodat'',
    ''chmod'', ''fchmod'', ''fchmodat'', ''fchmodat2'', ''chown'', ''fchown'', ''lchown'', ''fchownat'',
    ''copy_file_range'', ''sendfile'', ''splice'', ''fadvise64'', ''readahead'', ''utimensat'',
    ''futimesat'', ''sync'', ''syncfs'', ''getxattr'', ''lgetxattr'', ''fgetxattr'', ''listxattr'',
    ''llistxattr'', ''flistxattr'', ''setxattr'', ''lsetxattr'', ''fsetxattr'', ''removexattr'',
    ''lremovexattr'', ''fremovexattr'', ''mmap'', ''munmap'', ''mremap'', ''brk'', ''madvise'', ''mlock'',
    ''munlock'', ''memfd_create'', ''msync'', ''mprotect'', ''clone'', ''clone3'', ''fork'', ''vfork'',
    ''execve'', ''execveat'', ''exit'', ''exit_group'', ''wait4'', ''waitid'', ''pidfd_open'',
    ''pidfd_send_signal'', ''getpid'', ''getppid'', ''gettid'', ''getuid'', ''geteuid'', ''getgid'',
    ''getegid'', ''getgroups'', ''getpgrp'', ''getpgid'', ''setpgid'', ''getsid'', ''setsid'',
    ''getrusage'', ''getrlimit'', ''prlimit64'', ''sched_yield'', ''sched_getaffinity'',
    ''sched_setaffinity'', ''getcpu'', ''capget'', ''set_tid_address'', ''set_robust_list'',
    ''get_robust_list'', ''futex'', ''arch_prctl'', ''membarrier'', ''getpriority'', ''setpriority'',
    ''sched_getparam'', ''sched_getscheduler'', ''sched_get_priority_max'', ''sched_get_priority_min'',
    ''sched_getattr'', ''ioprio_get'', ''getresuid'', ''getresgid'', ''rt_sigaction'', ''rt_sigprocmask'',
    ''rt_sigreturn'', ''rt_sigpending'', ''rt_sigsuspend'', ''rt_sigtimedwait'', ''sigaltstack'', ''kill'',
    ''tgkill'', ''tkill'', ''restart_syscall'', ''clock_gettime'', ''clock_getres'', ''clock_nanosleep'',
    ''gettimeofday'', ''nanosleep'', ''times'', ''alarm'', ''setitimer'', ''getitimer'', ''pause'',
    ''timer_create'', ''timer_settime'', ''timer_gettime'', ''timer_getoverrun'', ''timer_delete'',
    ''poll'', ''ppoll'', ''select'', ''pselect6'', ''epoll_create'', ''epoll_create1'', ''epoll_ctl'',
    ''epoll_wait'', ''epoll_pwait'', ''epoll_pwait2'', ''eventfd'', ''eventfd2'', ''signalfd'',
    ''signalfd4'', ''timerfd_create'', ''timerfd_settime'', ''timerfd_gettime'', ''inotify_add_watch'',
    ''inotify_rm_watch'', ''socket'', ''socketpair'', ''bind'', ''listen'', ''accept'', ''accept4'',
    ''connect'', ''shutdown'', ''getsockname'', ''getpeername'', ''setsockopt'', ''getsockopt'',
    ''sendto'', ''recvfrom'', ''sendmsg'', ''recvmsg'', ''sendmmsg'', ''recvmmsg'', ''uname'', ''sysinfo'',
    ''getrandom'', ''prctl'', ''rseq'', ''statfs'', ''fstatfs'']"

definition BASE_NAMES :: "(string \<Rightarrow> int) \<Rightarrow> (string \<times> int) list" where
  "BASE_NAMES sys = map (\<lambda>n. (n, sys n)) BASE_SYS @ [(''map_shadow_stack'', SYS_MAP_SHADOW_STACK)]"

definition BASE_ALLOWLIST :: "(string \<Rightarrow> int) \<Rightarrow> int list" where
  "BASE_ALLOWLIST sys = map sys BASE_SYS @ [SYS_MAP_SHADOW_STACK]"

definition DENIED_RATIONALE :: "(string \<times> string) list" where
  "DENIED_RATIONALE = [
    (''ptrace'', ''read/write another process's memory; the classic escape''),
    (''process_vm_readv'', ''read another process's memory directly''),
    (''process_vm_writev'', ''write another process's memory directly''),
    (''mount'', ''re-mount the filesystem out from under Landlock''),
    (''umount2'', ''unmount the zone's own confinement''),
    (''pivot_root'', ''replace the zone's root''),
    (''chroot'', ''escape via the classic double-chroot trick''),
    (''unshare'', ''create nested namespaces; a known LPE surface''),
    (''setns'', ''enter another zone's namespaces''),
    (''bpf'', ''load kernel programs; a well-worn privilege-escalation path''),
    (''perf_event_open'', ''long history of privilege escalation bugs''),
    (''userfaultfd'', ''reliable heap-grooming primitive for kernel exploits''),
    (''keyctl'', ''kernel keyring; repeated CVEs''),
    (''add_key'', ''kernel keyring''),
    (''request_key'', ''kernel keyring''),
    (''init_module'', ''load a kernel module''),
    (''finit_module'', ''load a kernel module''),
    (''delete_module'', ''unload a kernel module''),
    (''kexec_load'', ''boot a different kernel''),
    (''reboot'', ''reboot the host''),
    (''swapon'', ''attach swap''),
    (''swapoff'', ''detach swap''),
    (''setuid'', ''no zoned process should change uid''),
    (''setgid'', ''no zoned process should change gid''),
    (''ioperm'', ''raw I/O port access''),
    (''iopl'', ''raw I/O port access''),
    (''quotactl'', ''filesystem quota manipulation''),
    (''open_by_handle_at'', ''open a file by handle, bypassing path checks''),
    (''name_to_handle_at'', ''obtain the handle used by the above''),
    (''fsopen'', ''new mount API: open a filesystem context''),
    (''fsconfig'', ''new mount API: configure a filesystem context''),
    (''fsmount'', ''new mount API: create a mount from a context''),
    (''fspick'', ''new mount API: reconfigure an existing mount''),
    (''move_mount'', ''new mount API: attach a mount''),
    (''open_tree'', ''new mount API: detach a mount tree''),
    (''mount_setattr'', ''change mount flags, e.g. clear read-only''),
    (''io_uring_setup'', ''io_uring: does I/O past the syscall filter''),
    (''io_uring_enter'', ''io_uring''),
    (''io_uring_register'', ''io_uring''),
    (''pidfd_getfd'', ''steal a descriptor from another process''),
    (''kcmp'', ''compare kernel objects across processes; ASLR/ptrace aid''),
    (''sethostname'', ''the zone's hostname is set by kryptikd, once''),
    (''setdomainname'', ''as sethostname''),
    (''setgroups'', ''no zoned process changes its groups''),
    (''setresuid'', ''no zoned process should change uid''),
    (''setresgid'', ''no zoned process should change gid''),
    (''setreuid'', ''no zoned process should change uid''),
    (''setregid'', ''no zoned process should change gid''),
    (''setfsuid'', ''no zoned process should change uid''),
    (''setfsgid'', ''no zoned process should change gid''),
    (''capset'', ''capabilities are fixed at zone entry''),
    (''personality'', ''change the execution domain; ASLR-disabling flag'')]"

abbreviation DENIED_SYS :: "string list" where
  "DENIED_SYS \<equiv> map fst DENIED_RATIONALE"

definition DENIED_NAMES :: "(string \<Rightarrow> int) \<Rightarrow> (string \<times> int) list" where
  "DENIED_NAMES sys = map (\<lambda>n. (n, sys n)) DENIED_SYS"

definition is_denied :: "(string \<Rightarrow> int) \<Rightarrow> int \<Rightarrow> bool" where
  "is_denied sys nr = list_ex (\<lambda>(n, _). sys n = nr) DENIED_RATIONALE"

definition REFUSED_SOFTLY :: "(string \<times> u32) list" where
  "REFUSED_SOFTLY = [
    (''inotify_init'', ENOSYS), (''inotify_init1'', ENOSYS), (''setfsuid'', EPERM), (''setfsgid'', EPERM),
    (''setuid'', EPERM), (''setgid'', EPERM), (''setreuid'', EPERM), (''setregid'', EPERM),
    (''setresuid'', EPERM), (''setresgid'', EPERM), (''setgroups'', EPERM), (''capset'', EPERM),
    (''unshare'', EPERM), (''sched_setscheduler'', EPERM), (''sched_setparam'', EPERM),
    (''sched_setattr'', EPERM), (''ioprio_set'', EPERM), (''quotactl'', EPERM)]"

definition PROXY_SYS :: "string list" where
  "PROXY_SYS = [
    ''execve'', ''arch_prctl'', ''set_tid_address'', ''rt_sigaction'', ''rt_sigprocmask'', ''sigaltstack'',
    ''prlimit64'', ''exit'', ''exit_group'', ''brk'', ''mmap'', ''munmap'', ''mremap'', ''mprotect'',
    ''madvise'', ''poll'', ''restart_syscall'', ''accept4'', ''socket'', ''connect'', ''getsockopt'',
    ''recvmsg'', ''sendmsg'', ''recvfrom'', ''sendto'', ''read'', ''write'', ''pipe2'', ''fcntl'',
    ''ioctl'', ''close'', ''getrandom'', ''clock_gettime'', ''geteuid'', ''fstatfs'', ''fstat'',
    ''fallocate'']"

definition PROXY_ALLOWLIST :: "(string \<Rightarrow> int) \<Rightarrow> int list" where
  "PROXY_ALLOWLIST sys = map sys PROXY_SYS"

definition ADDABLE_SYS :: "string list" where
  "ADDABLE_SYS = [
    ''acct'', ''adjtimex'', ''clock_adjtime'', ''clock_settime'', ''fanotify_init'', ''fanotify_mark'',
    ''inotify_init'', ''inotify_init1'', ''ioprio_set'', ''landlock_add_rule'',
    ''landlock_create_ruleset'', ''landlock_restrict_self'', ''mincore'', ''mlock2'', ''mlockall'',
    ''mq_getsetattr'', ''mq_notify'', ''mq_open'', ''mq_timedreceive'', ''mq_timedsend'', ''mq_unlink'',
    ''msgctl'', ''msgget'', ''msgrcv'', ''msgsnd'', ''munlockall'', ''process_madvise'',
    ''remap_file_pages'', ''rt_sigqueueinfo'', ''rt_tgsigqueueinfo'', ''sched_setattr'',
    ''sched_setparam'', ''sched_setscheduler'', ''seccomp'', ''semctl'', ''semget'', ''semop'',
    ''settimeofday'', ''shmat'', ''shmctl'', ''shmdt'', ''shmget'', ''syslog'', ''vhangup'']"

definition ADDABLE :: "(string \<Rightarrow> int) \<Rightarrow> (string \<times> int) list" where
  "ADDABLE sys = map (\<lambda>n. (n, sys n)) ADDABLE_SYS"

definition sys_names :: "(string \<Rightarrow> int) \<Rightarrow> (string \<times> int) list" where
  "sys_names sys = DENIED_NAMES sys @ BASE_NAMES sys @ ADDABLE sys"

definition syscall_by_name :: "(string \<Rightarrow> int) \<Rightarrow> string \<Rightarrow> int option" where
  "syscall_by_name sys name = map_of (sys_names sys) name"

definition name_of :: "(string \<Rightarrow> int) \<Rightarrow> int \<Rightarrow> string option" where
  "name_of sys nr = map_option fst (find (\<lambda>(_, v). v = nr) (sys_names sys))"

section \<open>What is relied on of the numbering\<close>

definition SYS_NAMES :: "string list" where
  "SYS_NAMES = DENIED_SYS @ BASE_SYS @ ADDABLE_SYS"

definition sys_ok :: "(string \<Rightarrow> int) \<Rightarrow> bool" where
  "sys_ok sys \<longleftrightarrow> distinct (map sys SYS_NAMES)
     \<and> list_all (\<lambda>n. 0 \<le> sys n \<and> sys n < 2 ^ 30 \<and> sys n \<noteq> SYS_MAP_SHADOW_STACK) SYS_NAMES"

definition X86_64_NUMBERS :: "int list" where
  "X86_64_NUMBERS = [
    101, 310, 311, 165, 166, 155, 161, 272, 308, 321, 298, 323, 250, 248, 249, 175, 313, 176, 246, 169,
    167, 168, 105, 106, 173, 172, 179, 304, 303, 430, 431, 432, 433, 429, 428, 442, 425, 426, 427, 438,
    312, 170, 171, 116, 117, 119, 113, 114, 122, 123, 126, 135, 0, 1, 19, 20, 17, 18, 295, 296, 2, 257, 3,
    8, 4, 5, 6, 262, 332, 21, 269, 439, 217, 89, 267, 72, 16, 32, 33, 292, 22, 293, 74, 75, 77, 76, 79, 80,
    81, 82, 264, 316, 83, 258, 84, 87, 263, 88, 266, 86, 265, 95, 73, 285, 85, 437, 436, 133, 259, 90, 91,
    268, 452, 92, 93, 94, 260, 326, 40, 275, 221, 187, 280, 261, 162, 306, 191, 192, 193, 194, 195, 196,
    188, 189, 190, 197, 198, 199, 9, 11, 25, 12, 28, 149, 150, 319, 26, 10, 56, 435, 57, 58, 59, 322, 60,
    231, 61, 247, 434, 424, 39, 110, 186, 102, 107, 104, 108, 115, 111, 121, 109, 124, 112, 98, 97, 302,
    24, 204, 203, 309, 125, 218, 273, 274, 202, 158, 324, 140, 141, 143, 145, 146, 147, 315, 252, 118, 120,
    13, 14, 15, 127, 130, 128, 131, 62, 234, 200, 219, 228, 229, 230, 96, 35, 100, 37, 38, 36, 34, 222,
    223, 224, 225, 226, 7, 271, 23, 270, 213, 291, 233, 232, 281, 441, 284, 290, 282, 289, 283, 286, 287,
    254, 255, 41, 53, 49, 50, 43, 288, 42, 48, 51, 52, 54, 55, 44, 45, 46, 47, 307, 299, 63, 99, 318, 157,
    334, 137, 138, 163, 159, 305, 227, 300, 301, 253, 294, 251, 445, 444, 446, 27, 325, 151, 245, 244, 240,
    243, 242, 241, 71, 68, 70, 69, 152, 440, 216, 129, 297, 314, 142, 144, 317, 66, 64, 65, 164, 30, 31,
    67, 29, 103, 153]"

definition x86_64 :: "string \<Rightarrow> int" where
  "x86_64 n = (case map_of (zip SYS_NAMES X86_64_NUMBERS) n of Some i \<Rightarrow> i | None \<Rightarrow> -1)"

text \<open>The names differ, because a hash of them does.\<close>

definition name_hash :: "string \<Rightarrow> int" where
  "name_hash s = foldl (\<lambda>v c. (3 * v + of_char c) mod 65521) 0 s"

definition NAME_HASHES :: "int list" where
  "NAME_HASHES = [
    40961, 64889, 799, 13325, 59797, 62266, 37007, 59941, 13531, 1320, 61347, 40274, 38796, 41544, 3613,
    47280, 32478, 32308, 61382, 39977, 41654, 59519, 40726, 40600, 38890, 4278, 45154, 49828, 30280, 38519,
    16658, 50107, 38474, 31294, 37495, 22370, 46915, 45978, 17030, 36295, 4219, 61523, 55133, 50394, 52086,
    51960, 39146, 39020, 38552, 38426, 36392, 23658, 4378, 14111, 13252, 42451, 55743, 44552, 40468, 58578,
    4418, 40169, 12380, 13172, 4556, 12818, 13304, 58805, 13788, 35632, 7502, 22556, 40470, 31311, 20122,
    12381, 12849, 1363, 4139, 4140, 4406, 13268, 12885, 16488, 64541, 50529, 37690, 12156, 36942, 40154,
    34188, 37093, 13047, 52309, 13506, 41639, 47553, 60844, 23835, 4298, 39089, 13745, 12581, 16508, 12413,
    55036, 19460, 13141, 53155, 12241, 37027, 6045, 18185, 12293, 37079, 38537, 6513, 32657, 36483, 41276,
    12853, 27483, 23097, 65363, 4623, 42028, 13318, 1175, 27330, 15755, 44847, 57791, 39562, 27419, 53574,
    39256, 39000, 24454, 4327, 40318, 39832, 1331, 50188, 13148, 55600, 42343, 13452, 33573, 12365, 37146,
    4202, 13760, 38336, 17826, 4238, 45983, 13603, 41068, 12343, 35184, 37765, 47952, 37801, 37810, 47700,
    37684, 47574, 37183, 47910, 47871, 56619, 37792, 40708, 39986, 39116, 52983, 55329, 59639, 47496,
    37686, 36284, 10282, 61754, 62522, 12888, 37671, 10170, 25214, 13071, 15453, 28352, 18618, 18632,
    26744, 16445, 38875, 38749, 1056, 51824, 5466, 14017, 20782, 29832, 37766, 4266, 40797, 13662, 19399,
    24874, 30074, 60091, 16749, 6231, 13630, 12097, 50774, 37563, 13190, 35642, 51664, 42916, 45579, 35057,
    4455, 13527, 40364, 38485, 26144, 12960, 44613, 3273, 9857, 29621, 49383, 17157, 38381, 49674, 28335,
    29743, 20995, 1061, 44319, 40991, 48547, 4021, 39311, 35624, 41403, 46825, 41709, 27585, 14787, 27015,
    52903, 40455, 33179, 55896, 54762, 36731, 33329, 13748, 61274, 38290, 13497, 4529, 41425, 50262, 3923,
    62348, 19447, 33622, 61869, 61878, 16468, 49453, 16553, 55087, 63946, 30194, 52480, 39494, 28696, 1174,
    23424, 53512, 22722, 63943, 24838, 39930, 39929, 40024, 40048, 61043, 56398, 32435, 34255, 5719, 35492,
    41697, 57444, 54987, 40416, 40415, 13468, 45841, 13511, 40659, 13520, 40658, 42259, 57990]"

lemma SYS_NAMES_distinct: "distinct SYS_NAMES"
proof -
  have "map name_hash SYS_NAMES = NAME_HASHES" by code_simp
  moreover have "distinct NAME_HASHES" by (simp add: NAME_HASHES_def)
  ultimately show ?thesis using distinct_map [of name_hash SYS_NAMES] by simp
qed

lemma map_zip_self:
  "distinct ns \<Longrightarrow> length ns = length is \<Longrightarrow> map (\<lambda>n. case map_of (zip ns is) n of Some i \<Rightarrow> i | None \<Rightarrow> -1) ns = (is :: int list)"
  by (rule nth_equalityI) (simp_all add: map_of_zip_nth)

lemma x86_64_numbers: "map x86_64 SYS_NAMES = X86_64_NUMBERS"
proof -
  have "length SYS_NAMES = length X86_64_NUMBERS" by (simp add: SYS_NAMES_def DENIED_RATIONALE_def BASE_SYS_def ADDABLE_SYS_def X86_64_NUMBERS_def)
  then show ?thesis using map_zip_self [OF SYS_NAMES_distinct] by (simp add: x86_64_def [abs_def])
qed

text \<open>The kernel's numbering is one to rely on.\<close>

lemma x86_64_ok: "sys_ok x86_64"
proof -
  have "distinct X86_64_NUMBERS" by (simp add: X86_64_NUMBERS_def)
  moreover have "list_all (\<lambda>i. 0 \<le> i \<and> i < 2 ^ 30 \<and> i \<noteq> SYS_MAP_SHADOW_STACK) X86_64_NUMBERS" by code_simp
  ultimately show ?thesis
    unfolding sys_ok_def x86_64_numbers [symmetric] by (simp add: list.pred_map comp_def)
qed

end
