(* ===== verification/Caps.thy ===== *)
theory Caps
  imports Rust_Str
begin

text \<open>
  The capability bounding set of a zone (\<open>compartments/kryptikd/src/caps.rs\<close>): the capabilities by
  name and number, the ones a policy may keep, and the sweep that drops the rest. The kernel's
  answer to \<open>PR_CAPBSET_DROP\<close> is a parameter; what a dropped capability leaves is the bounding set the
  sweep carries along. Shown: after a sweep that succeeds, the zone has what it had of
  \<open>CAP_NET_BIND_SERVICE\<close> and the keepable capabilities its policy keeps, and nothing else.
\<close>

section \<open>Capabilities\<close>

definition CAP_CHOWN :: int where "CAP_CHOWN = 0"
definition CAP_DAC_OVERRIDE :: int where "CAP_DAC_OVERRIDE = 1"
definition CAP_DAC_READ_SEARCH :: int where "CAP_DAC_READ_SEARCH = 2"
definition CAP_FOWNER :: int where "CAP_FOWNER = 3"
definition CAP_FSETID :: int where "CAP_FSETID = 4"
definition CAP_KILL :: int where "CAP_KILL = 5"
definition CAP_SETGID :: int where "CAP_SETGID = 6"
definition CAP_SETUID :: int where "CAP_SETUID = 7"
definition CAP_NET_BIND_SERVICE :: int where "CAP_NET_BIND_SERVICE = 10"
definition CAP_NET_BROADCAST :: int where "CAP_NET_BROADCAST = 11"
definition CAP_NET_ADMIN :: int where "CAP_NET_ADMIN = 12"
definition CAP_NET_RAW :: int where "CAP_NET_RAW = 13"
definition CAP_IPC_LOCK :: int where "CAP_IPC_LOCK = 14"
definition CAP_SYS_MODULE :: int where "CAP_SYS_MODULE = 16"
definition CAP_SYS_CHROOT :: int where "CAP_SYS_CHROOT = 18"
definition CAP_SYS_PTRACE :: int where "CAP_SYS_PTRACE = 19"
definition CAP_SYS_ADMIN :: int where "CAP_SYS_ADMIN = 21"
definition CAP_SYS_NICE :: int where "CAP_SYS_NICE = 23"
definition CAP_MKNOD :: int where "CAP_MKNOD = 27"

lemmas cap_defs = CAP_CHOWN_def CAP_DAC_OVERRIDE_def CAP_DAC_READ_SEARCH_def CAP_FOWNER_def CAP_FSETID_def
  CAP_KILL_def CAP_SETGID_def CAP_SETUID_def CAP_NET_BIND_SERVICE_def CAP_NET_BROADCAST_def
  CAP_NET_ADMIN_def CAP_NET_RAW_def CAP_IPC_LOCK_def CAP_SYS_MODULE_def CAP_SYS_CHROOT_def
  CAP_SYS_PTRACE_def CAP_SYS_ADMIN_def CAP_SYS_NICE_def CAP_MKNOD_def

definition KEEP :: int where "KEEP = CAP_NET_BIND_SERVICE"

definition KEEPABLE :: "int list" where
  "KEEPABLE = [
    CAP_NET_BIND_SERVICE, CAP_NET_ADMIN, CAP_NET_RAW, CAP_NET_BROADCAST, CAP_SYS_NICE, CAP_IPC_LOCK,
    CAP_KILL, CAP_CHOWN, CAP_FOWNER, CAP_FSETID, CAP_DAC_READ_SEARCH, CAP_SETUID, CAP_SETGID,
    CAP_SYS_CHROOT]"

definition PRIVSEP :: "int list" where
  "PRIVSEP = [CAP_SETUID, CAP_SETGID, CAP_SYS_CHROOT]"

definition keeps_privsep :: "int list \<Rightarrow> bool" where
  "keeps_privsep keep = list_all (\<lambda>c. c \<in> set keep) PRIVSEP"

definition CAP_NAMES :: "(string \<times> int) list" where
  "CAP_NAMES = [
    (''CAP_CHOWN'', 0), (''CAP_DAC_OVERRIDE'', 1), (''CAP_DAC_READ_SEARCH'', 2), (''CAP_FOWNER'', 3),
    (''CAP_FSETID'', 4), (''CAP_KILL'', 5), (''CAP_SETGID'', 6), (''CAP_SETUID'', 7), (''CAP_SETPCAP'', 8),
    (''CAP_LINUX_IMMUTABLE'', 9), (''CAP_NET_BIND_SERVICE'', 10), (''CAP_NET_BROADCAST'', 11),
    (''CAP_NET_ADMIN'', 12), (''CAP_NET_RAW'', 13), (''CAP_IPC_LOCK'', 14), (''CAP_IPC_OWNER'', 15),
    (''CAP_SYS_MODULE'', 16), (''CAP_SYS_RAWIO'', 17), (''CAP_SYS_CHROOT'', 18), (''CAP_SYS_PTRACE'', 19),
    (''CAP_SYS_PACCT'', 20), (''CAP_SYS_ADMIN'', 21), (''CAP_SYS_BOOT'', 22), (''CAP_SYS_NICE'', 23),
    (''CAP_SYS_RESOURCE'', 24), (''CAP_SYS_TIME'', 25), (''CAP_SYS_TTY_CONFIG'', 26), (''CAP_MKNOD'', 27),
    (''CAP_LEASE'', 28), (''CAP_AUDIT_WRITE'', 29), (''CAP_AUDIT_CONTROL'', 30), (''CAP_SETFCAP'', 31),
    (''CAP_MAC_OVERRIDE'', 32), (''CAP_MAC_ADMIN'', 33), (''CAP_SYSLOG'', 34), (''CAP_WAKE_ALARM'', 35),
    (''CAP_BLOCK_SUSPEND'', 36), (''CAP_AUDIT_READ'', 37), (''CAP_PERFMON'', 38), (''CAP_BPF'', 39),
    (''CAP_CHECKPOINT_RESTORE'', 40)]"

definition NIC_ONLY :: "int list" where
  "NIC_ONLY = [CAP_NET_ADMIN, CAP_NET_RAW, CAP_SETUID, CAP_SETGID, CAP_SYS_CHROOT]"

definition cap_by_name :: "string \<Rightarrow> int option" where
  "cap_by_name name = map_of CAP_NAMES name"

definition cap_name :: "int \<Rightarrow> string" where
  "cap_name c = (case find (\<lambda>(_, v). v = c) CAP_NAMES of Some (n, _) \<Rightarrow> n | None \<Rightarrow> ''CAP_?'')"

section \<open>The sweep\<close>

text \<open>The text of \<open>/proc/sys/kernel/cap_last_cap\<close>, or \<^const>\<open>None\<close> where it could not be read.\<close>

definition last_cap :: "string option \<Rightarrow> int" where
  "last_cap text = (case text of
       Some s \<Rightarrow> (case parse_i32 (trim s) of Some n \<Rightarrow> n | None \<Rightarrow> 40)
     | None \<Rightarrow> 63)"

definition EINVAL :: int where "EINVAL = 22"

datatype cap_error = CapError int int

text \<open>\<open>prctl c\<close> is the errno of the call, \<^const>\<open>None\<close> where it succeeded and \<open>c\<close> left the set.\<close>

fun drop_caps :: "(int \<Rightarrow> int option) \<Rightarrow> int list \<Rightarrow> int list \<Rightarrow> int list \<Rightarrow> (cap_error, int list) eff" where
  "drop_caps prctl keep [] bset = (None, bset)"
| "drop_caps prctl keep (c # cs) bset =
     (if c = KEEP \<or> c \<in> set keep \<and> c \<in> set KEEPABLE then drop_caps prctl keep cs bset
      else case prctl c of
        Some e \<Rightarrow> if e = EINVAL then drop_caps prctl keep cs bset else (Some (CapError c e), bset)
      | None \<Rightarrow> drop_caps prctl keep cs (removeAll c bset))"

definition drop_bounding_set_except ::
  "(int \<Rightarrow> int option) \<Rightarrow> string option \<Rightarrow> int list \<Rightarrow> int list \<Rightarrow> (cap_error, int list) eff" where
  "drop_bounding_set_except prctl cap_last_cap keep bset = drop_caps prctl keep [0..last_cap cap_last_cap] bset"

section \<open>What is left\<close>

lemma drop_caps_left:
  assumes "drop_caps prctl keep cs bset = (None, bset')" "\<And>c. prctl c = Some EINVAL \<Longrightarrow> c \<notin> set bset"
  shows "set bset' = set bset - {c \<in> set cs. c \<noteq> KEEP \<and> \<not> (c \<in> set keep \<and> c \<in> set KEEPABLE)}"
  using assms
proof (induction cs arbitrary: bset)
  case (Cons c cs)
  show ?case
  proof (cases "c = KEEP \<or> c \<in> set keep \<and> c \<in> set KEEPABLE")
    case True
    then show ?thesis using Cons.IH [of bset] Cons.prems by auto
  next
    case False
    show ?thesis
    proof (cases "prctl c")
      case None
      have "set bset' = set (removeAll c bset) - {c \<in> set cs. c \<noteq> KEEP \<and> \<not> (c \<in> set keep \<and> c \<in> set KEEPABLE)}"
        by (rule Cons.IH) (use Cons.prems False None in \<open>simp_all\<close>)
      then show ?thesis using False by auto
    next
      case (Some e)
      then have "e = EINVAL" "drop_caps prctl keep cs bset = (None, bset')"
        using Cons.prems(1) False by (auto split: if_splits)
      then show ?thesis using Cons.IH [of bset] Cons.prems(2) Some False by auto
    qed
  qed
qed simp

text \<open>
  C35: The bounding set. On a kernel that answers EINVAL only for a capability it does not have, and
  has none past the last one it reports, a sweep that succeeds leaves of the zone's bounding set
  exactly \<open>CAP_NET_BIND_SERVICE\<close> and the capabilities that the policy keeps and that may be kept:
  nothing outside the list of fourteen survives, whatever the policy says.
\<close>

theorem bounding_set_left:
  assumes "drop_bounding_set_except prctl cap_last_cap keep bset = (None, bset')"
    and "\<And>c. prctl c = Some EINVAL \<Longrightarrow> c \<notin> set bset"
    and "\<And>c. c \<in> set bset \<Longrightarrow> 0 \<le> c \<and> c \<le> last_cap cap_last_cap"
  shows "set bset' = set bset \<inter> (insert KEEP (set keep \<inter> set KEEPABLE))"
  using drop_caps_left [OF assms(1) [unfolded drop_bounding_set_except_def] assms(2)] assms(3) by auto

theorem bounding_set_left_witness:
  "fst (drop_bounding_set_except (\<lambda>c. if c \<le> 40 then None else Some EINVAL) (Some (''40'' @ [CHR 0x0A])) [12, 21] [0..40]) = None
   \<and> set (snd (drop_bounding_set_except (\<lambda>c. if c \<le> 40 then None else Some EINVAL) (Some (''40'' @ [CHR 0x0A])) [12, 21] [0..40]))
     = {10, 12}"
proof -
  let ?prctl = "\<lambda>c :: int. if c \<le> 40 then None else Some EINVAL"
  let ?text = "Some (''40'' @ [CHR 0x0A])"
  let ?r = "drop_bounding_set_except ?prctl ?text [12, 21] [0..40]"
  have l: "last_cap ?text = 40" by code_simp
  have f: "fst ?r = None" by code_simp
  have "set (snd ?r) = set [0..40] \<inter> insert KEEP (set [12, 21] \<inter> set KEEPABLE)"
    by (rule bounding_set_left [of ?prctl ?text]) (use f l in \<open>auto simp: prod_eq_iff split: if_splits\<close>)
  then show ?thesis using f by (auto simp: KEEP_def KEEPABLE_def cap_defs)
qed

end
