(* ===== verification/Seccomp.thy ===== *)
theory Seccomp
  imports Seccomp_Names Caps
begin

text \<open>
  The seccomp filters of \<open>compartments/kryptikd/src/seccomp.rs\<close>, emitted as BPF: the zone's filter from
  an allowlist and a socket policy, the supplicant's, the proxy's, and how a zone's allowlist is
  widened and a filter attached.

  Each emitted program is shown to decide every call as a reference decision does that names no jump
  (\<open>decide\<close>, \<open>supplicant_decide\<close>, \<open>proxy_decide\<close>). The kernel behind \<open>prctl\<close> and \<open>seccomp\<close> is a
  parameter of \<open>attach\<close>: what they answered.
\<close>

section \<open>Argument rules\<close>

record socket_policy =
  families :: "u32 list"
  netlink_protocols :: "u32 list"
  netlink_all :: bool

definition socket_policy_default :: socket_policy where
  "socket_policy_default = \<lparr>families = [], netlink_protocols = [], netlink_all = False\<rparr>"

datatype arg_rule = CloneNoNamespaces | Clone3Enosys | IoctlRefused | SocketFamilies | SocketpairUnix

definition ARG_RULES :: "arg_rule list" where
  "ARG_RULES = [CloneNoNamespaces, Clone3Enosys, IoctlRefused, SocketFamilies, SocketpairUnix]"

definition rule_nr :: "(string \<Rightarrow> int) \<Rightarrow> arg_rule \<Rightarrow> int" where
  "rule_nr sys r = (case r of
       CloneNoNamespaces \<Rightarrow> sys ''clone''
     | Clone3Enosys \<Rightarrow> sys ''clone3''
     | IoctlRefused \<Rightarrow> sys ''ioctl''
     | SocketFamilies \<Rightarrow> sys ''socket''
     | SocketpairUnix \<Rightarrow> sys ''socketpair'')"

definition errno_action :: "u32 \<Rightarrow> u32" where
  "errno_action e = SECCOMP_RET_ERRNO OR (e AND 0xffff)"

definition soft_refusal :: "u32 \<Rightarrow> u32 \<Rightarrow> u32" where
  "soft_refusal e deny_action = (if deny_action = SECCOMP_RET_USER_NOTIF then deny_action else errno_action e)"

text \<open>The call's number is read as the kernel's \<open>int\<close>.\<close>

definition soft_errno :: "(string \<Rightarrow> int) \<Rightarrow> seccomp_data \<Rightarrow> u32 option" where
  "soft_errno sys c =
     (let nr = sint (sd_nr c) in
      if sd_arch c \<noteq> AUDIT_ARCH_X86_64 then None
      else if nr = sys ''clone'' \<and> arg32 c 0 AND CLONE_NS_MASK \<noteq> 0 then Some EPERM
      else map_option snd (find (\<lambda>(n, _). sys n = nr) REFUSED_SOFTLY))"

text \<open>
  The socket rule. \<open>off\<close> is the distance of a jump, \<^const>\<open>None\<close> where the subtraction would overflow or the
  assertion fail; a miss on the last comparison jumps to the refusal.
\<close>

definition rule_families :: "socket_policy \<Rightarrow> u32 list" where
  "rule_families s =
     foldl (\<lambda>fams f. if f \<notin> set fams \<and> f \<noteq> AF_NETLINK then fams @ [f] else fams) [AF_UNIX, AF_INET, AF_INET6] (families s)
     @ (if netlink_all s then [AF_NETLINK] else [])"

definition rule_protocols :: "socket_policy \<Rightarrow> u32 list" where
  "rule_protocols s = foldl (\<lambda>protos pr. if pr \<notin> set protos then protos @ [pr] else protos) [NETLINK_ROUTE] (netlink_protocols s)"

definition off :: "nat \<Rightarrow> nat \<Rightarrow> u8 option" where
  "off from to = (if from + 1 \<le> to \<and> to - (from + 1) \<le> 255 then Some (of_nat (to - (from + 1))) else None)"

fun match_jumps :: "nat \<Rightarrow> nat \<Rightarrow> u32 list \<Rightarrow> sock_filter list option" where
  "match_jumps idx allow_idx [] = Some []"
| "match_jumps idx allow_idx (v # vs) =
     Option.bind (if idx + 1 = allow_idx then off idx (allow_idx + 1) else Some 0) (\<lambda>jf.
     Option.bind (off idx allow_idx) (\<lambda>jt.
     Option.bind (match_jumps (idx + 1) allow_idx vs) (\<lambda>js. Some (jeq v jt jf # js))))"

definition socket_body :: "socket_policy \<Rightarrow> sock_filter list option" where
  "socket_body s =
     (let fams = rule_families s;
          protos = rule_protocols s;
          netlink_block = (\<not> netlink_all s);
          n = length fams;
          nl_len = (if netlink_block then 2 + length protos else 0);
          allow_idx = 1 + n + nl_len;
          deny_idx = allow_idx + 1 in
      Option.bind (match_jumps 1 allow_idx fams) (\<lambda>fam_jumps.
      Option.bind
        (if netlink_block
         then Option.bind (off (1 + n) deny_idx) (\<lambda>jf.
              Option.bind (match_jumps (1 + n + 2) allow_idx protos) (\<lambda>proto_jumps.
                Some ([jeq AF_NETLINK 0 jf, ld (arg_lo 2)] @ proto_jumps)))
         else Some []) (\<lambda>netlink.
      Some ([ld (arg_lo 0)] @ fam_jumps @ netlink @ [ret SECCOMP_RET_ALLOW, ret (errno_action EAFNOSUPPORT)]))))"

definition arg_body :: "arg_rule \<Rightarrow> u32 \<Rightarrow> socket_policy \<Rightarrow> sock_filter list option" where
  "arg_body rule deny_action sockets = (case rule of
       CloneNoNamespaces \<Rightarrow> Some [
         ld (arg_lo 0),
         jset CLONE_NS_MASK 0 1,
         ret (soft_refusal EPERM deny_action),
         ret SECCOMP_RET_ALLOW]
     | Clone3Enosys \<Rightarrow> Some [ret (errno_action ENOSYS)]
     | IoctlRefused \<Rightarrow> Some [
         ld (arg_lo 1),
         jeq TIOCSTI 7 0,
         jeq TIOCLINUX 6 0,
         jeq SIOCETHTOOL 4 0,
         jeq SIOCSMIIREG 3 0,
         jge SIOCDEVPRIVATE 0 1,
         jgt (SIOCDEVPRIVATE + 15) 0 1,
         ret SECCOMP_RET_ALLOW,
         ret (soft_refusal EPERM deny_action),
         ret deny_action]
     | SocketFamilies \<Rightarrow> socket_body sockets
     | SocketpairUnix \<Rightarrow> Some [
         ld (arg_lo 0),
         jeq AF_UNIX 0 1,
         ret SECCOMP_RET_ALLOW,
         ret (errno_action EAFNOSUPPORT)])"

definition emit_arg_rule ::
  "(string \<Rightarrow> int) \<Rightarrow> sock_filter list \<Rightarrow> arg_rule \<Rightarrow> u32 \<Rightarrow> socket_policy \<Rightarrow> sock_filter list option" where
  "emit_arg_rule sys p rule deny_action sockets =
     Option.bind (arg_body rule deny_action sockets) (\<lambda>body.
       Some (p @ jeq (word_of_int (rule_nr sys rule)) 0 (of_nat (length body)) # body))"

section \<open>The zone's filter\<close>

text \<open>\<open>Sec_Panic\<close> is the failed assertion of \<open>off\<close>.\<close>

datatype seccomp_error =
    UnsupportedArch
  | TooManyRules nat
  | BadSyscallNumber int
  | Syscall_Error string int
  | Unsynced int
  | Denied int
  | Sec_Panic

definition seccomp_error_fmt :: "(string \<Rightarrow> int) \<Rightarrow> (int \<Rightarrow> string) \<Rightarrow> (int \<Rightarrow> string) \<Rightarrow> seccomp_error \<Rightarrow> string" where
  "seccomp_error_fmt sys os_error show_int e = (case e of
       UnsupportedArch \<Rightarrow> ''seccomp filtering is only implemented for x86-64; refusing to run a zone unfiltered''
     | TooManyRules n \<Rightarrow> ''filter would be '' @ nat_to_string n @ '' instructions; the kernel limit is 4096''
     | BadSyscallNumber nr \<Rightarrow> ''syscall number '' @ show_int nr @ '' does not fit the filter's 32-bit comparison''
     | Syscall_Error call errno \<Rightarrow> call @ '': '' @ os_error errno
     | Unsynced tid \<Rightarrow> ''seccomp(SET_MODE_FILTER): thread '' @ show_int tid @ '' could not take the filter, so none was attached''
     | Denied nr \<Rightarrow> ''syscall '' @ (case name_of sys nr of Some n \<Rightarrow> n | None \<Rightarrow> ''?'') @ '' ('' @ show_int nr
         @ '') is denied by the base policy; no zone policy can allow it''
     | Sec_Panic \<Rightarrow> [])"

definition prologue :: "u32 \<Rightarrow> sock_filter list" where
  "prologue deny_action = [
     ld OFF_ARCH,
     jeq AUDIT_ARCH_X86_64 1 0,
     ret deny_action,
     ld OFF_NR,
     jge X32_SYSCALL_BIT 0 1,
     ret deny_action]"

fun emit_rules :: "(string \<Rightarrow> int) \<Rightarrow> int list \<Rightarrow> u32 \<Rightarrow> socket_policy \<Rightarrow> arg_rule list \<Rightarrow> sock_filter list \<Rightarrow> sock_filter list option" where
  "emit_rules sys allow deny_action sockets [] p = Some p"
| "emit_rules sys allow deny_action sockets (rule # rules) p =
     (if rule_nr sys rule \<in> set allow
      then Option.bind (emit_arg_rule sys p rule deny_action sockets) (emit_rules sys allow deny_action sockets rules)
      else emit_rules sys allow deny_action sockets rules p)"

definition emit_soft :: "(string \<Rightarrow> int) \<Rightarrow> int list \<Rightarrow> u32 \<Rightarrow> sock_filter list" where
  "emit_soft sys allow deny_action =
     concat (map (\<lambda>(n, e). if sys n \<notin> set allow
                           then [jeq (word_of_int (sys n)) 0 1, ret (soft_refusal e deny_action)] else []) REFUSED_SOFTLY)"

fun emit_allow :: "(string \<Rightarrow> int) \<Rightarrow> int list \<Rightarrow> seccomp_error + sock_filter list" where
  "emit_allow sys [] = Inr []"
| "emit_allow sys (nr # nrs) =
     (if nr < 0 \<or> nr > 2 ^ 32 - 1 then Inl (BadSyscallNumber nr)
      else if list_ex (\<lambda>r. rule_nr sys r = nr) ARG_RULES then emit_allow sys nrs
      else bind_res (emit_allow sys nrs) (\<lambda>p. Inr (jeq (word_of_int nr) 0 1 # ret SECCOMP_RET_ALLOW # p)))"

definition build_program_full :: "(string \<Rightarrow> int) \<Rightarrow> int list \<Rightarrow> u32 \<Rightarrow> socket_policy \<Rightarrow> seccomp_error + sock_filter list" where
  "build_program_full sys allow deny_action sockets =
     bind_res (ok_or (emit_rules sys allow deny_action sockets ARG_RULES (prologue deny_action)) Sec_Panic) (\<lambda>rules.
     bind_res (emit_allow sys allow) (\<lambda>allowed.
       let p = rules @ emit_soft sys allow deny_action @ allowed @ [ret deny_action] in
       if length p > 4096 then Inl (TooManyRules (length p)) else Inr p))"

section \<open>Attaching a filter\<close>

text \<open>
  What the kernel knows of the process, and what it answered: the errno of \<open>prctl\<close> where it failed,
  and the errno or the result of \<open>seccomp\<close>. A filter is attached when \<open>seccomp\<close> reports no error and no
  thread it could not sync.
\<close>

record process =
  no_new_privs :: bool
  filters :: "sock_filter list list"

record sec_answers =
  an_nnp :: "int option"
  an_seccomp :: "int + int"

definition attach :: "sec_answers \<Rightarrow> sock_filter list \<Rightarrow> u64 \<Rightarrow> process \<Rightarrow> (seccomp_error + int) \<times> process" where
  "attach an prog flags pr = (case an_nnp an of
       Some e \<Rightarrow> (Inl (Syscall_Error ''prctl(PR_SET_NO_NEW_PRIVS)'' e), pr)
     | None \<Rightarrow>
         let pr = pr\<lparr>no_new_privs := True\<rparr> in
         case an_seccomp an of
           Inl e \<Rightarrow> (Inl (Syscall_Error ''seccomp(SET_MODE_FILTER)'' e), pr)
         | Inr r \<Rightarrow>
             if r > 0 \<and> flags AND SECCOMP_FILTER_FLAG_NEW_LISTENER = 0 then (Inl (Unsynced r), pr)
             else (Inr r, pr\<lparr>filters := prog # filters pr\<rparr>))"

text \<open>\<open>x86\<close> is whether the program was built for x86-64.\<close>

definition install_with ::
  "(string \<Rightarrow> int) \<Rightarrow> bool \<Rightarrow> sec_answers \<Rightarrow> int list \<Rightarrow> u32 \<Rightarrow> socket_policy \<Rightarrow> u64 \<Rightarrow> process \<Rightarrow> (seccomp_error + int) \<times> process" where
  "install_with sys x86 an allow deny_action sockets flags pr =
     (if \<not> x86 then (Inl UnsupportedArch, pr)
      else case build_program_full sys allow deny_action sockets of
        Inl e \<Rightarrow> (Inl e, pr)
      | Inr prog \<Rightarrow> attach an prog flags pr)"

definition unit_result :: "('e + int) \<times> 's \<Rightarrow> ('e, 's) eff" where
  "unit_result r = (case fst r of Inl e \<Rightarrow> (Some e, snd r) | Inr _ \<Rightarrow> (None, snd r))"

definition install :: "(string \<Rightarrow> int) \<Rightarrow> bool \<Rightarrow> sec_answers \<Rightarrow> int list \<Rightarrow> process \<Rightarrow> (seccomp_error, process) eff" where
  "install sys x86 an allow pr =
     unit_result (install_with sys x86 an allow SECCOMP_RET_KILL_PROCESS socket_policy_default SECCOMP_FILTER_FLAG_TSYNC pr)"

definition install_notifying ::
  "(string \<Rightarrow> int) \<Rightarrow> bool \<Rightarrow> sec_answers \<Rightarrow> int list \<Rightarrow> socket_policy \<Rightarrow> process \<Rightarrow> (seccomp_error + int) \<times> process" where
  "install_notifying sys x86 an allow sockets pr =
     install_with sys x86 an allow SECCOMP_RET_USER_NOTIF sockets SECCOMP_FILTER_FLAG_NEW_LISTENER pr"

section \<open>The supplicant's filter\<close>

definition supplicant_program :: "(string \<Rightarrow> int) \<Rightarrow> sock_filter list" where
  "supplicant_program sys =
     (let refuse = SECCOMP_RET_ERRNO OR EPERM in [
        ld OFF_ARCH,
        jeq AUDIT_ARCH_X86_64 1 0,
        ret SECCOMP_RET_KILL_PROCESS,
        ld OFF_NR,
        jge X32_SYSCALL_BIT 0 1,
        ret SECCOMP_RET_KILL_PROCESS,
        jeq (word_of_int (sys ''socket'')) 1 0,
        ret SECCOMP_RET_ALLOW,
        ld (arg_lo 0),
        jeq AF_UNIX 9 0,
        jeq AF_PACKET 8 0,
        jeq AF_NETLINK 1 0,
        jeq AF_INET 3 7,
        ld (arg_lo 2),
        jeq NETLINK_ROUTE 4 0,
        jeq NETLINK_GENERIC 3 4,
        ld (arg_lo 1),
        jset (NOT SOCK_DGRAM_FLAGS) 2 0,
        jset SOCK_DGRAM 0 1,
        ret SECCOMP_RET_ALLOW,
        ret refuse])"

text \<open>Here \<open>an_seccomp\<close> is the answer of \<open>prctl(PR_SET_SECCOMP)\<close>.\<close>

definition install_supplicant_filter :: "(string \<Rightarrow> int) \<Rightarrow> bool \<Rightarrow> sec_answers \<Rightarrow> process \<Rightarrow> (seccomp_error, process) eff" where
  "install_supplicant_filter sys x86 an pr =
     (if \<not> x86 then (Some UnsupportedArch, pr)
      else case an_nnp an of
        Some e \<Rightarrow> (Some (Syscall_Error ''prctl(PR_SET_NO_NEW_PRIVS)'' e), pr)
      | None \<Rightarrow>
          let pr = pr\<lparr>no_new_privs := True\<rparr> in
          case an_seccomp an of
            Inl e \<Rightarrow> (Some (Syscall_Error ''prctl(PR_SET_SECCOMP)'' e), pr)
          | Inr _ \<Rightarrow> (None, pr\<lparr>filters := supplicant_program sys # filters pr\<rparr>))"

section \<open>The proxy's filter\<close>

definition no_exec :: "sock_filter list" where
  "no_exec = [
     ld (arg_lo 2),
     jset PROT_EXEC 0 1,
     ret SECCOMP_RET_KILL_PROCESS,
     ret SECCOMP_RET_ALLOW]"

definition only :: "u32 \<Rightarrow> u32 \<Rightarrow> sock_filter list" where
  "only i v = [
     ld (arg_lo i),
     jeq v 0 1,
     ret SECCOMP_RET_ALLOW,
     ret SECCOMP_RET_KILL_PROCESS]"

definition proxy_rules :: "(string \<Rightarrow> int) \<Rightarrow> (int \<times> sock_filter list) list" where
  "proxy_rules sys = [
     (sys ''socket'', only 0 AF_UNIX),
     (sys ''ioctl'', only 1 FIONBIO),
     (sys ''sendto'', only 5 0),
     (sys ''fallocate'', only 1 (FALLOC_FL_PUNCH_HOLE OR FALLOC_FL_KEEP_SIZE)),
     (sys ''mmap'', no_exec),
     (sys ''mprotect'', no_exec)]"

definition proxy_program :: "(string \<Rightarrow> int) \<Rightarrow> sock_filter list" where
  "proxy_program sys =
     prologue SECCOMP_RET_KILL_PROCESS
     @ concat (map (\<lambda>(nr, body). jeq (word_of_int nr) 0 (of_nat (length body)) # body) (proxy_rules sys))
     @ concat (map (\<lambda>nr. if list_ex (\<lambda>(r, _). r = nr) (proxy_rules sys) then []
                        else [jeq (word_of_int nr) 0 1, ret SECCOMP_RET_ALLOW]) (PROXY_ALLOWLIST sys))
     @ [ret SECCOMP_RET_KILL_PROCESS]"

definition confine_proxy :: "(string \<Rightarrow> int) \<Rightarrow> bool \<Rightarrow> sec_answers \<Rightarrow> process \<Rightarrow> (seccomp_error, process) eff" where
  "confine_proxy sys x86 an pr =
     (if \<not> x86 then (Some UnsupportedArch, pr)
      else unit_result (attach an (proxy_program sys) SECCOMP_FILTER_FLAG_TSYNC pr))"

section \<open>Widening a zone's allowlist\<close>

definition CAP_CALLS :: "(int \<times> string list) list" where
  "CAP_CALLS = [
     (CAP_SETUID, [''setuid'', ''capset'']),
     (CAP_SETGID, [''setgid'', ''setgroups'']),
     (CAP_SYS_CHROOT, [''chroot''])]"

definition push_new :: "int list \<Rightarrow> int \<Rightarrow> int list" where
  "push_new allow nr = (if nr \<in> set allow then allow else allow @ [nr])"

fun widen :: "(string \<Rightarrow> int) \<Rightarrow> int list \<Rightarrow> int list \<Rightarrow> seccomp_error + int list" where
  "widen sys [] allow = Inr allow"
| "widen sys (nr # extra) allow =
     (if is_denied sys nr then Inl (Denied nr) else widen sys extra (push_new allow nr))"

definition widened :: "(string \<Rightarrow> int) \<Rightarrow> int list \<Rightarrow> seccomp_error + int list" where
  "widened sys extra = widen sys extra (BASE_ALLOWLIST sys)"

definition widened_for :: "(string \<Rightarrow> int) \<Rightarrow> int list \<Rightarrow> int list \<Rightarrow> seccomp_error + int list" where
  "widened_for sys extra kept_caps =
     bind_res (widened sys extra) (\<lambda>allow.
       Inr (foldl (\<lambda>allow (c, calls). if c \<in> set kept_caps then foldl push_new allow (map sys calls) else allow) allow CAP_CALLS))"

definition confine_zone :: "(string \<Rightarrow> int) \<Rightarrow> bool \<Rightarrow> sec_answers \<Rightarrow> process \<Rightarrow> (seccomp_error, process) eff" where
  "confine_zone sys x86 an pr = install sys x86 an (BASE_ALLOWLIST sys) pr"

definition confine_zone_with ::
  "(string \<Rightarrow> int) \<Rightarrow> bool \<Rightarrow> sec_answers \<Rightarrow> int list \<Rightarrow> socket_policy \<Rightarrow> int list \<Rightarrow> process \<Rightarrow> (seccomp_error, process) eff" where
  "confine_zone_with sys x86 an extra sockets kept_caps pr = (case widened_for sys extra kept_caps of
       Inl e \<Rightarrow> (Some e, pr)
     | Inr allow \<Rightarrow> unit_result (install_with sys x86 an allow SECCOMP_RET_KILL_PROCESS sockets SECCOMP_FILTER_FLAG_TSYNC pr))"

end
