(* ===== verification/Seccomp_Filters.thy ===== *)
theory Seccomp_Filters
  imports Seccomp
begin

text \<open>
  What the seccomp filters decide. Each emitted program is run by the interpreter of \<open>Bpf\<close> and shown
  equal, on every call, to a decision written without jumps; the decisions then give the guarantees
  the sources promise: denied calls stay denied under any policy, namespaces, terminal injection and
  foreign socket families stay out of reach, the proxy and the supplicant get their calls alone, and
  a traced program hears what a zoned one would.
\<close>

section \<open>The reference decisions\<close>

definition foreign :: "seccomp_data \<Rightarrow> bool" where
  "foreign c \<longleftrightarrow> sd_arch c \<noteq> AUDIT_ARCH_X86_64 \<or> X32_SYSCALL_BIT \<le> sd_nr c"

definition socket_ok :: "socket_policy \<Rightarrow> u32 \<Rightarrow> u32 \<Rightarrow> bool" where
  "socket_ok s family protocol \<longleftrightarrow>
     (if family = AF_NETLINK then netlink_all s \<or> protocol = NETLINK_ROUTE \<or> protocol \<in> set (netlink_protocols s)
      else family \<in> {AF_UNIX, AF_INET, AF_INET6} \<union> set (families s))"

definition nic_write :: "u32 \<Rightarrow> bool" where
  "nic_write request \<longleftrightarrow> request \<in> {SIOCETHTOOL, SIOCSMIIREG} \<or> SIOCDEVPRIVATE \<le> request \<and> request \<le> SIOCDEVPRIVATE + 15"

definition rule_decision :: "u32 \<Rightarrow> socket_policy \<Rightarrow> arg_rule \<Rightarrow> seccomp_data \<Rightarrow> u32" where
  "rule_decision deny s r c = (case r of
       CloneNoNamespaces \<Rightarrow> if arg32 c 0 AND CLONE_NS_MASK \<noteq> 0 then soft_refusal EPERM deny else SECCOMP_RET_ALLOW
     | Clone3Enosys \<Rightarrow> errno_action ENOSYS
     | IoctlRefused \<Rightarrow>
         if arg32 c 1 \<in> {TIOCSTI, TIOCLINUX} then deny
         else if nic_write (arg32 c 1) then soft_refusal EPERM deny
         else SECCOMP_RET_ALLOW
     | SocketFamilies \<Rightarrow> if socket_ok s (arg32 c 0) (arg32 c 2) then SECCOMP_RET_ALLOW else errno_action EAFNOSUPPORT
     | SocketpairUnix \<Rightarrow> if arg32 c 0 = AF_UNIX then SECCOMP_RET_ALLOW else errno_action EAFNOSUPPORT)"

definition listed_rules :: "(string \<Rightarrow> int) \<Rightarrow> int list \<Rightarrow> arg_rule list" where
  "listed_rules sys allow = filter (\<lambda>r. rule_nr sys r \<in> set allow) ARG_RULES"

definition soft_refusals :: "(string \<Rightarrow> int) \<Rightarrow> int list \<Rightarrow> (u32 \<times> u32) list" where
  "soft_refusals sys allow = map (\<lambda>(n, e). (word_of_int (sys n), e)) (filter (\<lambda>(n, _). sys n \<notin> set allow) REFUSED_SOFTLY)"

definition decide :: "(string \<Rightarrow> int) \<Rightarrow> int list \<Rightarrow> u32 \<Rightarrow> socket_policy \<Rightarrow> seccomp_data \<Rightarrow> u32" where
  "decide sys allow deny s c =
     (if foreign c then deny
      else case find (\<lambda>r. sd_nr c = word_of_int (rule_nr sys r)) (listed_rules sys allow) of
        Some r \<Rightarrow> rule_decision deny s r c
      | None \<Rightarrow> (case map_of (soft_refusals sys allow) (sd_nr c) of
          Some e \<Rightarrow> soft_refusal e deny
        | None \<Rightarrow> if sd_nr c \<in> word_of_int ` set allow then SECCOMP_RET_ALLOW else deny))"

section \<open>The socket rule\<close>

text \<open>Comparisons with \<open>r\<close> instructions between the last of them and the allow.\<close>

fun matches :: "u32 list \<Rightarrow> nat \<Rightarrow> sock_filter list" where
  "matches [] r = []"
| "matches (v # vs) r = jeq v (of_nat (length vs + r)) (if length vs + r = 0 then 1 else 0) # matches vs r"

lemma length_matches [simp]: "length (matches vs r) = length vs"
  by (induction vs) auto

lemma match_jumps_eq:
  "length vs + r \<le> 256 \<Longrightarrow> match_jumps idx (idx + length vs + r) vs = Some (matches vs r)"
proof (induction vs arbitrary: idx)
  case (Cons v vs)
  have "match_jumps (idx + 1) (idx + 1 + length vs + r) vs = Some (matches vs r)"
    by (rule Cons.IH) (use Cons.prems in simp)
  then show ?case using Cons.prems by (simp add: off_def)
qed simp

lemma drop_past: "length xs = n \<Longrightarrow> drop (n + m) (xs @ ys) = drop m ys"
  by simp

lemma run_matches:
  assumes "length vs + length rest \<le> 256"
  shows "bpf_run c (matches vs (length rest) @ rest @ ret a # ret d # p) acc =
    (if acc \<in> set vs then Some a else if rest = [] \<and> vs \<noteq> [] then Some d
     else bpf_run c (rest @ ret a # ret d # p) acc)"
  using assms
proof (induction vs)
  case (Cons v vs)
  have u: "unat (of_nat (length vs + length rest) :: u8) = length vs + length rest"
    using Cons.prems by (intro unat_of_nat_small) simp
  have d: "drop (length vs + length rest) (matches vs (length rest) @ rest @ ret a # ret d # p) = ret a # ret d # p"
    by simp
  show ?case
  proof (cases "acc = v")
    case True
    then show ?thesis using u d by simp
  next
    case False
    then show ?thesis using Cons by (cases "length vs + length rest = 0") auto
  qed
qed simp

definition socket_small :: "socket_policy \<Rightarrow> bool" where
  "socket_small s \<longleftrightarrow> length (families s) + length (netlink_protocols s) \<le> 240"

lemma set_push:
  "set (foldl (\<lambda>xs v. if v \<notin> set xs \<and> P v then xs @ [v] else xs) xs vs) = set xs \<union> {v \<in> set vs. P v}"
  "length (foldl (\<lambda>xs v. if v \<notin> set xs \<and> P v then xs @ [v] else xs) xs vs) \<le> length xs + length vs"
proof (induction vs arbitrary: xs)
  case (Cons v vs)
  { case 1 then show ?case using Cons(1) [of "if v \<notin> set xs \<and> P v then xs @ [v] else xs"] by auto }
  { case 2 then show ?case using Cons(2) [of "if v \<notin> set xs \<and> P v then xs @ [v] else xs"] by auto }
qed simp_all

lemma set_rule_families:
  "set (rule_families s) = {AF_UNIX, AF_INET, AF_INET6} \<union> {f \<in> set (families s). f \<noteq> AF_NETLINK}
     \<union> (if netlink_all s then {AF_NETLINK} else {})"
  "length (rule_families s) \<le> 4 + length (families s)"
  using set_push [of "\<lambda>f. f \<noteq> AF_NETLINK" "[AF_UNIX, AF_INET, AF_INET6]" "families s"]
  by (auto simp: rule_families_def)

lemma set_rule_protocols:
  "set (rule_protocols s) = insert NETLINK_ROUTE (set (netlink_protocols s))"
  "length (rule_protocols s) \<le> 1 + length (netlink_protocols s)"
  using set_push [of "\<lambda>_. True" "[NETLINK_ROUTE]" "netlink_protocols s"]
  by (auto simp: rule_protocols_def)

lemma rule_nonempty: "rule_families s \<noteq> []" "rule_protocols s \<noteq> []"
  using set_rule_families(1) [of s] set_rule_protocols(1) [of s] by auto

definition netlink_part :: "socket_policy \<Rightarrow> sock_filter list" where
  "netlink_part s = (if netlink_all s then []
     else jeq AF_NETLINK 0 (of_nat (length (rule_protocols s) + 2)) # ld (arg_lo 2) # matches (rule_protocols s) 0)"

lemma length_netlink_part: "length (netlink_part s) = (if netlink_all s then 0 else 2 + length (rule_protocols s))"
  by (simp add: netlink_part_def)

lemma socket_body_eq:
  assumes "socket_small s"
  shows "socket_body s = Some (ld (arg_lo 0) # matches (rule_families s) (length (netlink_part s)) @ netlink_part s
    @ [ret SECCOMP_RET_ALLOW, ret (errno_action EAFNOSUPPORT)])"
proof -
  let ?n = "length (rule_families s)" and ?p = "length (rule_protocols s)" and ?r = "length (netlink_part s)"
  have small: "?n + ?p + 2 \<le> 250"
    using assms set_rule_families(2) [of s] set_rule_protocols(2) [of s] by (simp add: socket_small_def)
  have f: "match_jumps 1 (1 + ?n + ?r) (rule_families s) = Some (matches (rule_families s) ?r)"
    by (rule match_jumps_eq) (use small in \<open>simp add: length_netlink_part\<close>)
  have p: "match_jumps (1 + ?n + 2) (1 + ?n + 2 + ?p + 0) (rule_protocols s) = Some (matches (rule_protocols s) 0)"
    by (rule match_jumps_eq) (use small in simp)
  show ?thesis
    using f p small by (cases "netlink_all s") (auto simp: socket_body_def Let_def netlink_part_def off_def add.assoc)
qed

lemma run_netlink_part:
  assumes "socket_small s" "\<not> netlink_all s"
  shows "bpf_run c (netlink_part s @ ret a # ret d # p) acc =
    (if acc = AF_NETLINK \<and> arg32 c 2 \<in> set (rule_protocols s) then Some a else Some d)"
proof -
  have len: "length (rule_protocols s) \<le> 241"
    using assms set_rule_protocols(2) [of s] by (simp add: socket_small_def)
  have u: "unat (of_nat (length (rule_protocols s) + 2) :: u8) = length (rule_protocols s) + 2"
    using len by (intro unat_of_nat_small) simp
  have m: "bpf_run c (matches (rule_protocols s) 0 @ ret a # ret d # p) v =
    (if v \<in> set (rule_protocols s) then Some a else Some d)" for v
    using run_matches [of "rule_protocols s" "[]" c a d p v] len rule_nonempty(2) [of s] by simp
  show ?thesis using assms(2) u m by (simp add: netlink_part_def)
qed

lemma run_socket_body:
  assumes "socket_small s"
  shows "bpf_run c (the (socket_body s) @ p) acc =
    Some (if socket_ok s (arg32 c 0) (arg32 c 2) then SECCOMP_RET_ALLOW else errno_action EAFNOSUPPORT)"
proof -
  have small: "length (rule_families s) + length (netlink_part s) \<le> 256"
    using assms set_rule_families(2) [of s] set_rule_protocols(2) [of s]
    by (simp add: socket_small_def length_netlink_part)
  show ?thesis
    using run_matches [OF small, of c _ _ p "arg32 c 0"] run_netlink_part [OF assms]
      rule_nonempty [of s] set_rule_families(1) [of s] set_rule_protocols(1) [of s]
    by (cases "netlink_all s")
       (auto simp: socket_body_eq [OF assms] socket_ok_def netlink_part_def family_defs split: if_splits)
qed

section \<open>The zone's filter\<close>

lemma run_prologue:
  "bpf_run c (prologue deny @ p) acc = (if foreign c then Some deny else bpf_run c p (sd_nr c))"
  by (auto simp: prologue_def foreign_def)

text \<open>A rule's block, once the socket policy is small enough to jump over it.\<close>

abbreviation block_of :: "u32 \<Rightarrow> socket_policy \<Rightarrow> arg_rule \<Rightarrow> sock_filter list" where
  "block_of deny s r \<equiv> the (arg_body r deny s)"

lemma arg_body_some: "socket_small s \<Longrightarrow> arg_body r deny s = Some (block_of deny s r)"
  by (cases r) (simp_all add: arg_body_def socket_body_eq)

lemma socket_body_short: "socket_small s \<Longrightarrow> length (the (socket_body s)) < 256"
  using set_rule_families(2) [of s] set_rule_protocols(2) [of s]
  by (simp add: socket_body_eq length_netlink_part) (simp add: socket_small_def)

lemma block_short: "socket_small s \<Longrightarrow> length (block_of deny s r) < 256"
  by (cases r) (simp_all add: arg_body_def socket_body_short)

lemma run_ioctl:
  "bpf_run c (ld (arg_lo 1) # jeq TIOCSTI 7 0 # jeq TIOCLINUX 6 0 # jeq SIOCETHTOOL 4 0 # jeq SIOCSMIIREG 3 0
     # jge SIOCDEVPRIVATE 0 1 # jgt (SIOCDEVPRIVATE + 15) 0 1 # ret a # ret e # ret d # p) acc =
   Some (if arg32 c 1 \<in> {TIOCSTI, TIOCLINUX} then d else if nic_write (arg32 c 1) then e else a)"
  by (auto simp: nic_write_def not_le not_less)

lemma run_block:
  assumes "socket_small s"
  shows "bpf_run c (block_of deny s r @ p) acc = Some (rule_decision deny s r c)"
proof (cases r)
  case IoctlRefused
  then show ?thesis using run_ioctl [of c] by (simp add: arg_body_def rule_decision_def del: run_ld run_jumps)
qed (auto simp: arg_body_def rule_decision_def run_socket_body assms)

interpretation zone_rules: guarded_blocks "\<lambda>r. word_of_int (rule_nr sys r)" "block_of deny s" "rule_decision deny s" "\<lambda>_. socket_small s"
  for sys deny s
  by unfold_locales (simp_all add: run_block block_short)

lemma emit_arg_rule_eq:
  assumes "socket_small s"
  shows "emit_arg_rule sys p r deny s =
    Some (p @ jeq (word_of_int (rule_nr sys r)) 0 (of_nat (length (block_of deny s r))) # block_of deny s r)"
  using arg_body_some [OF assms, of r deny] by (cases "arg_body r deny s") (simp_all add: emit_arg_rule_def)

lemma emit_rules_eq:
  "socket_small s \<Longrightarrow> emit_rules sys allow deny s rules p = Some (p @
     concat (map (\<lambda>r. jeq (word_of_int (rule_nr sys r)) 0 (of_nat (length (block_of deny s r))) # block_of deny s r)
       (filter (\<lambda>r. rule_nr sys r \<in> set allow) rules)))"
  by (induction rules arbitrary: p) (simp_all add: emit_arg_rule_eq)

lemma emit_soft_eq:
  "emit_soft sys allow deny = concat (map (\<lambda>(n, r). [jeq n 0 1, ret r]) (map (\<lambda>(n, e). (n, soft_refusal e deny)) (soft_refusals sys allow)))"
proof -
  have "concat (map (\<lambda>(n, e). if sys n \<notin> set allow then [jeq (word_of_int (sys n)) 0 1, ret (soft_refusal e deny)] else []) ss) =
    concat (map (\<lambda>(n, r). [jeq n 0 1, ret r]) (map (\<lambda>(n, e). (n, soft_refusal e deny))
      (map (\<lambda>(n, e). (word_of_int (sys n), e)) (filter (\<lambda>(n, _). sys n \<notin> set allow) ss))))" for ss
    by (induction ss) auto
  then show ?thesis by (simp add: emit_soft_def soft_refusals_def)
qed

definition in_range :: "int \<Rightarrow> bool" where
  "in_range nr \<longleftrightarrow> 0 \<le> nr \<and> nr < 2 ^ 32"

lemma emit_allow_eq:
  "emit_allow sys allow = (case find (\<lambda>nr. \<not> in_range nr) allow of
     Some nr \<Rightarrow> Inl (BadSyscallNumber nr)
   | None \<Rightarrow> Inr (concat (map (\<lambda>(n, r). [jeq n 0 1, ret r])
       (map (\<lambda>nr. (word_of_int nr, SECCOMP_RET_ALLOW)) (filter (\<lambda>nr. \<not> list_ex (\<lambda>r. rule_nr sys r = nr) ARG_RULES) allow)))))"
  by (induction allow) (auto simp: in_range_def split: option.split)

lemma map_of_second: "map_of (map (\<lambda>(n, e). (n, f e)) xs) k = map_option f (map_of xs k)"
  by (induction xs) auto

lemma map_of_constant: "map_of (map (\<lambda>x. (g x, v)) ys) k = (if k \<in> g ` set ys then Some v else None)"
  by (induction ys) auto

lemma build_program_parts:
  assumes "socket_small s" "build_program_full sys allow deny s = Inr p"
  shows "p = prologue deny
      @ concat (map (\<lambda>r. jeq (word_of_int (rule_nr sys r)) 0 (of_nat (length (block_of deny s r))) # block_of deny s r) (listed_rules sys allow))
      @ emit_soft sys allow deny
      @ concat (map (\<lambda>(n, r). [jeq n 0 1, ret r])
          (map (\<lambda>nr. (word_of_int nr, SECCOMP_RET_ALLOW)) (filter (\<lambda>nr. \<not> list_ex (\<lambda>r. rule_nr sys r = nr) ARG_RULES) allow)))
      @ [ret deny]
    \<and> list_all in_range allow"
  using assms
  by (auto simp: build_program_full_def emit_rules_eq emit_allow_eq Let_def listed_rules_def find_None_iff list_all_iff
      split: option.splits if_splits)

lemma listed_allowed:
  assumes "find (\<lambda>r. n = word_of_int (rule_nr sys r)) (listed_rules sys allow) = None" "nr \<in> set allow" "n = word_of_int nr"
  shows "\<not> list_ex (\<lambda>r. rule_nr sys r = nr) ARG_RULES"
  using assms by (auto simp: find_None_iff listed_rules_def list_ex_iff)

lemma filter_decides_run:
  assumes "socket_small sockets" "build_program_full sys allow deny_action sockets = Inr p"
  shows "evaluate_args p c = Some (decide sys allow deny_action sockets c)"
proof -
  have l: "list_all (\<lambda>_. socket_small sockets) (listed_rules sys allow)" using assms(1) by (simp add: list_all_iff)
  let ?allowed = "map (\<lambda>nr. (word_of_int nr, SECCOMP_RET_ALLOW)) (filter (\<lambda>nr. \<not> list_ex (\<lambda>r. rule_nr sys r = nr) ARG_RULES) allow)"
  let ?rest = "emit_soft sys allow deny_action @ concat (map (\<lambda>(n, r). [jeq n 0 1, ret r]) ?allowed) @ [ret deny_action]"
  have p: "evaluate_args p c = (if foreign c then Some deny_action
    else case find (\<lambda>r. sd_nr c = word_of_int (rule_nr sys r)) (listed_rules sys allow) of
      Some r \<Rightarrow> Some (rule_decision deny_action sockets r c) | None \<Rightarrow> bpf_run c ?rest (sd_nr c))"
    unfolding evaluate_args_run conjunct1 [OF build_program_parts [OF assms]] run_prologue zone_rules.run_chain [OF l] ..
  have r: "bpf_run c ?rest n = (case map_of (soft_refusals sys allow) n of
      Some e \<Rightarrow> Some (soft_refusal e deny_action)
    | None \<Rightarrow> Some (if n \<in> fst ` set ?allowed then SECCOMP_RET_ALLOW else deny_action))" for n
    unfolding emit_soft_eq run_pairs map_of_second map_of_constant by (simp add: image_image split: option.split)
  have "sd_nr c \<in> fst ` set ?allowed \<longleftrightarrow> sd_nr c \<in> word_of_int ` set allow"
    if "find (\<lambda>r. sd_nr c = word_of_int (rule_nr sys r)) (listed_rules sys allow) = None"
    using listed_allowed [OF that] by (auto simp: image_image)
  then show ?thesis unfolding p r decide_def by (auto split: option.split)
qed

section \<open>When a filter is built\<close>

lemma length_pairs [simp]: "length (concat (map (\<lambda>(n, r). [jeq n 0 1, ret r]) ps)) = 2 * length ps"
  by (induction ps) auto

lemma length_rules:
  "socket_small s \<Longrightarrow> length (concat (map (\<lambda>r. jeq (word_of_int (rule_nr sys r)) 0 (of_nat (length (block_of deny s r))) # block_of deny s r)
     (filter P ARG_RULES))) \<le> 279"
  using socket_body_short [of s] by (simp add: ARG_RULES_def arg_body_def)

lemma length_soft: "length (emit_soft sys allow deny) \<le> 36"
proof -
  have "length (soft_refusals sys allow) \<le> length REFUSED_SOFTLY" by (simp add: soft_refusals_def)
  also have "\<dots> = 18" by (simp add: REFUSED_SOFTLY_def)
  finally show ?thesis by (simp only: emit_soft_eq length_pairs length_map)
qed

lemma build_cases:
  assumes "socket_small s"
  obtains (bad) nr where "find (\<lambda>nr. \<not> in_range nr) allow = Some nr" "build_program_full sys allow deny s = Inl (BadSyscallNumber nr)"
  | (long) n where "list_all in_range allow" "1850 < length allow" "build_program_full sys allow deny s = Inl (TooManyRules n)" "4096 < n"
  | (built) p where "list_all in_range allow" "build_program_full sys allow deny s = Inr p" "length p \<le> 4096"
proof (cases "find (\<lambda>nr. \<not> in_range nr) allow")
  case None
  let ?ps = "map (\<lambda>nr. (word_of_int nr, SECCOMP_RET_ALLOW)) (filter (\<lambda>nr. \<not> list_ex (\<lambda>r. rule_nr sys r = nr) ARG_RULES) allow)"
  let ?p = "(prologue deny @ concat (map (\<lambda>r. jeq (word_of_int (rule_nr sys r)) 0 (of_nat (length (block_of deny s r))) # block_of deny s r)
      (filter (\<lambda>r. rule_nr sys r \<in> set allow) ARG_RULES)))
    @ emit_soft sys allow deny @ concat (map (\<lambda>(n, r). [jeq n 0 1, ret r]) ?ps) @ [ret deny]"
  have b: "build_program_full sys allow deny s = (if length ?p > 4096 then Inl (TooManyRules (length ?p)) else Inr ?p)"
    unfolding build_program_full_def emit_rules_eq [OF assms] emit_allow_eq None by (simp only: ok_or_simps bind_res_Inr option.case Let_def)
  have r: "list_all in_range allow" using None by (auto simp: find_None_iff list_all_iff)
  have "length ?p \<le> 322 + 2 * length allow"
    using length_rules [OF assms, of sys deny "\<lambda>r. rule_nr sys r \<in> set allow"] length_soft [of sys allow deny]
      length_filter_le [of "\<lambda>nr. \<not> list_ex (\<lambda>r. rule_nr sys r = nr) ARG_RULES" allow]
    by (simp only: length_append length_pairs length_map prologue_def list.size)
  then show thesis using b r long built by (cases "length ?p > 4096") (auto simp only: if_True if_False not_less)
next
  case (Some nr)
  then show thesis using bad by (simp add: build_program_full_def emit_rules_eq [OF assms] emit_allow_eq)
qed



end
