(* ===== verification/Seccomp_Safety.thy ===== *)
theory Seccomp_Safety
  imports Seccomp_Filters
begin

text \<open>
  What a confined process can do, whatever its policy adds (\<open>compartments/kryptikd/src/seccomp.rs\<close>): the
  calls of the denied list stay refused but for the ones a kept capability opens, the argument rules
  hold, the proxy and the supplicant get no more than their own filters name, and a traced run hears
  what a zone hears. The decisions come from \<open>Seccomp_Filters\<close>; what is added is that the lists of names
  do not meet, which the numbering carries over to numbers.
\<close>

section \<open>Numbers of different names\<close>

lemma word_of_int_inj:
  "in_range a \<Longrightarrow> in_range b \<Longrightarrow> (word_of_int a :: u32) = word_of_int b \<longleftrightarrow> a = b"
  by (simp add: in_range_def word_of_int_eq_iff take_bit_int_eq_self)

lemma sys_inj: "sys_ok sys \<Longrightarrow> n \<in> set SYS_NAMES \<Longrightarrow> m \<in> set SYS_NAMES \<Longrightarrow> sys n = sys m \<longleftrightarrow> n = m"
  by (auto simp: sys_ok_def distinct_map inj_on_eq_iff)

lemma sys_range:
  assumes "sys_ok sys" "n \<in> set SYS_NAMES"
  shows "in_range (sys n)" "sys n < 2 ^ 30" "sys n \<noteq> SYS_MAP_SHADOW_STACK"
  using assms by (auto simp: sys_ok_def list_all_iff in_range_def)

lemma sys_word: "sys_ok sys \<Longrightarrow> n \<in> set SYS_NAMES \<Longrightarrow> in_range a \<Longrightarrow> (word_of_int (sys n) :: u32) = word_of_int a \<longleftrightarrow> sys n = a"
  by (rule word_of_int_inj) (rule sys_range(1))

lemma sys_word_names:
  assumes "sys_ok sys" "n \<in> set SYS_NAMES" "m \<in> set SYS_NAMES"
  shows "(word_of_int (sys n) :: u32) = word_of_int (sys m) \<longleftrightarrow> n = m"
  using sys_word [OF assms(1,2) sys_range(1) [OF assms(1,3)]] sys_inj [OF assms] by (rule trans)

lemma lists_apart:
  "n \<in> set DENIED_SYS \<Longrightarrow> n \<notin> set BASE_SYS \<and> n \<notin> set ADDABLE_SYS" "n \<in> set ADDABLE_SYS \<Longrightarrow> n \<notin> set BASE_SYS"
  using SYS_NAMES_distinct unfolding SYS_NAMES_def distinct_append set_append by blast+

lemma in_SYS_NAMES:
  "n \<in> set DENIED_SYS \<Longrightarrow> n \<in> set SYS_NAMES" "n \<in> set BASE_SYS \<Longrightarrow> n \<in> set SYS_NAMES"
  "n \<in> set ADDABLE_SYS \<Longrightarrow> n \<in> set SYS_NAMES"
  unfolding SYS_NAMES_def set_append by blast+

fun rule_name :: "arg_rule \<Rightarrow> string" where
  "rule_name CloneNoNamespaces = ''clone''"
| "rule_name Clone3Enosys = ''clone3''"
| "rule_name IoctlRefused = ''ioctl''"
| "rule_name SocketFamilies = ''socket''"
| "rule_name SocketpairUnix = ''socketpair''"

lemma rule_nr_name: "rule_nr sys r = sys (rule_name r)"
  by (cases r) (simp_all add: rule_nr_def)

lemma rule_name_base: "rule_name r \<in> set BASE_SYS"
proof -
  have "list_all (\<lambda>r. rule_name r \<in> set BASE_SYS) ARG_RULES" by (simp add: ARG_RULES_def BASE_SYS_def)
  then show ?thesis by (cases r) (simp_all add: ARG_RULES_def)
qed

lemma rule_name_inj: "rule_name r = rule_name q \<longleftrightarrow> r = q"
  by (cases r; cases q) simp_all

lemma cap_calls_denied: "(c, calls) \<in> set CAP_CALLS \<Longrightarrow> n \<in> set calls \<Longrightarrow> n \<in> set DENIED_SYS"
proof -
  have "list_all (\<lambda>(c, calls). list_all (\<lambda>n. n \<in> set DENIED_SYS) calls) CAP_CALLS"
    by (simp add: CAP_CALLS_def DENIED_RATIONALE_def)
  then show "(c, calls) \<in> set CAP_CALLS \<Longrightarrow> n \<in> set calls \<Longrightarrow> n \<in> set DENIED_SYS" by (auto simp: list_all_iff)
qed

lemma soft_names: "(n, e) \<in> set REFUSED_SOFTLY \<Longrightarrow> n \<in> set DENIED_SYS \<union> set ADDABLE_SYS"
proof -
  have "list_all (\<lambda>(n, _). n \<in> set DENIED_SYS \<union> set ADDABLE_SYS) REFUSED_SOFTLY"
    by (simp add: REFUSED_SOFTLY_def DENIED_RATIONALE_def ADDABLE_SYS_def)
  then show "(n, e) \<in> set REFUSED_SOFTLY \<Longrightarrow> n \<in> set DENIED_SYS \<union> set ADDABLE_SYS" by (auto simp: list_all_iff)
qed

section \<open>What an allowlist holds\<close>

lemma set_push_new [simp]: "set (push_new allow nr) = insert nr (set allow)"
  by (auto simp: push_new_def)

lemma set_foldl_push: "set (foldl push_new allow nrs) = set allow \<union> set nrs"
  by (induction nrs arbitrary: allow) auto

lemma widen_ok:
  "widen sys extra allow = Inr allow' \<Longrightarrow> set allow' = set allow \<union> set extra \<and> list_all (\<lambda>nr. \<not> is_denied sys nr) extra"
  by (induction sys extra allow rule: widen.induct) (auto split: if_splits)

definition opened :: "int list \<Rightarrow> string set" where
  "opened kept_caps = (\<Union>(c, calls) \<in> set CAP_CALLS. if c \<in> set kept_caps then set calls else {})"

lemma opened_fold:
  "set (foldl (\<lambda>allow (c, calls). if c \<in> set kept then foldl push_new allow (map sys calls) else allow) allow cs) =
    set allow \<union> sys ` (\<Union>(c, calls) \<in> set cs. if c \<in> set kept then set calls else {})"
  by (induction cs arbitrary: allow) (simp_all add: set_foldl_push case_prod_beta image_Un Un_assoc)

lemma widened_for_ok:
  assumes "widened_for sys extra kept = Inr allow"
  shows "set allow = set (BASE_ALLOWLIST sys) \<union> set extra \<union> sys ` opened kept"
    and "list_all (\<lambda>nr. \<not> is_denied sys nr) extra"
proof -
  obtain a where a: "widened sys extra = Inr a"
    "allow = foldl (\<lambda>allow (c, calls). if c \<in> set kept then foldl push_new allow (map sys calls) else allow) a CAP_CALLS"
    using assms by (auto simp: widened_for_def bind_res_eq_Inr)
  show "set allow = set (BASE_ALLOWLIST sys) \<union> set extra \<union> sys ` opened kept"
    using widen_ok [OF a(1) [unfolded widened_def]] unfolding a(2) opened_fold opened_def by blast
  show "list_all (\<lambda>nr. \<not> is_denied sys nr) extra" using widen_ok [OF a(1) [unfolded widened_def]] by blast
qed

lemma denied_not_listed:
  assumes "sys_ok sys" "widened_for sys extra kept = Inr allow" "n \<in> set DENIED_SYS" "n \<notin> opened kept"
  shows "sys n \<notin> set allow"
proof
  assume "sys n \<in> set allow"
  then consider m where "m \<in> set BASE_SYS" "sys n = sys m" | "sys n = SYS_MAP_SHADOW_STACK" | "sys n \<in> set extra"
    | m where "m \<in> opened kept" "sys n = sys m"
    using widened_for_ok(1) [OF assms(2)] by (auto simp: BASE_ALLOWLIST_def)
  then show False
  proof cases
    case 1
    then have "n = m" using sys_inj [OF assms(1)] in_SYS_NAMES assms(3) by blast
    then show False using lists_apart(1) [OF assms(3)] 1 by blast
  next
    case 2
    then show False using sys_range(3) [OF assms(1) in_SYS_NAMES(1) [OF assms(3)]] by blast
  next
    case 3
    moreover have "is_denied sys (sys n)" using assms(3) by (auto simp: is_denied_def list_ex_iff)
    ultimately show False using widened_for_ok(2) [OF assms(2)] by (auto simp: list_all_iff)
  next
    case 4
    then have "m \<in> set DENIED_SYS" using cap_calls_denied by (auto simp: opened_def split: if_splits)
    then have "n = m" using sys_inj [OF assms(1)] in_SYS_NAMES(1) assms(3) 4(2) by blast
    then show False using 4(1) assms(4) by blast
  qed
qed

section \<open>A confined zone\<close>

lemma confine_attached:
  assumes "confine_zone_with sys x86 an extra sockets kept pr = (None, pr')"
  obtains allow p where "widened_for sys extra kept = Inr allow"
    "build_program_full sys allow SECCOMP_RET_KILL_PROCESS sockets = Inr p"
    "pr' = pr\<lparr>no_new_privs := True, filters := p # filters pr\<rparr>"
proof -
  obtain allow where a: "widened_for sys extra kept = Inr allow"
    using assms by (auto simp: confine_zone_with_def split: sum.splits)
  obtain p where p: "build_program_full sys allow SECCOMP_RET_KILL_PROCESS sockets = Inr p"
    using assms a by (auto simp: confine_zone_with_def install_with_def unit_result_def split: sum.splits if_splits)
  have "pr' = pr\<lparr>no_new_privs := True, filters := p # filters pr\<rparr>"
    using assms a p
    by (auto simp: confine_zone_with_def install_with_def unit_result_def attach_def Let_def split: sum.splits if_splits option.splits)
  with a p show thesis by (rule that)
qed

lemma errno_not_allow: "errno_action e \<noteq> SECCOMP_RET_ALLOW"
proof
  assume "errno_action e = SECCOMP_RET_ALLOW"
  then have "bit (errno_action e) 30 = bit SECCOMP_RET_ALLOW 30" by simp
  then show False by (simp add: errno_action_def action_defs bit_simps)
qed

lemma soft_not_allow: "soft_refusal e SECCOMP_RET_KILL_PROCESS = errno_action e"
  by (simp add: soft_refusal_def action_defs)

lemma kill_not_allow: "SECCOMP_RET_KILL_PROCESS \<noteq> SECCOMP_RET_ALLOW"
  by (simp add: action_defs)

lemma find_itself: "r \<in> set rs \<Longrightarrow> find (\<lambda>q. q = r) rs = Some r"
  by (induction rs) auto

lemma find_rule:
  assumes "sys_ok sys" "rule_nr sys r \<in> set allow" "sd_nr c = word_of_int (rule_nr sys r)"
  shows "find (\<lambda>r. sd_nr c = word_of_int (rule_nr sys r)) (listed_rules sys allow) = Some r"
proof -
  have e: "(sd_nr c = word_of_int (rule_nr sys q)) = (q = r)" for q
    using sys_word_names [OF assms(1) in_SYS_NAMES(2) in_SYS_NAMES(2), OF rule_name_base rule_name_base, of r q]
    by (simp add: assms(3) rule_nr_name rule_name_inj) blast
  have "r \<in> set (listed_rules sys allow)" using assms(2) by (cases r) (simp_all add: listed_rules_def ARG_RULES_def)
  then have "find (\<lambda>q. q = r) (listed_rules sys allow) = Some r" by (rule find_itself)
  then show ?thesis by (simp only: e)
qed

lemma decide_denied:
  assumes "sys_ok sys" "widened_for sys extra kept = Inr allow" "list_all in_range allow"
    "n \<in> set DENIED_SYS" "n \<notin> opened kept" "sd_nr c = word_of_int (sys n)"
  shows "decide sys allow SECCOMP_RET_KILL_PROCESS s c \<noteq> SECCOMP_RET_ALLOW"
proof -
  have "sd_nr c \<noteq> word_of_int (rule_nr sys r)" for r
    using sys_word_names [OF assms(1) in_SYS_NAMES(1) [OF assms(4)] in_SYS_NAMES(2) [OF rule_name_base]]
      lists_apart(1) [OF assms(4)] rule_name_base [of r]
    by (auto simp: assms(6) rule_nr_name)
  then have f: "find (\<lambda>r. sd_nr c = word_of_int (rule_nr sys r)) (listed_rules sys allow) = None"
    by (simp add: find_None_iff)
  have "sd_nr c \<notin> word_of_int ` set allow"
    using denied_not_listed [OF assms(1,2,4,5)] sys_word [OF assms(1) in_SYS_NAMES(1) [OF assms(4)]] assms(3)
    by (auto simp: assms(6) list_all_iff)
  then show ?thesis
    unfolding decide_def f by (auto simp: soft_not_allow errno_not_allow kill_not_allow split: option.split)
qed

lemma denied_refused:
  assumes "sys_ok sys" "confine_zone_with sys x86 an extra sockets kept pr = (None, pr')" "socket_small sockets"
    and "n \<in> set DENIED_SYS" "n \<notin> opened kept" "sd_nr c = word_of_int (sys n)"
  shows "\<exists>p a. filters pr' = p # filters pr \<and> evaluate_args p c = Some a \<and> a \<noteq> SECCOMP_RET_ALLOW"
proof -
  obtain allow p where p: "widened_for sys extra kept = Inr allow"
    "build_program_full sys allow SECCOMP_RET_KILL_PROCESS sockets = Inr p"
    "pr' = pr\<lparr>no_new_privs := True, filters := p # filters pr\<rparr>"
    using confine_attached [OF assms(2)] by blast
  have "evaluate_args p c = Some (decide sys allow SECCOMP_RET_KILL_PROCESS sockets c)"
    by (rule filter_decides_run [OF assms(3) p(2)])
  moreover have "list_all in_range allow" using build_program_parts [OF assms(3) p(2)] by simp
  ultimately show ?thesis
    using decide_denied [OF assms(1) p(1) _ assms(4-6)] p(3) by simp
qed

text \<open>
  C2: Denied calls stay denied. Whatever a policy adds and whatever capabilities it keeps, a zone
  that was confined runs under a filter that never allows a call of the denied list, with one
  exception: the calls \<open>CAP_CALLS\<close> gives a capability that is kept.
\<close>

theorem denied_stay_denied:
  assumes "sys_ok sys" "confine_zone_with sys x86 an extra sockets kept pr = (None, pr')" "socket_small sockets"
    and "n \<in> set DENIED_SYS" "n \<notin> opened kept" "sd_nr c = word_of_int (sys n)"
  shows "\<exists>p a. filters pr' = p # filters pr \<and> evaluate_args p c = Some a \<and> a \<noteq> SECCOMP_RET_ALLOW"
  using assms by (rule denied_refused)

text \<open>
  C28: The argument rules. A zone that was confined can, under any policy, make no new namespace with
  clone or clone3, type into no terminal, write no network card's registers through ioctl, open no
  socket of a family or netlink protocol its policy does not name, no socket pair but a Unix one, and
  make no call of another architecture or of x32; and it runs with no_new_privs.
\<close>

theorem zone_argument_rules:
  assumes "sys_ok sys" "confine_zone_with sys x86 an extra sockets kept pr = (None, pr')" "socket_small sockets"
  shows "no_new_privs pr' \<and> (\<exists>p. filters pr' = p # filters pr
    \<and> (\<forall>c. foreign c \<longrightarrow> evaluate_args p c = Some SECCOMP_RET_KILL_PROCESS)
    \<and> (\<forall>c. \<not> foreign c \<and> sd_nr c = word_of_int (sys ''clone'') \<and> arg32 c 0 AND CLONE_NS_MASK \<noteq> 0 \<longrightarrow>
          evaluate_args p c = Some (errno_action EPERM))
    \<and> (\<forall>c. \<not> foreign c \<and> sd_nr c = word_of_int (sys ''clone3'') \<longrightarrow> evaluate_args p c = Some (errno_action ENOSYS))
    \<and> (\<forall>c. \<not> foreign c \<and> sd_nr c = word_of_int (sys ''ioctl'') \<and> arg32 c 1 \<in> {TIOCSTI, TIOCLINUX} \<longrightarrow>
          evaluate_args p c = Some SECCOMP_RET_KILL_PROCESS)
    \<and> (\<forall>c. \<not> foreign c \<and> sd_nr c = word_of_int (sys ''ioctl'') \<and> nic_write (arg32 c 1) \<longrightarrow>
          evaluate_args p c = Some (errno_action EPERM))
    \<and> (\<forall>c. \<not> foreign c \<and> sd_nr c = word_of_int (sys ''socket'') \<and> \<not> socket_ok sockets (arg32 c 0) (arg32 c 2) \<longrightarrow>
          evaluate_args p c = Some (errno_action EAFNOSUPPORT))
    \<and> (\<forall>c. \<not> foreign c \<and> sd_nr c = word_of_int (sys ''socketpair'') \<and> arg32 c 0 \<noteq> AF_UNIX \<longrightarrow>
          evaluate_args p c = Some (errno_action EAFNOSUPPORT)))"
proof -
  obtain allow p where p: "widened_for sys extra kept = Inr allow"
    "build_program_full sys allow SECCOMP_RET_KILL_PROCESS sockets = Inr p"
    "pr' = pr\<lparr>no_new_privs := True, filters := p # filters pr\<rparr>"
    using confine_attached [OF assms(2)] by blast
  have run: "evaluate_args p c = Some (decide sys allow SECCOMP_RET_KILL_PROCESS sockets c)" for c
    by (rule filter_decides_run [OF assms(3) p(2)])
  have listed: "rule_nr sys r \<in> set allow" for r
    using widened_for_ok(1) [OF p(1)] rule_name_base [of r] by (auto simp: BASE_ALLOWLIST_def rule_nr_name)
  have rule: "evaluate_args p c = Some (rule_decision SECCOMP_RET_KILL_PROCESS sockets r c)"
    if "\<not> foreign c" "sd_nr c = word_of_int (rule_nr sys r)" for c r
    using find_rule [OF assms(1) listed that(2)] that(1) by (simp add: run decide_def)
  have nic: "a \<notin> {TIOCSTI, TIOCLINUX}" if "nic_write a" for a
    using that by (auto simp: nic_write_def ioctl_defs)
  show ?thesis
    using rule [of _ CloneNoNamespaces] rule [of _ Clone3Enosys] rule [of _ IoctlRefused] rule [of _ SocketFamilies]
      rule [of _ SocketpairUnix] nic
    by (intro conjI exI [of _ p])
       (auto simp: p(3) run decide_def rule_nr_def rule_decision_def soft_not_allow)
qed

end
