(* ===== verification/Seccomp_Others.thy ===== *)
theory Seccomp_Others
  imports Seccomp_Safety
begin

text \<open>
  The filters of the Wayland proxy and of \<open>wpa_supplicant\<close>, and the filter of \<open>kryptikd seccomp-trace\<close>
  (\<open>compartments/kryptikd/src/seccomp.rs\<close>): each against its reference decision; and the witnesses of the
  zone filter's properties.
\<close>

section \<open>The proxy\<close>

datatype proxy_test = Equals nat u32 | NoExec

definition proxy_tests :: "(string \<Rightarrow> int) \<Rightarrow> (int \<times> proxy_test) list" where
  "proxy_tests sys = [
     (sys ''socket'', Equals 0 AF_UNIX),
     (sys ''ioctl'', Equals 1 FIONBIO),
     (sys ''sendto'', Equals 5 0),
     (sys ''fallocate'', Equals 1 (FALLOC_FL_PUNCH_HOLE OR FALLOC_FL_KEEP_SIZE)),
     (sys ''mmap'', NoExec),
     (sys ''mprotect'', NoExec)]"

fun passes :: "proxy_test \<Rightarrow> seccomp_data \<Rightarrow> bool" where
  "passes (Equals i v) c \<longleftrightarrow> arg32 c i = v"
| "passes NoExec c \<longleftrightarrow> arg32 c 2 AND PROT_EXEC = 0"

definition proxy_decide :: "(string \<Rightarrow> int) \<Rightarrow> seccomp_data \<Rightarrow> u32" where
  "proxy_decide sys c =
     (if foreign c then SECCOMP_RET_KILL_PROCESS
      else case find (\<lambda>r. sd_nr c = word_of_int (fst r)) (proxy_tests sys) of
        Some r \<Rightarrow> if passes (snd r) c then SECCOMP_RET_ALLOW else SECCOMP_RET_KILL_PROCESS
      | None \<Rightarrow> if sd_nr c \<in> word_of_int ` set (PROXY_ALLOWLIST sys) then SECCOMP_RET_ALLOW else SECCOMP_RET_KILL_PROCESS)"

fun test_block :: "proxy_test \<Rightarrow> sock_filter list" where
  "test_block (Equals i v) = only (of_nat i) v"
| "test_block NoExec = no_exec"

interpretation proxy_blocks: guarded_blocks "\<lambda>r. word_of_int (fst r)" "\<lambda>r. test_block (snd r)"
  "\<lambda>r c. if passes (snd r) c then SECCOMP_RET_ALLOW else SECCOMP_RET_KILL_PROCESS"
  "\<lambda>r. snd r = NoExec \<or> (\<exists>i v. snd r = Equals i v \<and> i \<in> {0, 1, 5})"
  by unfold_locales (auto simp: only_def no_exec_def)

lemma proxy_rules_tests: "proxy_rules sys = map (\<lambda>(nr, t). (nr, test_block t)) (proxy_tests sys)"
  by (simp add: proxy_rules_def proxy_tests_def)

lemma proxy_chain:
  "concat (map (\<lambda>(nr, body). jeq (word_of_int nr) 0 (of_nat (length body)) # body) (proxy_rules sys)) =
   concat (map (\<lambda>r. jeq (word_of_int (fst r)) 0 (of_nat (length (test_block (snd r)))) # test_block (snd r)) (proxy_tests sys))"
  by (simp add: proxy_rules_tests comp_def case_prod_beta)

lemma concat_pairs_filter:
  "concat (map (\<lambda>nr. if P nr then [] else [jeq (word_of_int nr) 0 1, ret a]) nrs) =
   concat (map (\<lambda>(n, r). [jeq n 0 1, ret r]) (map (\<lambda>nr. (word_of_int nr, a)) (filter (\<lambda>nr. \<not> P nr) nrs)))"
  by (induction nrs) auto

text \<open>
  C32: The proxy's filter. On every call, the program the proxy runs under decides as follows: a call
  of another architecture or of x32 kills it; a socket may only be a Unix one, an ioctl only
  FIONBIO, a sendto only to the connected peer, a fallocate only a punch that keeps the size, and no
  memory is mapped or made executable; any other call of its list is allowed; any other call kills
  it.
\<close>

theorem proxy_filter_decides: "evaluate_args (proxy_program sys) c = Some (proxy_decide sys c)"
proof -
  let ?listed = "filter (\<lambda>nr. \<not> list_ex (\<lambda>(r, _). r = nr) (proxy_rules sys)) (PROXY_ALLOWLIST sys)"
  have l: "list_all (\<lambda>r. snd r = NoExec \<or> (\<exists>i v. snd r = Equals i v \<and> i \<in> {0, 1, 5})) (proxy_tests sys)"
    by (simp add: proxy_tests_def)
  have e: "evaluate_args (proxy_program sys) c = (if foreign c then Some SECCOMP_RET_KILL_PROCESS
     else case find (\<lambda>r. sd_nr c = word_of_int (fst r)) (proxy_tests sys) of
        Some r \<Rightarrow> Some (if passes (snd r) c then SECCOMP_RET_ALLOW else SECCOMP_RET_KILL_PROCESS)
      | None \<Rightarrow> Some (if sd_nr c \<in> word_of_int ` set ?listed then SECCOMP_RET_ALLOW else SECCOMP_RET_KILL_PROCESS))"
    unfolding evaluate_args_run proxy_program_def run_prologue proxy_chain proxy_blocks.run_chain [OF l]
      concat_pairs_filter run_pairs map_of_constant
    by (simp split: option.split)
  have "word_of_int nr \<in> (word_of_int :: int \<Rightarrow> u32) ` set ?listed"
    if "find (\<lambda>r. word_of_int nr' = (word_of_int (fst r) :: u32)) (proxy_tests sys) = None" "nr = nr'" "nr \<in> set (PROXY_ALLOWLIST sys)" for nr nr'
  proof (rule imageI)
    show "nr \<in> set ?listed"
      using that by (auto simp: find_None_iff proxy_rules_tests list_ex_iff case_prod_beta)
  qed
  then show ?thesis unfolding e proxy_decide_def by (auto split: option.split)
qed

section \<open>The supplicant\<close>

definition supplicant_decide :: "(string \<Rightarrow> int) \<Rightarrow> seccomp_data \<Rightarrow> u32" where
  "supplicant_decide sys c =
     (if foreign c then SECCOMP_RET_KILL_PROCESS
      else if sd_nr c \<noteq> word_of_int (sys ''socket'') then SECCOMP_RET_ALLOW
      else if arg32 c 0 \<in> {AF_UNIX, AF_PACKET}
        \<or> arg32 c 0 = AF_NETLINK \<and> arg32 c 2 \<in> {NETLINK_ROUTE, NETLINK_GENERIC}
        \<or> arg32 c 0 = AF_INET \<and> arg32 c 1 AND NOT SOCK_DGRAM_FLAGS = 0 \<and> arg32 c 1 AND SOCK_DGRAM \<noteq> 0
      then SECCOMP_RET_ALLOW
      else errno_action EPERM)"

text \<open>
  C33: The supplicant's filter. On every call, it kills one of another architecture or of x32,
  allows every call but socket, and allows a socket only if it is a Unix one, a packet one, a netlink
  one for routes or generic netlink, or an IPv4 datagram one; any other socket gets EPERM. In
  particular it never opens NETLINK_NETFILTER.
\<close>

theorem supplicant_filter_decides: "evaluate_args (supplicant_program sys) c = Some (supplicant_decide sys c)"
proof -
  have r: "SECCOMP_RET_ERRNO OR EPERM = errno_action EPERM" by (simp add: errno_action_def EPERM_def)
  have "evaluate_args (supplicant_program sys) c = bpf_run c (prologue SECCOMP_RET_KILL_PROCESS @ drop 6 (supplicant_program sys)) 0"
    by (simp add: evaluate_args_run supplicant_program_def prologue_def Let_def)
  also have "\<dots> = Some (supplicant_decide sys c)"
    unfolding run_prologue
    by (simp add: supplicant_program_def Let_def r supplicant_decide_def family_defs)
  finally show ?thesis .
qed

section \<open>Tracing\<close>

lemma sint_small:
  assumes "(w :: u32) < X32_SYSCALL_BIT"
  shows "sint w = uint w"
proof -
  have u: "uint w < 2 ^ 30" "0 \<le> uint w" using assms by (simp_all add: word_less_def X32_SYSCALL_BIT_def)
  show ?thesis unfolding sint_uint by (rule signed_take_bit_int_eq_self, use u(1) in simp_all, rule order_trans [OF _ u(2)], simp)
qed

lemma number_small:
  assumes "sys_ok sys" "n \<in> set SYS_NAMES"
  shows "(word_of_int (sys n) :: u32) < X32_SYSCALL_BIT" "uint (word_of_int (sys n) :: u32) = sys n"
proof -
  show u: "uint (word_of_int (sys n) :: u32) = sys n"
    using sys_range(1) [OF assms] by (simp add: in_range_def unsigned_of_int take_bit_int_eq_self)
  show "(word_of_int (sys n) :: u32) < X32_SYSCALL_BIT"
    using sys_range(2) [OF assms] by (simp add: word_less_def u X32_SYSCALL_BIT_def)
qed

lemma number_read:
  assumes "sys_ok sys" "n \<in> set SYS_NAMES"
  shows "sys n = sint (nr :: u32) \<longleftrightarrow> nr = word_of_int (sys n)"
proof
  assume "sys n = sint nr"
  then show "nr = word_of_int (sys n)" by simp
next
  assume "nr = word_of_int (sys n)"
  then show "sys n = sint nr" using number_small [OF assms] by (simp add: sint_small)
qed

lemma soft_lookup:
  assumes "sint nr \<notin> set allow" "\<And>n e. (n, e) \<in> set ss \<Longrightarrow> sys n = sint nr \<longleftrightarrow> nr = word_of_int (sys n)"
  shows "map_option snd (find (\<lambda>(n, _). sys n = sint nr) ss) =
    map_of (map (\<lambda>(n, e). (word_of_int (sys n), e)) (filter (\<lambda>(n, _). sys n \<notin> set allow) ss)) nr"
  using assms
proof (induction ss)
  case (Cons a ss)
  obtain n e where a: "a = (n, e)" by force
  have "sys n = sint nr \<longleftrightarrow> nr = word_of_int (sys n)" using Cons.prems(2) [of n e] a by simp
  then show ?case using Cons a by auto
qed simp

definition heard :: "(string \<Rightarrow> int) \<Rightarrow> seccomp_data \<Rightarrow> u32" where
  "heard sys c = (case soft_errno sys c of Some e \<Rightarrow> errno_action e | None \<Rightarrow> SECCOMP_RET_KILL_PROCESS)"

definition nic_ioctl :: "(string \<Rightarrow> int) \<Rightarrow> seccomp_data \<Rightarrow> bool" where
  "nic_ioctl sys c \<longleftrightarrow> \<not> foreign c \<and> sd_nr c = word_of_int (sys ''ioctl'') \<and> nic_write (arg32 c 1)"

lemma not_notif: "errno_action e \<noteq> SECCOMP_RET_USER_NOTIF" "SECCOMP_RET_ALLOW \<noteq> SECCOMP_RET_USER_NOTIF"
proof -
  show "errno_action e \<noteq> SECCOMP_RET_USER_NOTIF"
  proof
    assume "errno_action e = SECCOMP_RET_USER_NOTIF"
    then have "bit (errno_action e) 30 = bit SECCOMP_RET_USER_NOTIF 30" by simp
    then show False by (simp add: errno_action_def action_defs bit_simps)
  qed
qed (simp add: action_defs)

lemma soft_in_names: "(n, e) \<in> set REFUSED_SOFTLY \<Longrightarrow> n \<in> set SYS_NAMES"
  using soft_names in_SYS_NAMES by blast

lemma rule_not_soft:
  assumes "sys_ok sys" "(nr :: u32) = word_of_int (rule_nr sys r)"
  shows "find (\<lambda>(n, _). sys n = sint nr) REFUSED_SOFTLY = None"
proof -
  have "sys n \<noteq> sint nr" if "(n, e) \<in> set REFUSED_SOFTLY" for n e
  proof -
    have "n \<noteq> rule_name r" using soft_names [OF that] rule_name_base [of r] lists_apart by blast
    then show ?thesis
      using number_read [OF assms(1) soft_in_names [OF that], of nr]
        sys_word_names [OF assms(1) soft_in_names [OF that] in_SYS_NAMES(2) [OF rule_name_base [of r]]]
      by (auto simp: assms(2) rule_nr_name)
  qed
  then show ?thesis by (auto simp: find_None_iff)
qed

lemma soft_errno_foreign: "sys_ok sys \<Longrightarrow> foreign c \<Longrightarrow> soft_errno sys c = None"
proof -
  assume ok: "sys_ok sys" and f: "foreign c"
  have "sys n \<noteq> sint (sd_nr c)" if "n \<in> set SYS_NAMES" "X32_SYSCALL_BIT \<le> sd_nr c" for n
    using number_read [OF ok that(1)] number_small(1) [OF ok that(1)] that(2) by (auto simp: not_less [symmetric])
  then have "sd_arch c = AUDIT_ARCH_X86_64 \<Longrightarrow> find (\<lambda>(n, _). sys n = sint (sd_nr c)) REFUSED_SOFTLY = None \<and> sys ''clone'' \<noteq> sint (sd_nr c)"
    using f soft_in_names in_SYS_NAMES(2) [OF rule_name_base [of CloneNoNamespaces]]
    by (auto simp: foreign_def find_None_iff)
  then show ?thesis by (auto simp: soft_errno_def Let_def)
qed

lemma rule_listed: "widened_for sys extra kept = Inr allow \<Longrightarrow> rule_nr sys r \<in> set allow"
  using widened_for_ok(1) [of sys extra kept allow] rule_name_base [of r] by (auto simp: BASE_ALLOWLIST_def rule_nr_name)

lemma trace_rule:
  assumes ok: "sys_ok sys" and f: "\<not> foreign c" and r: "sd_nr c = word_of_int (rule_nr sys r)"
    and notified: "rule_decision SECCOMP_RET_USER_NOTIF s r c = SECCOMP_RET_USER_NOTIF" and nic: "\<not> nic_ioctl sys c"
  shows "rule_decision SECCOMP_RET_KILL_PROCESS s r c = heard sys c"
proof -
  have soft: "map_option snd (find (\<lambda>(n, _). sys n = sint (sd_nr c)) REFUSED_SOFTLY) = None"
    using rule_not_soft [OF ok r] by simp
  have arch: "sd_arch c = AUDIT_ARCH_X86_64" using f by (simp add: foreign_def)
  have clone: "sint (sd_nr c) = sys ''clone'' \<longleftrightarrow> r = CloneNoNamespaces"
    using number_read [OF ok in_SYS_NAMES(2) [OF rule_name_base [of CloneNoNamespaces]], of "sd_nr c"]
      sys_word_names [OF ok in_SYS_NAMES(2) [OF rule_name_base [of r]] in_SYS_NAMES(2) [OF rule_name_base [of CloneNoNamespaces]]]
      rule_name_inj [of r CloneNoNamespaces]
    by (auto simp: r rule_nr_name)
  show ?thesis
  proof (cases r)
    case CloneNoNamespaces
    then show ?thesis
      using notified not_notif clone arch
      by (auto simp: rule_decision_def heard_def soft_errno_def Let_def soft_not_allow split: if_splits)
  next
    case IoctlRefused
    then have "\<not> nic_write (arg32 c 1)" using nic f r by (simp add: nic_ioctl_def rule_nr_def)
    then show ?thesis
      using IoctlRefused notified not_notif clone soft
      by (auto simp: rule_decision_def heard_def soft_errno_def Let_def split: if_splits)
  qed (use notified not_notif in \<open>auto simp: rule_decision_def split: if_splits\<close>)
qed

lemma trace_plain:
  assumes ok: "sys_ok sys" and w: "widened_for sys extra kept = Inr allow" and f: "\<not> foreign c"
    and none: "find (\<lambda>r. sd_nr c = word_of_int (rule_nr sys r)) (listed_rules sys allow) = None"
    and unlisted: "sint (sd_nr c) \<notin> set allow"
  shows "heard sys c = (case map_of (soft_refusals sys allow) (sd_nr c) of Some e \<Rightarrow> errno_action e | None \<Rightarrow> SECCOMP_RET_KILL_PROCESS)"
proof -
  have "map_option snd (find (\<lambda>(n, _). sys n = sint (sd_nr c)) REFUSED_SOFTLY) = map_of (soft_refusals sys allow) (sd_nr c)"
    unfolding soft_refusals_def
    by (rule soft_lookup [OF unlisted]) (rule number_read [OF ok soft_in_names])
  moreover have "sint (sd_nr c) \<noteq> sys ''clone''"
    using unlisted rule_listed [OF w, of CloneNoNamespaces] by (auto simp: rule_nr_def)
  ultimately show ?thesis using f by (simp add: heard_def soft_errno_def Let_def foreign_def)
qed

lemma trace_decides:
  assumes ok: "sys_ok sys" and w: "widened_for sys extra kept = Inr allow" and range: "list_all in_range allow"
    and notified: "decide sys allow SECCOMP_RET_USER_NOTIF s c = SECCOMP_RET_USER_NOTIF" and nic: "\<not> nic_ioctl sys c"
  shows "decide sys allow SECCOMP_RET_KILL_PROCESS s c = heard sys c"
proof (cases "foreign c")
  case True
  then show ?thesis using soft_errno_foreign [OF ok True] by (simp add: decide_def heard_def)
next
  case False
  show ?thesis
  proof (cases "find (\<lambda>r. sd_nr c = word_of_int (rule_nr sys r)) (listed_rules sys allow)")
    case (Some r)
    then have "sd_nr c = word_of_int (rule_nr sys r)" by (auto simp: find_Some_iff)
    then show ?thesis using trace_rule [OF ok False] notified Some False nic by (simp add: decide_def)
  next
    case None
    have "sint (sd_nr c) = uint (sd_nr c)" using False by (intro sint_small) (simp add: foreign_def not_le)
    then have in_allow: "sint (sd_nr c) \<in> set allow \<longleftrightarrow> sd_nr c \<in> word_of_int ` set allow"
      using range by (auto simp: list_all_iff in_range_def unsigned_of_int take_bit_int_eq_self image_iff)
        (metis word_of_int_uint)
    have soft: "map_of (soft_refusals sys allow) (sd_nr c) = Some e \<Longrightarrow> sint (sd_nr c) \<notin> set allow" for e
      using number_read [OF ok soft_in_names, of _ _ "sd_nr c"]
      by (auto simp: soft_refusals_def dest!: map_of_SomeD) metis
    have "sint (sd_nr c) \<notin> set allow"
      using notified None False soft not_notif in_allow by (auto simp: decide_def split: option.splits if_splits)
    then show ?thesis
      using trace_plain [OF ok w False None] None False in_allow
      by (simp add: decide_def soft_not_allow split: option.split)
  qed
qed

text \<open>
  C34: A traced program hears what a zone would say. Under the filter that notifies instead of
  refusing, seccomp-trace answers every call it is notified of with the errno the zone's filter
  would give, or takes it for one a zone is killed for, exactly as the zone's filter decides; with
  one exception, the network card's ioctls: a zone gets EPERM for these, and the trace takes them
  for killed.
\<close>

theorem trace_hears_the_zone:
  assumes "sys_ok sys" "widened_for sys extra kept = Inr allow" "socket_small sockets"
    and "build_program_full sys allow SECCOMP_RET_KILL_PROCESS sockets = Inr zone"
    and "build_program_full sys allow SECCOMP_RET_USER_NOTIF sockets = Inr trace"
    and "evaluate_args trace c = Some SECCOMP_RET_USER_NOTIF"
  shows "if nic_ioctl sys c then evaluate_args zone c = Some (errno_action EPERM) \<and> soft_errno sys c = None
    else evaluate_args zone c = Some (heard sys c)"
proof (cases "nic_ioctl sys c")
  case False
  have "list_all in_range allow" using build_program_parts [OF assms(3,4)] by simp
  then show ?thesis
    using trace_decides [OF assms(1,2), of sockets c] False assms(6)
      filter_decides_run [OF assms(3,4), of c] filter_decides_run [OF assms(3,5), of c] by simp
next
  case True
  then have c: "\<not> foreign c" "sd_nr c = word_of_int (rule_nr sys IoctlRefused)" "nic_write (arg32 c 1)"
    by (simp_all add: nic_ioctl_def rule_nr_def)
  have "arg32 c 1 \<notin> {TIOCSTI, TIOCLINUX}" using c(3) by (auto simp: nic_write_def ioctl_defs)
  then have "evaluate_args zone c = Some (errno_action EPERM)"
    using filter_decides_run [OF assms(3,4), of c] find_rule [OF assms(1) rule_listed [OF assms(2)] c(2)] c
    by (simp add: decide_def rule_decision_def soft_not_allow)
  moreover have "sint (sd_nr c) \<noteq> sys ''clone''"
    using number_read [OF assms(1) in_SYS_NAMES(2) [OF rule_name_base [of CloneNoNamespaces]], of "sd_nr c"]
      sys_word_names [OF assms(1) in_SYS_NAMES(2) [OF rule_name_base [of IoctlRefused]] in_SYS_NAMES(2) [OF rule_name_base [of CloneNoNamespaces]]]
    by (auto simp: c(2) rule_nr_name)
  ultimately show ?thesis
    using True rule_not_soft [OF assms(1) c(2)] by (simp add: soft_errno_def Let_def)
qed

section \<open>At concrete inputs\<close>

definition demo_call :: "int \<Rightarrow> u64 \<Rightarrow> seccomp_data" where
  "demo_call nr a = \<lparr>sd_arch = AUDIT_ARCH_X86_64, sd_nr = word_of_int nr, sd_args = \<lambda>_. a\<rparr>"

definition demo_sys :: "string \<Rightarrow> int" where
  "demo_sys n = (if n = ''ioctl'' then 16 else 400)"

definition demo_answers :: sec_answers where
  "demo_answers = \<lparr>an_nnp = None, an_seccomp = Inr 0\<rparr>"

definition demo_process :: process where
  "demo_process = \<lparr>no_new_privs = False, filters = []\<rparr>"

lemma small_default: "socket_small socket_policy_default"
  by (simp add: socket_small_def socket_policy_default_def)

lemma base_builds:
  assumes "deny \<in> {SECCOMP_RET_KILL_PROCESS, SECCOMP_RET_USER_NOTIF}"
  obtains p where "build_program_full x86_64 (BASE_ALLOWLIST x86_64) deny socket_policy_default = Inr p"
proof -
  have r: "list_all in_range (BASE_ALLOWLIST x86_64)"
    using sys_range(1) [OF x86_64_ok in_SYS_NAMES(2)]
    by (auto simp: BASE_ALLOWLIST_def list_all_iff) (simp add: in_range_def SYS_MAP_SHADOW_STACK_def)
  have l: "length (BASE_ALLOWLIST x86_64) = 216" by (simp add: BASE_ALLOWLIST_def BASE_SYS_def)
  show thesis
    by (rule build_cases [OF small_default, of "BASE_ALLOWLIST x86_64" x86_64 deny])
       (use r l that in \<open>auto simp: find_Some_iff list_all_iff\<close>)
qed

lemma base_widened: "widened_for x86_64 [] [] = Inr (BASE_ALLOWLIST x86_64)"
  by (simp add: widened_for_def widened_def CAP_CALLS_def)

lemma base_confined:
  obtains p where "confine_zone_with x86_64 True demo_answers [] socket_policy_default [] demo_process =
    (None, \<lparr>no_new_privs = True, filters = [p]\<rparr>)"
proof -
  obtain p where "build_program_full x86_64 (BASE_ALLOWLIST x86_64) SECCOMP_RET_KILL_PROCESS socket_policy_default = Inr p"
    by (rule base_builds [of SECCOMP_RET_KILL_PROCESS]) simp_all
  then show thesis
    by (intro that [of p])
       (simp add: confine_zone_with_def base_widened install_with_def attach_def unit_result_def demo_answers_def demo_process_def)
qed



theorem denied_stay_denied_witness:
  "\<exists>p a. confine_zone_with x86_64 True demo_answers [] socket_policy_default [] demo_process =
      (None, \<lparr>no_new_privs = True, filters = [p]\<rparr>)
    \<and> evaluate_args p (demo_call (x86_64 ''ptrace'') 0) = Some a \<and> a \<noteq> SECCOMP_RET_ALLOW"
proof -
  obtain p where p: "confine_zone_with x86_64 True demo_answers [] socket_policy_default [] demo_process =
    (None, \<lparr>no_new_privs = True, filters = [p]\<rparr>)" by (rule base_confined)
  have "\<exists>q a. filters \<lparr>no_new_privs = True, filters = [p]\<rparr> = q # filters demo_process
      \<and> evaluate_args q (demo_call (x86_64 ''ptrace'') 0) = Some a \<and> a \<noteq> SECCOMP_RET_ALLOW"
    by (rule denied_stay_denied [OF x86_64_ok p small_default, of "''ptrace''"])
       (simp_all add: DENIED_RATIONALE_def opened_def CAP_CALLS_def demo_call_def)
  then show ?thesis using p by auto
qed

lemma demo_call_own:
  "n \<in> set SYS_NAMES \<Longrightarrow> \<not> foreign (demo_call (x86_64 n) a)"
  using number_small(1) [OF x86_64_ok, of n] by (simp add: foreign_def demo_call_def)

theorem zone_argument_rules_witness:
  "\<exists>p. confine_zone_with x86_64 True demo_answers [] socket_policy_default [] demo_process =
      (None, \<lparr>no_new_privs = True, filters = [p]\<rparr>)
    \<and> evaluate_args p (demo_call (x86_64 ''socketpair'') 2) = Some (errno_action EAFNOSUPPORT)
    \<and> evaluate_args p (demo_call (x86_64 ''ioctl'') (ucast TIOCSTI)) = Some SECCOMP_RET_KILL_PROCESS"
proof -
  obtain p where p: "confine_zone_with x86_64 True demo_answers [] socket_policy_default [] demo_process =
    (None, \<lparr>no_new_privs = True, filters = [p]\<rparr>)" by (rule base_confined)
  have own: "\<not> foreign (demo_call (x86_64 (rule_name r)) a)" for r a
    using demo_call_own [OF in_SYS_NAMES(2) [OF rule_name_base]] .
  show ?thesis
    using zone_argument_rules [OF x86_64_ok p small_default] p own [of SocketpairUnix] own [of IoctlRefused]
    by (auto simp: demo_process_def demo_call_def AF_UNIX_def TIOCSTI_def)
qed

theorem trace_hears_the_zone_witness:
  "\<exists>zone trace. build_program_full x86_64 (BASE_ALLOWLIST x86_64) SECCOMP_RET_KILL_PROCESS socket_policy_default = Inr zone
    \<and> build_program_full x86_64 (BASE_ALLOWLIST x86_64) SECCOMP_RET_USER_NOTIF socket_policy_default = Inr trace
    \<and> evaluate_args zone (demo_call (x86_64 ''ioctl'') (ucast SIOCETHTOOL)) = Some (errno_action EPERM)
    \<and> soft_errno x86_64 (demo_call (x86_64 ''ioctl'') (ucast SIOCETHTOOL)) = None"
proof -
  let ?c = "demo_call (x86_64 ''ioctl'') (ucast SIOCETHTOOL)"
  obtain zone where z: "build_program_full x86_64 (BASE_ALLOWLIST x86_64) SECCOMP_RET_KILL_PROCESS socket_policy_default = Inr zone"
    by (rule base_builds [of SECCOMP_RET_KILL_PROCESS]) simp_all
  obtain trace where t: "build_program_full x86_64 (BASE_ALLOWLIST x86_64) SECCOMP_RET_USER_NOTIF socket_policy_default = Inr trace"
    by (rule base_builds [of SECCOMP_RET_USER_NOTIF]) simp_all
  have own: "\<not> foreign ?c" using demo_call_own [OF in_SYS_NAMES(2) [OF rule_name_base [of IoctlRefused]]] by simp
  have a: "arg32 ?c 1 = SIOCETHTOOL" by (simp add: demo_call_def SIOCETHTOOL_def)
  have nr: "sd_nr ?c = word_of_int (rule_nr x86_64 IoctlRefused)" by (simp add: demo_call_def rule_nr_def)
  have "evaluate_args trace ?c = Some SECCOMP_RET_USER_NOTIF"
    using filter_decides_run [OF small_default t, of ?c] own a find_rule [OF x86_64_ok rule_listed [OF base_widened] nr]
    by (simp add: decide_def rule_decision_def nic_write_def soft_refusal_def)
  then show ?thesis
    using trace_hears_the_zone [OF x86_64_ok base_widened small_default z t, of ?c] z t own a
    by (simp add: nic_ioctl_def nic_write_def) (simp add: demo_call_def)
qed

end
