(* ===== verification/Zone.thy ===== *)
theory Zone
  imports Rust_Str
begin

text \<open>
  Zone definitions (\<open>compartments/kryptikd/src/zone.rs\<close>): the flat TOML a zone file is written in, the
  zone read from it with every check of \<open>from_str\<close> and \<open>validate\<close> in order, and the invariants of the
  whole set of zones. A malformed file is an error, never a weaker zone.

  \<open>{:?}\<close> of a string is the parameter \<open>dbg\<close>. The keys of a file are an association list in the order of
  its lines; the source's map has none, so which of several unknown keys an error names is not
  determined there. \<open>read_dir\<close> is a parameter of \<open>load_all\<close>: what it found.
\<close>

section \<open>Modes and zones\<close>

datatype zone_error =
    Z_Io string
  | Z_Syntax nat string
  | Z_Missing string
  | Z_BadValue string string string
  | Z_Invalid string

definition zone_error_fmt :: "(string \<Rightarrow> string) \<Rightarrow> zone_error \<Rightarrow> string" where
  "zone_error_fmt dbg e = (case e of
       Z_Io m \<Rightarrow> ''io error: '' @ m
     | Z_Syntax line msg \<Rightarrow> ''line '' @ nat_to_string line @ '': '' @ msg
     | Z_Missing k \<Rightarrow> ''missing required field: '' @ k
     | Z_BadValue field value expected \<Rightarrow> field @ '': invalid value '' @ dbg value @ '' (expected '' @ expected @ '')''
     | Z_Invalid m \<Rightarrow> m)"

datatype network_mode = Net_None | Net_Routed | Net_Nic

definition network_parse :: "string \<Rightarrow> zone_error + network_mode" where
  "network_parse s =
     (if s = ''none'' then Inr Net_None
      else if s = ''routed'' then Inr Net_Routed
      else if s = ''nic'' then Inr Net_Nic
      else Inl (Z_BadValue ''network.mode'' s ''none | routed | nic''))"

datatype storage_mode = Encrypted | Ephemeral | Persistent

definition storage_parse :: "string \<Rightarrow> zone_error + storage_mode" where
  "storage_parse s =
     (if s = ''encrypted'' then Inr Encrypted
      else if s = ''ephemeral'' then Inr Ephemeral
      else if s = ''persistent'' then Inr Persistent
      else Inl (Z_BadValue ''storage.mode'' s ''encrypted | ephemeral | persistent''))"

record zone =
  z_name :: string
  z_description :: string
  z_network :: network_mode
  z_nic :: "string option"
  z_local :: bool
  z_storage :: storage_mode
  z_volume :: "string option"
  z_seccomp :: "string option"
  z_landlock :: "string option"
  z_size :: "string option"
  z_memory_max :: "string option"
  z_pids_max :: "nat option"
  z_cpu_max :: "string option"
  z_io_max :: "string option"
  z_border_color :: string
  z_border_pattern :: "string option"
  z_glyph :: "string option"
  z_label :: "string option"
  z_uid_base :: "nat option"
  z_transfer_to :: "string list"
  z_transfer_max :: "nat option"
  z_images :: "string list"
  z_sound :: bool
  z_removable :: bool
  z_camera :: bool
  z_hold_awake :: bool

definition IDENTITY_MIN :: nat where "IDENTITY_MIN = 131072"
definition IDENTITY_STRIDE :: nat where "IDENTITY_STRIDE = 65536"
definition TRANSFER_MAX :: nat where "TRANSFER_MAX = 2 ^ 30"

definition KNOWN_KEYS :: "string list" where
  "KNOWN_KEYS = [
     ''zone.name'', ''zone.description'',
     ''network.mode'', ''network.nic'', ''network.local'',
     ''storage.mode'', ''storage.volume'', ''storage.size'', ''storage.removable'',
     ''policy.seccomp'', ''policy.landlock'',
     ''limits.memory_max'', ''limits.pids_max'', ''limits.cpu_max'', ''limits.io_max'',
     ''identity.uid_base'',
     ''transfer.to'', ''transfer.max_bytes'',
     ''software.images'',
     ''sound.play'',
     ''camera.use'',
     ''desktop.hold_awake'',
     ''ui.border_color'', ''ui.border_pattern'', ''ui.glyph'', ''ui.label'']"

section \<open>Sizes and percentages\<close>

definition parse_cpu_max :: "string \<Rightarrow> nat option" where
  "parse_cpu_max s = (case strip_suffix ''%'' s of
       None \<Rightarrow> None
     | Some digits \<Rightarrow>
         if digits = [] \<or> \<not> list_all is_ascii_digit digits then None
         else (case parse_uint 32 digits of Some n \<Rightarrow> if n > 0 then Some n else None | None \<Rightarrow> None))"

definition size_unit :: "byte \<Rightarrow> nat option" where
  "size_unit b =
     (if b \<in> {CHR ''K'', CHR ''k''} then Some 10
      else if b \<in> {CHR ''M'', CHR ''m''} then Some 20
      else if b \<in> {CHR ''G'', CHR ''g''} then Some 30
      else if b \<in> {CHR ''T'', CHR ''t''} then Some 40
      else None)"

definition parse_size :: "string \<Rightarrow> nat option" where
  "parse_size s =
     (if s = [] then None
      else
        let (digits, shift) = (case size_unit (last s) of Some k \<Rightarrow> (butlast s, k) | None \<Rightarrow> (s, 0)) in
        if digits = [] \<or> \<not> list_all is_ascii_digit digits then None
        else case parse_uint 64 digits of
          Some n \<Rightarrow> if n > 0 \<and> n * 2 ^ shift < 2 ^ 64 then Some (n * 2 ^ shift) else None
        | None \<Rightarrow> None)"

section \<open>Flat TOML\<close>

fun strip_comment_from :: "bool \<Rightarrow> bytes \<Rightarrow> bytes" where
  "strip_comment_from in_string [] = []"
| "strip_comment_from in_string (b # bs) =
     (if b = CHR 0x22 then b # strip_comment_from (\<not> in_string) bs
      else if b = CHR ''#'' \<and> \<not> in_string then []
      else b # strip_comment_from in_string bs)"

definition strip_comment :: "bytes \<Rightarrow> bytes" where
  "strip_comment line = strip_comment_from False line"

definition toml_section :: "nat \<Rightarrow> string \<Rightarrow> zone_error + string" where
  "toml_section lineno rest = (case strip_suffix '']'' rest of
       None \<Rightarrow> Inl (Z_Syntax lineno ''unterminated section header'')
     | Some name \<Rightarrow>
         if CHR ''['' \<in> set name \<or> CHR ''.'' \<in> set name
         then Inl (Z_Syntax lineno ''nested tables and array-of-tables are not supported'')
         else Inr (trim name))"

definition toml_value :: "(string \<Rightarrow> string) \<Rightarrow> nat \<Rightarrow> string \<Rightarrow> zone_error + string" where
  "toml_value dbg lineno value =
     (if take 1 value = ''['' then Inl (Z_Syntax lineno ''arrays are not supported in zone definitions'')
      else case strip_prefix [CHR 0x22] value of
        Some inner \<Rightarrow> ok_or (strip_suffix [CHR 0x22] inner) (Z_Syntax lineno ''unterminated string'')
      | None \<Rightarrow>
          if \<not> all_chars is_ascii_digit value \<and> value \<noteq> ''true'' \<and> value \<noteq> ''false''
          then Inl (Z_Syntax lineno (''unquoted value '' @ dbg value @ '': strings must be quoted''))
          else Inr value)"

definition toml_line :: "(string \<Rightarrow> string) \<Rightarrow> nat \<Rightarrow> string \<Rightarrow> string \<times> (string, string) hmap \<Rightarrow> zone_error + string \<times> (string, string) hmap" where
  "toml_line dbg lineno raw st =
     (let (sect, kv) = st;
          line = trim (strip_comment raw) in
      if line = [] then Inr st
      else case strip_prefix ''['' line of
        Some rest \<Rightarrow> bind_res (toml_section lineno rest) (\<lambda>s. Inr (s, kv))
      | None \<Rightarrow> (case split_once (CHR ''='') line of
            None \<Rightarrow> Inl (Z_Syntax lineno (''expected '' @ [CHR 0x27] @ ''key = value'' @ [CHR 0x27]))
          | Some (key, value) \<Rightarrow>
              bind_res (toml_value dbg lineno (trim value)) (\<lambda>value.
                let full = (if sect = [] then trim key else sect @ ''.'' @ trim key) in
                if hm_contains kv full then Inl (Z_Syntax lineno (''duplicate key '' @ dbg full))
                else Inr (sect, kv @ [(full, value)]))))"

fun toml_lines :: "(string \<Rightarrow> string) \<Rightarrow> nat \<Rightarrow> string list \<Rightarrow> string \<times> (string, string) hmap \<Rightarrow> zone_error + (string, string) hmap" where
  "toml_lines dbg idx [] st = Inr (snd st)"
| "toml_lines dbg idx (raw # ls) st = bind_res (toml_line dbg (idx + 1) raw st) (toml_lines dbg (idx + 1) ls)"

definition parse_flat_toml :: "(string \<Rightarrow> string) \<Rightarrow> string \<Rightarrow> zone_error + (string, string) hmap" where
  "parse_flat_toml dbg text = toml_lines dbg 0 (lines text) ([], [])"

section \<open>A zone from its file\<close>

definition require :: "bool \<Rightarrow> 'e \<Rightarrow> 'e + unit" where
  "require b e = (if b then Inr () else Inl e)"

definition in_quotes :: "string \<Rightarrow> string" where
  "in_quotes s = [CHR 0x22] @ s @ [CHR 0x22]"

definition zone_invalid :: "(string \<Rightarrow> string) \<Rightarrow> string \<Rightarrow> string \<Rightarrow> zone_error" where
  "zone_invalid dbg name why = Z_Invalid (''zone '' @ dbg name @ '': '' @ why)"

definition need :: "(string, string) hmap \<Rightarrow> string \<Rightarrow> zone_error + string" where
  "need kv k = ok_or (hm_get kv k) (Z_Missing k)"

definition known_keys_only :: "(string \<Rightarrow> string) \<Rightarrow> (string, string) hmap \<Rightarrow> zone_error + unit" where
  "known_keys_only dbg kv = (case find (\<lambda>k. k \<notin> set KNOWN_KEYS) (map fst kv) of
       Some k \<Rightarrow> Inl (Z_Invalid (''unknown key '' @ dbg k
         @ '': not a zone setting, and an unknown key would otherwise be silently ignored''))
     | None \<Rightarrow> Inr ())"

definition read_pids_max :: "(string, string) hmap \<Rightarrow> zone_error + nat option" where
  "read_pids_max kv = (case hm_get kv ''limits.pids_max'' of
       None \<Rightarrow> Inr None
     | Some v \<Rightarrow> (case parse_uint 32 v of
           Some n \<Rightarrow> if n > 0 then Inr (Some n) else Inl (Z_BadValue ''limits.pids_max'' v ''a positive integer'')
         | None \<Rightarrow> Inl (Z_BadValue ''limits.pids_max'' v ''a positive integer'')))"

definition check_value :: "(string, string) hmap \<Rightarrow> string \<Rightarrow> (string \<Rightarrow> bool) \<Rightarrow> string \<Rightarrow> zone_error + unit" where
  "check_value kv k ok expected = (case hm_get kv k of
       Some v \<Rightarrow> require (ok v) (Z_BadValue k v expected)
     | None \<Rightarrow> Inr ())"

definition check_limits :: "(string \<Rightarrow> string) \<Rightarrow> (string, string) hmap \<Rightarrow> string \<Rightarrow> storage_mode \<Rightarrow> zone_error + unit" where
  "check_limits dbg kv name storage =
     bind_res (check_value kv ''limits.memory_max'' (\<lambda>v. parse_size v \<noteq> None) ''a size such as 512M or 2G'') (\<lambda>_.
     bind_res (check_value kv ''limits.cpu_max'' (\<lambda>v. parse_cpu_max v \<noteq> None) ''a percentage of one CPU such as 50% or 200%'') (\<lambda>_.
     bind_res (check_value kv ''limits.io_max'' (\<lambda>v. parse_size v \<noteq> None) ''bytes per second such as 20M'') (\<lambda>_.
       require (\<not> hm_contains kv ''limits.io_max'' \<or> storage = Encrypted)
         (zone_invalid dbg name (''limits.io_max bounds reads and writes of the zone's volume, and this zone has none (storage.mode is not ''
            @ in_quotes ''encrypted'' @ '')'')))))"

definition check_size :: "(string \<Rightarrow> string) \<Rightarrow> (string, string) hmap \<Rightarrow> string \<Rightarrow> storage_mode \<Rightarrow> zone_error + unit" where
  "check_size dbg kv name storage = (case storage of
       Ephemeral \<Rightarrow> (case hm_get kv ''storage.size'' of
           None \<Rightarrow> Inl (zone_invalid dbg name (''storage.mode is '' @ in_quotes ''ephemeral''
             @ '' but no storage.size given. An ephemeral zone's data lives in a tmpfs, and an unbounded tmpfs ''
             @ ''lets the zone consume host memory by writing files - which the memory limit does not stop, ''
             @ ''because those pages outlive the writer.''))
         | Some v \<Rightarrow> (case parse_size v of
             None \<Rightarrow> Inl (Z_BadValue ''storage.size'' v ''a size such as 512M or 2G'')
           | Some sz \<Rightarrow> (case hm_get kv ''limits.memory_max'' of
               None \<Rightarrow> Inr ()
             | Some m \<Rightarrow> (case parse_size m of
                 None \<Rightarrow> Inr ()
               | Some mm \<Rightarrow> require (\<not> sz > mm) (zone_invalid dbg name (''storage.size = '' @ dbg v
                   @ '' is larger than limits.memory_max = '' @ dbg m
                   @ ''. The tmpfs is charged to the zone's memory limit, so it can never reach '' @ v
                   @ '': the zone would be OOM-killed first. Lower storage.size, or raise memory_max.''))))))
     | Encrypted \<Rightarrow> require (\<not> hm_contains kv ''storage.size'')
         (zone_invalid dbg name (''storage.size is only meaningful for storage.mode = '' @ in_quotes ''ephemeral''
            @ ''; an encrypted zone is sized by its volume''))
     | Persistent \<Rightarrow> require (\<not> hm_contains kv ''storage.size'')
         (zone_invalid dbg name (''storage.size is only meaningful for storage.mode = '' @ in_quotes ''ephemeral''
            @ ''. A persistent zone writes into a directory on the host filesystem, and kryptikd does not impose a quota on it - ''
            @ ''so a size here would be a limit that is not in force.'')))"

definition uid_base_ok :: "nat \<Rightarrow> bool" where
  "uid_base_ok n \<longleftrightarrow> IDENTITY_MIN \<le> n \<and> n mod IDENTITY_STRIDE = 0 \<and> n + (IDENTITY_STRIDE - 1) < 2 ^ 32"

definition read_uid_base :: "(string, string) hmap \<Rightarrow> zone_error + nat option" where
  "read_uid_base kv = (case hm_get kv ''identity.uid_base'' of
       None \<Rightarrow> Inr None
     | Some v \<Rightarrow> (case parse_uint 32 v of
           None \<Rightarrow> Inl (Z_BadValue ''identity.uid_base'' v ''an unsigned integer'')
         | Some n \<Rightarrow>
             if \<not> uid_base_ok n
             then Inl (Z_BadValue ''identity.uid_base'' v ''a multiple of 65536, at least 131072, with room for a 65536-wide range'')
             else Inr (Some n)))"

definition nic_name_ok :: "string \<Rightarrow> bool" where
  "nic_name_ok n \<longleftrightarrow> n \<noteq> [] \<and> length n \<le> 15 \<and> n \<noteq> ''.'' \<and> n \<noteq> ''..''
     \<and> list_all (\<lambda>b. is_ascii_graphic b \<and> b \<noteq> CHR ''/'' \<and> b \<noteq> CHR '':'') n"

definition check_nic :: "(string \<Rightarrow> string) \<Rightarrow> (string, string) hmap \<Rightarrow> string \<Rightarrow> network_mode \<Rightarrow> zone_error + unit" where
  "check_nic dbg kv name network =
     bind_res (check_value kv ''network.nic'' nic_name_ok
       (''an interface name of at most 15 characters, or '' @ in_quotes ''*'' @ '' for every physical interface'')) (\<lambda>_.
     require (\<not> hm_contains kv ''network.nic'' \<or> network = Net_Nic)
       (zone_invalid dbg name (''network.nic is only meaningful for network.mode = '' @ in_quotes ''nic'')))"

definition read_local :: "(string \<Rightarrow> string) \<Rightarrow> (string, string) hmap \<Rightarrow> string \<Rightarrow> network_mode \<Rightarrow> zone_error + bool" where
  "read_local dbg kv name network = (case hm_get kv ''network.local'' of
       None \<Rightarrow> Inr False
     | Some v \<Rightarrow>
         if network \<noteq> Net_Routed
         then Inl (zone_invalid dbg name (''network.local is only meaningful for network.mode = '' @ in_quotes ''routed''))
         else if v = ''true'' then Inr True
         else if v = ''false'' then Inr False
         else Inl (Z_BadValue ''network.local'' v ''true or false''))"

text \<open>\<open>sound.play\<close>, \<open>storage.removable\<close> and \<open>camera.use\<close>: on unless the zone holds the network card.\<close>

definition read_device :: "(string \<Rightarrow> string) \<Rightarrow> (string, string) hmap \<Rightarrow> string \<Rightarrow> network_mode \<Rightarrow> string \<Rightarrow> string \<Rightarrow> zone_error + bool" where
  "read_device dbg kv name network key why = (case hm_get kv key of
       None \<Rightarrow> Inr (network \<noteq> Net_Nic)
     | Some v \<Rightarrow>
         if v = ''false'' then Inr False
         else if v = ''true'' \<and> network = Net_Nic then Inl (zone_invalid dbg name why)
         else if v = ''true'' then Inr True
         else Inl (Z_BadValue key v ''true or false''))"

definition read_hold_awake :: "(string \<Rightarrow> string) \<Rightarrow> (string, string) hmap \<Rightarrow> string \<Rightarrow> network_mode \<Rightarrow> zone_error + bool" where
  "read_hold_awake dbg kv name network = (case hm_get kv ''desktop.hold_awake'' of
       None \<Rightarrow> Inr False
     | Some v \<Rightarrow>
         if v = ''false'' then Inr False
         else if v = ''true'' \<and> network = Net_Nic
         then Inl (zone_invalid dbg name ''the nic zone draws no window to hold the screen awake'')
         else if v = ''true'' then Inr True
         else Inl (Z_BadValue ''desktop.hold_awake'' v ''true or false''))"

definition name_byte :: "byte \<Rightarrow> bool" where
  "name_byte b \<longleftrightarrow> is_ascii_lowercase b \<or> is_ascii_digit b \<or> b = CHR ''-''"

fun transfer_names :: "(string \<Rightarrow> string) \<Rightarrow> string \<Rightarrow> string \<Rightarrow> string list \<Rightarrow> string list \<Rightarrow> zone_error + string list" where
  "transfer_names dbg name v [] out = Inr out"
| "transfer_names dbg name v (n # ns) out =
     (if \<not> all_chars name_byte n then Inl (Z_BadValue ''transfer.to'' v ''space-separated zone names'')
      else if n = name then Inl (zone_invalid dbg name ''[transfer] to names the zone itself'')
      else if n \<in> set out then Inl (zone_invalid dbg name (''[transfer] to names '' @ dbg n @ '' twice''))
      else transfer_names dbg name v ns (out @ [n]))"

definition read_transfer_to :: "(string \<Rightarrow> string) \<Rightarrow> (string, string) hmap \<Rightarrow> string \<Rightarrow> zone_error + string list" where
  "read_transfer_to dbg kv name = (case hm_get kv ''transfer.to'' of
       None \<Rightarrow> Inr []
     | Some v \<Rightarrow> bind_res (transfer_names dbg name v (split_whitespace v) []) (\<lambda>out.
         if out = [] then Inl (Z_BadValue ''transfer.to'' v ''at least one zone name, or omit [transfer] to send nothing'')
         else Inr out))"

definition read_transfer_max :: "(string, string) hmap \<Rightarrow> zone_error + nat option" where
  "read_transfer_max kv = (case hm_get kv ''transfer.max_bytes'' of
       None \<Rightarrow> Inr None
     | Some v \<Rightarrow>
         let bad = Inl (Z_BadValue ''transfer.max_bytes'' v (''a whole number of bytes from 1 to '' @ nat_to_string TRANSFER_MAX)) in
         (case parse_uint 64 v of
            Some n \<Rightarrow> if 1 \<le> n \<and> n \<le> TRANSFER_MAX \<and> list_all is_ascii_digit v then Inr (Some n) else bad
          | None \<Rightarrow> bad))"

definition valid_name :: "string \<Rightarrow> bool" where
  "valid_name s \<longleftrightarrow> 1 \<le> length s \<and> length s \<le> 32 \<and> list_all name_byte s"

fun image_names :: "(string \<Rightarrow> string) \<Rightarrow> string \<Rightarrow> string \<Rightarrow> string list \<Rightarrow> string list \<Rightarrow> zone_error + string list" where
  "image_names dbg name v [] out = Inr out"
| "image_names dbg name v (n # ns) out =
     (if \<not> valid_name n then Inl (Z_BadValue ''software.images'' v ''space-separated image names'')
      else if n \<in> set out then Inl (zone_invalid dbg name (''[software] images names '' @ dbg n @ '' twice''))
      else image_names dbg name v ns (out @ [n]))"

definition read_images :: "(string \<Rightarrow> string) \<Rightarrow> (string, string) hmap \<Rightarrow> string \<Rightarrow> zone_error + string list" where
  "read_images dbg kv name = (case hm_get kv ''software.images'' of
       None \<Rightarrow> Inr []
     | Some v \<Rightarrow> bind_res (image_names dbg name v (split_whitespace v) []) (\<lambda>out.
         if out = [] then Inl (Z_BadValue ''software.images'' v ''at least one image name, or omit [software]'')
         else Inr out))"

definition is_hex_colour :: "string \<Rightarrow> bool" where
  "is_hex_colour s \<longleftrightarrow> length s = 7 \<and> take 1 s = ''#'' \<and> all_chars is_ascii_hexdigit (drop 1 s)"

definition PATTERNS :: "string list" where
  "PATTERNS = [''solid'', ''dashed'', ''dotted'', ''double'', ''dash-dot'', ''notched'']"

definition join :: "string \<Rightarrow> string list \<Rightarrow> string" where
  "join sep xs = (case xs of [] \<Rightarrow> [] | x # r \<Rightarrow> x @ concat (map (\<lambda>y. sep @ y) r))"

definition glyph_ok :: "string \<Rightarrow> bool" where
  "glyph_ok g \<longleftrightarrow> length (uchars g) = 1 \<and> \<not> list_ex (\<lambda>c. is_control c \<or> is_whitespace c) (uchars g)"

definition label_ok :: "string \<Rightarrow> bool" where
  "label_ok l \<longleftrightarrow> l \<noteq> [] \<and> length l \<le> 12 \<and> all_chars (byte_in 0x20 0x7E) l \<and> take 1 l \<noteq> '' '' \<and> strip_suffix '' '' l = None"

definition validate :: "(string \<Rightarrow> string) \<Rightarrow> zone \<Rightarrow> zone_error + unit" where
  "validate dbg z =
     (let name = z_name z in
      bind_res (require (name \<noteq> []) (Z_Invalid ''zone.name must not be empty'')) (\<lambda>_.
      bind_res (require (all_chars name_byte name) (Z_Invalid (''zone.name '' @ dbg name @ '' must be lowercase alphanumeric or ''
        @ [CHR 0x27] @ ''-'' @ [CHR 0x27] @ '' (it becomes a cgroup path and interface name)''))) (\<lambda>_.
      bind_res (require (length name \<le> 12) (Z_Invalid (''zone.name '' @ dbg name @ '' is '' @ nat_to_string (length name)
        @ '' chars; max 12 so veth names fit IFNAMSIZ''))) (\<lambda>_.
      bind_res (require (\<not> (z_storage z = Encrypted \<and> z_volume z = None))
        (zone_invalid dbg name (''storage.mode is '' @ [CHR 0x27] @ ''encrypted'' @ [CHR 0x27] @ '' but no storage.volume given''))) (\<lambda>_.
      bind_res (require (\<not> (z_storage z = Persistent \<and> z_volume z \<noteq> None))
        (zone_invalid dbg name (''storage.volume is only meaningful for storage.mode = '' @ in_quotes ''encrypted''
          @ ''. A persistent zone keeps its data in a plain directory under the zone root; it does not open ''
          @ dbg (case z_volume z of Some v \<Rightarrow> v | None \<Rightarrow> [])
          @ ''. If this zone was meant to be encrypted, say so - kryptikd will refuse to start it until ''
          @ ''`kryptikd volume init` has made its volume, which is the point.''))) (\<lambda>_.
      bind_res (require (is_hex_colour (z_border_color z))
        (zone_invalid dbg name (''ui.border_color '' @ dbg (z_border_color z) @ '' is not #rrggbb''))) (\<lambda>_.
      bind_res (case z_border_pattern z of
          Some p \<Rightarrow> require (p \<in> set PATTERNS)
            (zone_invalid dbg name (''ui.border_pattern '' @ dbg p @ '' is not one of '' @ join '', '' PATTERNS))
        | None \<Rightarrow> Inr ()) (\<lambda>_.
      bind_res (case z_glyph z of
          Some g \<Rightarrow> require (glyph_ok g) (zone_invalid dbg name (''ui.glyph '' @ dbg g @ '' must be exactly one printable character''))
        | None \<Rightarrow> Inr ()) (\<lambda>_.
      case z_label z of
          Some l \<Rightarrow> require (label_ok l) (zone_invalid dbg name (''ui.label '' @ dbg l @ '' must be 1-12 printable ASCII characters, unpadded''))
        | None \<Rightarrow> Inr ())))))))))"

definition zone_of :: "(string \<Rightarrow> string) \<Rightarrow> (string, string) hmap \<Rightarrow> string \<Rightarrow> network_mode \<Rightarrow> storage_mode \<Rightarrow> nat option \<Rightarrow> zone_error + zone" where
  "zone_of dbg kv name network storage pids_max =
     bind_res (read_uid_base kv) (\<lambda>uid_base.
     bind_res (check_nic dbg kv name network) (\<lambda>_.
     bind_res (read_local dbg kv name network) (\<lambda>local.
     bind_res (read_device dbg kv name network ''sound.play'' ''the nic zone plays no sound'') (\<lambda>sound.
     bind_res (read_device dbg kv name network ''storage.removable'' ''the nic zone is given no USB stick'') (\<lambda>removable.
     bind_res (read_device dbg kv name network ''camera.use'' ''the nic zone is given no camera'') (\<lambda>camera.
     bind_res (read_hold_awake dbg kv name network) (\<lambda>hold_awake.
     bind_res (read_transfer_to dbg kv name) (\<lambda>transfer_to.
     bind_res (read_transfer_max kv) (\<lambda>transfer_max.
     bind_res (read_images dbg kv name) (\<lambda>images.
     bind_res (need kv ''ui.border_color'') (\<lambda>border_color.
       Inr \<lparr>z_name = name,
         z_description = (case hm_get kv ''zone.description'' of Some d \<Rightarrow> d | None \<Rightarrow> []),
         z_network = network, z_nic = hm_get kv ''network.nic'', z_local = local, z_storage = storage,
         z_volume = hm_get kv ''storage.volume'', z_seccomp = hm_get kv ''policy.seccomp'',
         z_landlock = hm_get kv ''policy.landlock'', z_size = hm_get kv ''storage.size'',
         z_memory_max = hm_get kv ''limits.memory_max'', z_pids_max = pids_max,
         z_cpu_max = hm_get kv ''limits.cpu_max'', z_io_max = hm_get kv ''limits.io_max'',
         z_border_color = to_ascii_lowercase border_color, z_border_pattern = hm_get kv ''ui.border_pattern'',
         z_glyph = hm_get kv ''ui.glyph'', z_label = hm_get kv ''ui.label'', z_uid_base = uid_base,
         z_transfer_to = transfer_to, z_transfer_max = transfer_max, z_images = images,
         z_sound = sound, z_removable = removable, z_camera = camera, z_hold_awake = hold_awake\<rparr>)))))))))))"

definition from_str :: "(string \<Rightarrow> string) \<Rightarrow> string \<Rightarrow> zone_error + zone" where
  "from_str dbg text =
     bind_res (parse_flat_toml dbg text) (\<lambda>kv.
     bind_res (known_keys_only dbg kv) (\<lambda>_.
     bind_res (need kv ''zone.name'') (\<lambda>name.
     bind_res (bind_res (need kv ''network.mode'') network_parse) (\<lambda>network.
     bind_res (bind_res (need kv ''storage.mode'') storage_parse) (\<lambda>storage.
     bind_res (read_pids_max kv) (\<lambda>pids_max.
     bind_res (check_limits dbg kv name storage) (\<lambda>_.
     bind_res (check_size dbg kv name storage) (\<lambda>_.
     bind_res (zone_of dbg kv name network storage pids_max) (\<lambda>z.
     bind_res (validate dbg z) (\<lambda>_. Inr z))))))))))"

section \<open>The set of zones\<close>

text \<open>\<open>by_name\<close> keeps the first zone of a name.\<close>

definition zone_named :: "zone list \<Rightarrow> string \<Rightarrow> zone option" where
  "zone_named zones n = find (\<lambda>z. z_name z = n) zones"

definition check_target :: "(string \<Rightarrow> string) \<Rightarrow> zone list \<Rightarrow> zone \<Rightarrow> string \<Rightarrow> zone_error + unit" where
  "check_target dbg zones z d = (case zone_named zones d of
       None \<Rightarrow> Inl (zone_invalid dbg (z_name z) (''[transfer] to names '' @ dbg d @ '', which is not a zone''))
     | Some t \<Rightarrow> require (z_network t \<noteq> Net_Nic)
         (zone_invalid dbg (z_name z) (''[transfer] to names '' @ dbg d @ '', the zone that holds the NIC; it receives nothing, ever'')))"

fun check_all :: "('a \<Rightarrow> 'e + unit) \<Rightarrow> 'a list \<Rightarrow> 'e + unit" where
  "check_all f [] = Inr ()"
| "check_all f (x # xs) = bind_res (f x) (\<lambda>_. check_all f xs)"

definition check_one_nic :: "zone list \<Rightarrow> zone_error + unit" where
  "check_one_nic zones =
     (let nic = map z_name (filter (\<lambda>z. z_network z = Net_Nic) zones);
          routed = list_ex (\<lambda>z. z_network z = Net_Routed) zones in
      if length nic = 1 then Inr ()
      else if length nic = 0 \<and> \<not> routed then Inr ()
      else if length nic = 0 then Inl (Z_Invalid ''no zone holds the physical NIC; routed zones would have no path out'')
      else Inl (Z_Invalid (nat_to_string (length nic) @ '' zones claim the physical NIC ('' @ join '', '' nic
        @ ''); exactly one may. Two paths to the network means no chokepoint.'')))"

fun check_names :: "(string \<Rightarrow> string) \<Rightarrow> zone list \<Rightarrow> string list \<Rightarrow> zone_error + unit" where
  "check_names dbg [] seen = Inr ()"
| "check_names dbg (z # zs) seen =
     (if z_name z \<in> set seen then Inl (Z_Invalid (''duplicate zone name '' @ dbg (z_name z)))
      else check_names dbg zs (z_name z # seen))"

fun check_bases :: "(string \<Rightarrow> string) \<Rightarrow> zone list \<Rightarrow> (nat, string) hmap \<Rightarrow> zone_error + unit" where
  "check_bases dbg [] bases = Inr ()"
| "check_bases dbg (z # zs) bases = (case z_uid_base z of
       None \<Rightarrow> check_bases dbg zs bases
     | Some b \<Rightarrow> (case hm_get bases b of
         Some prev \<Rightarrow> Inl (Z_Invalid (''zones '' @ dbg prev @ '' and '' @ dbg (z_name z) @ '' both declare identity.uid_base = ''
           @ nat_to_string b @ ''; identity ranges must not overlap''))
       | None \<Rightarrow> check_bases dbg zs (hm_insert b (z_name z) bases)))"

fun check_colours :: "(string \<Rightarrow> string) \<Rightarrow> zone list \<Rightarrow> (string, string) hmap \<Rightarrow> zone_error + unit" where
  "check_colours dbg [] colours = Inr ()"
| "check_colours dbg (z # zs) colours = (case hm_get colours (z_border_color z) of
       Some prev \<Rightarrow> Inl (Z_Invalid (''zones '' @ dbg prev @ '' and '' @ dbg (z_name z) @ '' share border_color '' @ z_border_color z
         @ '' - a user could not tell them apart''))
     | None \<Rightarrow> check_colours dbg zs (hm_insert (z_border_color z) (z_name z) colours))"

definition check_invariants :: "(string \<Rightarrow> string) \<Rightarrow> zone list \<Rightarrow> zone_error + unit" where
  "check_invariants dbg zones =
     bind_res (check_all (\<lambda>z. check_all (check_target dbg zones z) (z_transfer_to z)) zones) (\<lambda>_.
     bind_res (check_one_nic zones) (\<lambda>_.
     bind_res (check_names dbg zones []) (\<lambda>_.
     bind_res (check_bases dbg zones []) (\<lambda>_. check_colours dbg zones []))))"

text \<open>
  A file name's extension and stem, split at its last full stop, unless that is its first byte. An
  entry of the directory is an error, or a file name and the file's text or the error reading it.
\<close>

definition split_ext :: "string \<Rightarrow> string \<times> string option" where
  "split_ext f =
     (let ext = rev (takeWhile (\<lambda>b. b \<noteq> CHR ''.'') (rev f));
          stem = take (length f - length ext - 1) f in
      if f = ''..'' \<or> CHR ''.'' \<notin> set f \<or> stem = [] then (f, None) else (stem, Some ext))"

type_synonym dir_entry = "string + string \<times> (string + string)"

fun load_entries :: "(string \<Rightarrow> string) \<Rightarrow> string \<Rightarrow> dir_entry list \<Rightarrow> zone_error + zone list" where
  "load_entries dbg dir [] = Inr []"
| "load_entries dbg dir (e # es) = (case e of
       Inl err \<Rightarrow> Inl (Z_Io err)
     | Inr (f, text) \<Rightarrow>
         if snd (split_ext f) \<noteq> Some ''toml'' then load_entries dbg dir es
         else bind_res (case text of
             Inl err \<Rightarrow> Inl (Z_Io (dir @ ''/'' @ f @ '': '' @ err))
           | Inr t \<Rightarrow> from_str dbg t) (\<lambda>z.
           if fst (split_ext f) \<noteq> z_name z
           then Inl (Z_Invalid (dir @ ''/'' @ f @ '': holds zone '' @ dbg (z_name z) @ ''; a zone's file is named '' @ z_name z @ ''.toml''))
           else bind_res (load_entries dbg dir es) (\<lambda>zs. Inr (z # zs))))"

fun str_le :: "string \<Rightarrow> string \<Rightarrow> bool" where
  "str_le [] t = True"
| "str_le (a # s) [] = False"
| "str_le (a # s) (b # t) \<longleftrightarrow> of_char a < (of_char b :: nat) \<or> a = b \<and> str_le s t"

fun insert_zone :: "zone \<Rightarrow> zone list \<Rightarrow> zone list" where
  "insert_zone z [] = [z]"
| "insert_zone z (x # xs) = (if str_le (z_name z) (z_name x) then z # x # xs else x # insert_zone z xs)"

definition sort_zones :: "zone list \<Rightarrow> zone list" where
  "sort_zones zones = foldr insert_zone zones []"

definition load_all :: "(string \<Rightarrow> string) \<Rightarrow> string \<Rightarrow> string + dir_entry list \<Rightarrow> zone_error + zone list" where
  "load_all dbg dir found = (case found of
       Inl err \<Rightarrow> Inl (Z_Io (dir @ '': '' @ err))
     | Inr entries \<Rightarrow>
         bind_res (load_entries dbg dir entries) (\<lambda>zones.
         let zones = sort_zones zones in
         bind_res (check_invariants dbg zones) (\<lambda>_. Inr zones)))"

end
