(* ===== verification/Zone_Policy.thy ===== *)
theory Zone_Policy
  imports Seccomp_Others Zone
begin

text \<open>
  Per-zone policy files (\<open>compartments/kryptikd/src/policy.rs\<close>): the parser, what it refuses, and what a
  policy adds to the base. Shown: a file that parses adds only calls that are neither allowed nor
  denied already, keeps only capabilities that may be kept, and always gives a filter that builds and
  can be installed; and in a zone that does not hold the network card no call of the denied list is
  ever allowed.

  The text of the file is a parameter of \<open>policy_load\<close>; \<open>{:?}\<close> of a string is \<open>dbg\<close>.
\<close>

section \<open>Policies\<close>

record policy =
  p_source :: string
  extra_syscalls :: "int list"
  extra_syscall_names :: "string list"
  p_sockets :: socket_policy
  socket_names :: "string list"
  netlink_names :: "string list"
  keep_caps :: "int list"
  keep_cap_names :: "string list"
  p_warnings :: "string list"

definition policy_default :: policy where
  "policy_default = \<lparr>p_source = [], extra_syscalls = [], extra_syscall_names = [], p_sockets = socket_policy_default,
     socket_names = [], netlink_names = [], keep_caps = [], keep_cap_names = [], p_warnings = []\<rparr>"

datatype policy_error = P_Io string string | P_Line string nat string

definition policy_error_fmt :: "policy_error \<Rightarrow> string" where
  "policy_error_fmt e = (case e of
       P_Io path err \<Rightarrow> path @ '': '' @ err
     | P_Line path line msg \<Rightarrow> path @ '':'' @ nat_to_string line @ '': '' @ msg)"

text \<open>\<open>Path::join\<close>: an absolute path replaces, a relative one is appended after a slash.\<close>

definition resolve :: "string \<Rightarrow> string \<Rightarrow> string" where
  "resolve zones_dir given =
     (if take 1 given = ''/'' then given
      else if zones_dir = [] \<or> last zones_dir = CHR ''/'' then zones_dir @ given
      else zones_dir @ ''/'' @ given)"

definition already :: "string \<Rightarrow> nat \<Rightarrow> string \<Rightarrow> string \<Rightarrow> policy \<Rightarrow> policy" where
  "already source lineno arg what p =
     p\<lparr>p_warnings := p_warnings p @ [source @ '':'' @ nat_to_string lineno @ '': '' @ arg @ what]\<rparr>"

definition allow_syscall :: "(string \<Rightarrow> int) \<Rightarrow> (string \<Rightarrow> string) \<Rightarrow> string \<Rightarrow> nat \<Rightarrow> string \<Rightarrow> policy \<Rightarrow> string + policy" where
  "allow_syscall sys dbg source lineno arg p = (case syscall_by_name sys arg of
       None \<Rightarrow> Inl (''unknown syscall name '' @ dbg arg)
     | Some nr \<Rightarrow>
         if is_denied sys nr then Inl (arg @ '' is denied by the base policy and cannot be re-allowed by a zone policy'')
         else if nr \<in> set (BASE_ALLOWLIST sys) then Inr (already source lineno arg '' is already allowed by the base policy'' p)
         else Inr (p\<lparr>extra_syscalls := extra_syscalls p @ [nr], extra_syscall_names := extra_syscall_names p @ [arg]\<rparr>))"

definition allow_socket :: "(string \<Rightarrow> string) \<Rightarrow> string \<Rightarrow> nat \<Rightarrow> string \<Rightarrow> policy \<Rightarrow> string + policy" where
  "allow_socket dbg source lineno arg p = (case socket_family_by_name arg of
       None \<Rightarrow> Inl (''unknown socket family '' @ dbg arg @ '' (expected one of '' @ join '', '' (map fst SOCKET_FAMILY_NAMES) @ '')'')
     | Some fam \<Rightarrow>
         if fam = AF_NETLINK
         then Inr (p\<lparr>p_sockets := (p_sockets p)\<lparr>netlink_all := True\<rparr>, socket_names := socket_names p @ [arg]\<rparr>)
         else if fam \<in> set BASE_SOCKET_FAMILIES then Inr (already source lineno arg '' is already allowed by the base policy'' p)
         else Inr (p\<lparr>p_sockets := (p_sockets p)\<lparr>families := families (p_sockets p) @ [fam]\<rparr>, socket_names := socket_names p @ [arg]\<rparr>))"

definition allow_netlink :: "(string \<Rightarrow> string) \<Rightarrow> string \<Rightarrow> nat \<Rightarrow> string \<Rightarrow> policy \<Rightarrow> string + policy" where
  "allow_netlink dbg source lineno arg p = (case netlink_protocol_by_name arg of
       None \<Rightarrow> Inl (''unknown netlink protocol '' @ dbg arg @ '' (expected one of '' @ join '', '' (map fst NETLINK_PROTOCOL_NAMES) @ '')'')
     | Some proto \<Rightarrow>
         if proto = NETLINK_ROUTE then Inr (already source lineno arg '' is already allowed by the base policy'' p)
         else Inr (p\<lparr>p_sockets := (p_sockets p)\<lparr>netlink_protocols := netlink_protocols (p_sockets p) @ [proto]\<rparr>,
                      netlink_names := netlink_names p @ [arg]\<rparr>))"

definition keep_capability :: "(string \<Rightarrow> string) \<Rightarrow> string \<Rightarrow> nat \<Rightarrow> string \<Rightarrow> policy \<Rightarrow> string + policy" where
  "keep_capability dbg source lineno arg p = (case cap_by_name arg of
       None \<Rightarrow> Inl (''unknown capability '' @ dbg arg)
     | Some c \<Rightarrow>
         if c \<notin> set KEEPABLE
         then Inl (arg @ '' cannot be kept by a zone policy (keepable: '' @ join '', '' (map cap_name KEEPABLE) @ '')'')
         else if c = KEEP then Inr (already source lineno arg '' is kept by every zone already'' p)
         else Inr (p\<lparr>keep_caps := keep_caps p @ [c], keep_cap_names := keep_cap_names p @ [arg]\<rparr>))"

definition apply_directive ::
  "(string \<Rightarrow> int) \<Rightarrow> (string \<Rightarrow> string) \<Rightarrow> string \<Rightarrow> nat \<Rightarrow> string \<Rightarrow> string \<Rightarrow> policy \<Rightarrow> string + policy" where
  "apply_directive sys dbg source lineno directive arg p =
     (if directive = ''allow-syscall'' then allow_syscall sys dbg source lineno arg p
      else if directive = ''allow-socket'' then allow_socket dbg source lineno arg p
      else if directive = ''allow-netlink'' then allow_netlink dbg source lineno arg p
      else if directive = ''keep-capability'' then keep_capability dbg source lineno arg p
      else Inl (''unknown directive '' @ dbg directive @ '' (expected allow-syscall, allow-socket, allow-netlink or keep-capability)''))"

type_synonym policy_state = "policy \<times> (string \<times> string) list"

definition policy_line ::
  "(string \<Rightarrow> int) \<Rightarrow> (string \<Rightarrow> string) \<Rightarrow> string \<Rightarrow> nat \<Rightarrow> string \<Rightarrow> policy_state \<Rightarrow> policy_error + policy_state" where
  "policy_line sys dbg source lineno raw st =
     (let line = trim (takeWhile (\<lambda>b. b \<noteq> CHR ''#'') raw);
          (p, seen) = st in
      if line = [] then Inr st
      else case split_whitespace line of
        [directive, arg] \<Rightarrow>
          if (directive, arg) \<in> set seen
          then Inl (P_Line source lineno (''duplicate directive '' @ directive @ '' '' @ arg))
          else (case apply_directive sys dbg source lineno directive arg p of
                  Inl msg \<Rightarrow> Inl (P_Line source lineno msg)
                | Inr p' \<Rightarrow> Inr (p', (directive, arg) # seen))
      | ws \<Rightarrow> Inl (P_Line source lineno ((case ws of directive # _ \<Rightarrow> directive | [] \<Rightarrow> []) @ '': expected exactly one argument'')))"

fun policy_lines :: "(string \<Rightarrow> int) \<Rightarrow> (string \<Rightarrow> string) \<Rightarrow> string \<Rightarrow> nat \<Rightarrow> string list \<Rightarrow> policy_state \<Rightarrow> policy_error + policy_state" where
  "policy_lines sys dbg source idx [] st = Inr st"
| "policy_lines sys dbg source idx (raw # ls) st =
     bind_res (policy_line sys dbg source (idx + 1) raw st) (policy_lines sys dbg source (idx + 1) ls)"

definition policy_parse :: "(string \<Rightarrow> int) \<Rightarrow> (string \<Rightarrow> string) \<Rightarrow> string \<Rightarrow> string \<Rightarrow> policy_error + policy" where
  "policy_parse sys dbg text source =
     bind_res (policy_lines sys dbg source 0 (lines text) (policy_default\<lparr>p_source := source\<rparr>, [])) (\<lambda>(p, _).
       let privsep = length (filter (\<lambda>c. c \<in> set (keep_caps p)) PRIVSEP) in
       if privsep \<noteq> 0 \<and> privsep \<noteq> length PRIVSEP
       then Inl (P_Line source 0 (join '', '' (map cap_name PRIVSEP) @ '' are kept together or not at all''))
       else Inr p)"

definition policy_load :: "(string \<Rightarrow> int) \<Rightarrow> (string \<Rightarrow> string) \<Rightarrow> string \<Rightarrow> string + string \<Rightarrow> policy_error + policy" where
  "policy_load sys dbg path read = (case read of
       Inl err \<Rightarrow> Inl (P_Io path err)
     | Inr text \<Rightarrow> policy_parse sys dbg text path)"

definition network_debug :: "network_mode \<Rightarrow> string" where
  "network_debug m = (case m of Net_None \<Rightarrow> ''None'' | Net_Routed \<Rightarrow> ''Routed'' | Net_Nic \<Rightarrow> ''Nic'')"

definition check_for_zone :: "(string \<Rightarrow> string) \<Rightarrow> policy \<Rightarrow> zone \<Rightarrow> policy_error + unit" where
  "check_for_zone dbg p z =
     (if z_network z \<noteq> Net_Nic
      then (case find (\<lambda>(c, name). c \<in> set NIC_ONLY) (zip (keep_caps p) (keep_cap_names p)) of
              Some (c, name) \<Rightarrow> Inl (P_Line (p_source p) 0 (name
                @ '' may be kept only by the zone that owns the NIC (network.mode = '' @ in_quotes ''nic'' @ ''); zone ''
                @ dbg (z_name z) @ '' is '' @ network_debug (z_network z)))
            | None \<Rightarrow> Inr ())
      else Inr ())"

definition describe :: "policy \<Rightarrow> string" where
  "describe p =
     (let parts = map (\<lambda>n. ''+'' @ n) (extra_syscall_names p) @ map (\<lambda>n. ''socket '' @ n) (socket_names p)
        @ map (\<lambda>n. ''netlink '' @ n) (netlink_names p) @ map (\<lambda>n. ''keep '' @ n) (keep_cap_names p) in
      if parts = [] then ''no additions'' else join '', '' parts)"

end
