(* ===== verification/Policy_Safe.thy ===== *)
theory Policy_Safe
  imports Zone_Policy
begin

text \<open>
  What a policy file can do to a zone: the invariant of the parser of \<open>Zone_Policy\<close>, line by line, and
  its composition with the filter and the denied list of \<open>Seccomp_Safety\<close>.
\<close>

section \<open>The parser's invariant\<close>

text \<open>Values read under one directive, each from its own name, every name seen at most once.\<close>

definition tracks :: "string \<Rightarrow> ('a \<Rightarrow> string \<Rightarrow> bool) \<Rightarrow> 'a list \<Rightarrow> string list \<Rightarrow> (string \<times> string) list \<Rightarrow> bool" where
  "tracks d R vs ns seen \<longleftrightarrow> list_all2 R vs ns \<and> distinct ns \<and> (\<forall>n \<in> set ns. (d, n) \<in> set seen)"

lemma tracks_push:
  "tracks d R vs ns seen \<Longrightarrow> (d, n) \<notin> set seen \<Longrightarrow> R v n \<Longrightarrow> tracks d R (vs @ [v]) (ns @ [n]) ((d, n) # seen)"
  by (auto simp: tracks_def intro: list_all2_appendI)

lemma tracks_seen: "tracks d R vs ns seen \<Longrightarrow> tracks d R vs ns (x # seen)"
  by (auto simp: tracks_def)

lemma tracks_length:
  assumes "tracks d R vs ns seen" "\<And>v n. R v n \<Longrightarrow> n \<in> set names"
  shows "length vs \<le> length names"
proof -
  have "set ns \<subseteq> set names" using assms by (auto simp: tracks_def list_all2_conv_all_nth in_set_conv_nth) metis
  then have "card (set ns) \<le> card (set names)" by (intro card_mono) auto
  then show ?thesis
    using assms(1) card_length [of names] list_all2_lengthD [of R vs ns] by (simp add: tracks_def distinct_card)
qed

definition syscall_entry :: "(string \<Rightarrow> int) \<Rightarrow> int \<Rightarrow> string \<Rightarrow> bool" where
  "syscall_entry sys nr n \<longleftrightarrow> syscall_by_name sys n = Some nr \<and> \<not> is_denied sys nr \<and> nr \<notin> set (BASE_ALLOWLIST sys)"

definition netlink_entry :: "u32 \<Rightarrow> string \<Rightarrow> bool" where
  "netlink_entry pr n \<longleftrightarrow> netlink_protocol_by_name n = Some pr \<and> pr \<noteq> NETLINK_ROUTE"

definition cap_entry :: "int \<Rightarrow> string \<Rightarrow> bool" where
  "cap_entry c n \<longleftrightarrow> cap_by_name n = Some c \<and> c \<in> set KEEPABLE \<and> c \<noteq> KEEP"

definition sockets_inv :: "policy \<Rightarrow> (string \<times> string) list \<Rightarrow> bool" where
  "sockets_inv p seen \<longleftrightarrow> length (families (p_sockets p)) \<le> length (socket_names p)
     \<and> tracks ''allow-socket'' (\<lambda>_ n. socket_family_by_name n \<noteq> None) (socket_names p) (socket_names p) seen
     \<and> (\<forall>f \<in> set (families (p_sockets p)). f \<notin> set BASE_SOCKET_FAMILIES \<and> f \<in> snd ` set SOCKET_FAMILY_NAMES)"

definition policy_inv :: "(string \<Rightarrow> int) \<Rightarrow> policy_state \<Rightarrow> bool" where
  "policy_inv sys st \<longleftrightarrow> (let (p, seen) = st in
     tracks ''allow-syscall'' (syscall_entry sys) (extra_syscalls p) (extra_syscall_names p) seen
     \<and> sockets_inv p seen
     \<and> tracks ''allow-netlink'' netlink_entry (netlink_protocols (p_sockets p)) (netlink_names p) seen
     \<and> tracks ''keep-capability'' cap_entry (keep_caps p) (keep_cap_names p) seen)"

lemma policy_inv_start: "policy_inv sys (policy_default\<lparr>p_source := s\<rparr>, [])"
  by (simp add: policy_inv_def sockets_inv_def tracks_def policy_default_def socket_policy_default_def)

lemma sockets_inv_seen: "sockets_inv p seen \<Longrightarrow> sockets_inv p (x # seen)"
  by (auto simp: sockets_inv_def tracks_def)

lemma policy_inv_seen: "policy_inv sys (p, seen) \<Longrightarrow> policy_inv sys (p, x # seen)"
  by (simp add: policy_inv_def tracks_seen sockets_inv_seen)

lemma policy_inv_already [simp]: "policy_inv sys (already source lineno arg what p, seen) = policy_inv sys (p, seen)"
  by (simp add: policy_inv_def sockets_inv_def already_def)

lemma allow_syscall_inv:
  assumes "allow_syscall sys dbg source lineno arg p = Inr p'" "policy_inv sys (p, seen)" "(''allow-syscall'', arg) \<notin> set seen"
  shows "policy_inv sys (p', (''allow-syscall'', arg) # seen)"
  using assms
  by (auto simp: allow_syscall_def policy_inv_seen split: option.splits if_splits)
     (auto simp: policy_inv_def sockets_inv_def syscall_entry_def tracks_seen intro: tracks_push)

lemma allow_socket_inv:
  assumes "allow_socket dbg source lineno arg p = Inr p'" "policy_inv sys (p, seen)" "(''allow-socket'', arg) \<notin> set seen"
  shows "policy_inv sys (p', (''allow-socket'', arg) # seen)"
proof -
  obtain fam where f: "socket_family_by_name arg = Some fam" using assms(1) by (auto simp: allow_socket_def split: option.splits)
  then have in_table: "fam \<in> snd ` set SOCKET_FAMILY_NAMES" by (force simp: socket_family_by_name_def dest: map_of_SomeD)
  have t: "tracks ''allow-socket'' (\<lambda>_ n. socket_family_by_name n \<noteq> None) (socket_names p @ [arg]) (socket_names p @ [arg]) ((''allow-socket'', arg) # seen)"
    using assms(2,3) f by (intro tracks_push) (simp_all add: policy_inv_def sockets_inv_def)
  show ?thesis
  proof (cases "fam = AF_NETLINK")
    case True
    then have "p' = p\<lparr>p_sockets := (p_sockets p)\<lparr>netlink_all := True\<rparr>, socket_names := socket_names p @ [arg]\<rparr>"
      using assms(1) f by (simp add: allow_socket_def)
    then show ?thesis using assms(2) t by (simp add: policy_inv_def sockets_inv_def tracks_seen)
  next
    case False
    show ?thesis
    proof (cases "fam \<in> set BASE_SOCKET_FAMILIES")
      case True
      then show ?thesis using assms(1,2) f False by (auto simp: allow_socket_def intro: policy_inv_seen)
    next
      case base: False
      then have "p' = p\<lparr>p_sockets := (p_sockets p)\<lparr>families := families (p_sockets p) @ [fam]\<rparr>, socket_names := socket_names p @ [arg]\<rparr>"
        using assms(1) f False by (simp add: allow_socket_def)
      then show ?thesis using assms(2) t base in_table by (auto simp: policy_inv_def sockets_inv_def tracks_seen)
    qed
  qed
qed

lemma allow_netlink_inv:
  assumes "allow_netlink dbg source lineno arg p = Inr p'" "policy_inv sys (p, seen)" "(''allow-netlink'', arg) \<notin> set seen"
  shows "policy_inv sys (p', (''allow-netlink'', arg) # seen)"
  using assms
  by (auto simp: allow_netlink_def policy_inv_seen split: option.splits if_splits)
     (auto simp: policy_inv_def sockets_inv_def netlink_entry_def tracks_seen intro: tracks_push)

lemma keep_capability_inv:
  assumes "keep_capability dbg source lineno arg p = Inr p'" "policy_inv sys (p, seen)" "(''keep-capability'', arg) \<notin> set seen"
  shows "policy_inv sys (p', (''keep-capability'', arg) # seen)"
  using assms
  by (auto simp: keep_capability_def policy_inv_seen split: option.splits if_splits)
     (auto simp: policy_inv_def sockets_inv_def cap_entry_def tracks_seen intro: tracks_push)

lemma apply_directive_inv:
  assumes "apply_directive sys dbg source lineno d arg p = Inr p'" "policy_inv sys (p, seen)" "(d, arg) \<notin> set seen"
  shows "policy_inv sys (p', (d, arg) # seen)"
  using assms allow_syscall_inv allow_socket_inv allow_netlink_inv keep_capability_inv
  unfolding apply_directive_def by (auto split: if_splits)

lemma policy_line_inv:
  assumes "policy_line sys dbg source lineno raw st = Inr st'" "policy_inv sys st"
  shows "policy_inv sys st'"
proof (cases st)
  case (Pair p seen)
  then show ?thesis
    using assms apply_directive_inv by (auto simp: policy_line_def Let_def split: if_splits list.splits sum.splits)
qed

lemma policy_lines_inv: "policy_lines sys dbg source idx ls st = Inr st' \<Longrightarrow> policy_inv sys st \<Longrightarrow> policy_inv sys st'"
  by (induction sys dbg source idx ls st rule: policy_lines.induct) (auto simp: bind_res_eq_Inr policy_line_inv)

section \<open>What a policy adds\<close>

lemma syscall_entry_addable: "syscall_entry sys nr n \<Longrightarrow> n \<in> set ADDABLE_SYS \<and> nr = sys n"
proof -
  assume e: "syscall_entry sys nr n"
  then have "(n, nr) \<in> set (sys_names sys)" by (auto simp: syscall_entry_def syscall_by_name_def dest: map_of_SomeD)
  moreover have "(n, nr) \<notin> set (DENIED_NAMES sys)"
    using e by (auto simp: syscall_entry_def DENIED_NAMES_def is_denied_def list_ex_iff)
  moreover have "(n, nr) \<notin> set (BASE_NAMES sys)"
    using e by (auto simp: syscall_entry_def BASE_NAMES_def BASE_ALLOWLIST_def)
  ultimately show ?thesis by (auto simp: sys_names_def ADDABLE_def)
qed

lemma tracks_values: "tracks d R vs ns seen \<Longrightarrow> v \<in> set vs \<Longrightarrow> \<exists>n. R v n"
  by (auto simp: tracks_def list_all2_conv_all_nth in_set_conv_nth)

lemma addable_count: "length ADDABLE_SYS = 44"
  by (simp add: ADDABLE_SYS_def)

definition policy_ok :: "(string \<Rightarrow> int) \<Rightarrow> policy \<Rightarrow> bool" where
  "policy_ok sys p \<longleftrightarrow>
     set (extra_syscalls p) \<subseteq> sys ` set ADDABLE_SYS \<and> length (extra_syscalls p) \<le> 44
     \<and> list_all (\<lambda>nr. \<not> is_denied sys nr \<and> nr \<notin> set (BASE_ALLOWLIST sys)) (extra_syscalls p)
     \<and> set (families (p_sockets p)) \<subseteq> snd ` set SOCKET_FAMILY_NAMES - set BASE_SOCKET_FAMILIES
     \<and> set (netlink_protocols (p_sockets p)) \<subseteq> snd ` set NETLINK_PROTOCOL_NAMES - {NETLINK_ROUTE}
     \<and> socket_small (p_sockets p)
     \<and> set (keep_caps p) \<subseteq> set KEEPABLE - {KEEP}
     \<and> (set PRIVSEP \<subseteq> set (keep_caps p) \<or> set PRIVSEP \<inter> set (keep_caps p) = {})"

lemma filter_all_or_none:
  "length (filter P xs) = 0 \<or> length (filter P xs) = length xs \<Longrightarrow> list_all P xs \<or> list_all (\<lambda>x. \<not> P x) xs"
  using length_filter_less [of _ xs P] by (fastforce simp: list_all_iff filter_empty_conv)

lemma policy_inv_ok:
  assumes "policy_inv sys (p, seen)" "list_all (\<lambda>c. c \<in> set (keep_caps p)) PRIVSEP \<or> list_all (\<lambda>c. c \<notin> set (keep_caps p)) PRIVSEP"
  shows "policy_ok sys p"
proof -
  have t: "tracks ''allow-syscall'' (syscall_entry sys) (extra_syscalls p) (extra_syscall_names p) seen" "sockets_inv p seen"
    "tracks ''allow-netlink'' netlink_entry (netlink_protocols (p_sockets p)) (netlink_names p) seen"
    "tracks ''keep-capability'' cap_entry (keep_caps p) (keep_cap_names p) seen"
    using assms(1) by (simp_all add: policy_inv_def)
  have calls: "nr \<in> sys ` set ADDABLE_SYS \<and> \<not> is_denied sys nr \<and> nr \<notin> set (BASE_ALLOWLIST sys)" if "nr \<in> set (extra_syscalls p)" for nr
    using tracks_values [OF t(1) that] syscall_entry_addable by (auto simp: syscall_entry_def)
  have ncalls: "length (extra_syscalls p) \<le> 44"
    using tracks_length [OF t(1), of ADDABLE_SYS] syscall_entry_addable by (auto simp: addable_count)
  have protos: "pr \<in> snd ` set NETLINK_PROTOCOL_NAMES - {NETLINK_ROUTE}" if "pr \<in> set (netlink_protocols (p_sockets p))" for pr
    using tracks_values [OF t(3) that] by (force simp: netlink_entry_def netlink_protocol_by_name_def dest: map_of_SomeD)
  have nprotos: "length (netlink_protocols (p_sockets p)) \<le> length (map fst NETLINK_PROTOCOL_NAMES)"
    by (rule tracks_length [OF t(3)]) (force simp: netlink_entry_def netlink_protocol_by_name_def dest: map_of_SomeD)
  have nnames: "length (socket_names p) \<le> length (map fst SOCKET_FAMILY_NAMES)"
    by (rule tracks_length [OF conjunct1 [OF conjunct2 [OF t(2) [unfolded sockets_inv_def]]]])
       (force simp: socket_family_by_name_def dest: map_of_SomeD)
  have small: "socket_small (p_sockets p)"
    using nprotos nnames t(2)
    by (simp add: socket_small_def sockets_inv_def SOCKET_FAMILY_NAMES_def NETLINK_PROTOCOL_NAMES_def)
  have caps: "c \<in> set KEEPABLE - {KEEP}" if "c \<in> set (keep_caps p)" for c
    using tracks_values [OF t(4) that] by (auto simp: cap_entry_def)
  show ?thesis
    unfolding policy_ok_def
    using calls ncalls protos small caps assms(2) t(2) by (fastforce simp: list_all_iff sockets_inv_def)
qed

lemma parsed_policy_ok:
  assumes "policy_parse sys dbg text source = Inr p"
  shows "policy_ok sys p"
proof -
  obtain seen where l: "policy_lines sys dbg source 0 (lines text) (policy_default\<lparr>p_source := source\<rparr>, []) = Inr (p, seen)"
    and c: "length (filter (\<lambda>c. c \<in> set (keep_caps p)) PRIVSEP) = 0 \<or> length (filter (\<lambda>c. c \<in> set (keep_caps p)) PRIVSEP) = length PRIVSEP"
    using assms by (auto simp: policy_parse_def bind_res_eq_Inr Let_def split: if_splits)
  show ?thesis
    by (rule policy_inv_ok [OF policy_lines_inv [OF l policy_inv_start] filter_all_or_none [OF c]])
qed

text \<open>
  C30: What a policy file can add. A file that parses adds only system calls of the addable list,
  none of them denied and none allowed already; socket families and netlink protocols of the tables
  beyond the base ones; and keeps only keepable capabilities, the three of privilege separation
  together or not at all.
\<close>

theorem policy_file_adds:
  assumes "policy_parse sys dbg text source = Inr p"
  shows "policy_ok sys p"
  using assms by (rule parsed_policy_ok)

section \<open>A policy's filter\<close>

lemma in_range_sys: "sys_ok sys \<Longrightarrow> n \<in> set SYS_NAMES \<Longrightarrow> in_range (sys n)"
  by (rule sys_range(1))

lemma length_push_new: "length (push_new allow nr) \<le> Suc (length allow)"
  by (simp add: push_new_def)

lemma length_foldl_push: "length (foldl push_new allow nrs) \<le> length allow + length nrs"
proof (induction nrs arbitrary: allow)
  case (Cons nr nrs)
  show ?case using Cons.IH [of "push_new allow nr"] length_push_new [of allow nr] by simp
qed simp

lemma widen_total: "list_all (\<lambda>nr. \<not> is_denied sys nr) extra \<Longrightarrow> widen sys extra allow = Inr (foldl push_new allow extra)"
  by (induction extra arbitrary: allow) auto

lemma policy_allowlist:
  assumes "sys_ok sys" "policy_ok sys p"
  obtains allow where "widened_for sys (extra_syscalls p) (keep_caps p) = Inr allow" "list_all in_range allow" "length allow \<le> 1850"
proof -
  let ?a = "foldl push_new (BASE_ALLOWLIST sys) (extra_syscalls p)"
  have w: "widened sys (extra_syscalls p) = Inr ?a"
    using assms(2) by (simp add: widened_def policy_ok_def list_all_iff widen_total)
  obtain allow where allow: "widened_for sys (extra_syscalls p) (keep_caps p) = Inr allow"
    and len: "length allow \<le> length ?a + 5"
  proof
    let ?k = "keep_caps p"
    show "widened_for sys (extra_syscalls p) ?k = Inr (foldl (\<lambda>allow (c, calls). if c \<in> set ?k then foldl push_new allow (map sys calls) else allow) ?a CAP_CALLS)"
      by (simp add: widened_for_def w)
    have "length (foldl (\<lambda>allow (c, calls). if c \<in> set ?k then foldl push_new allow (map sys calls) else allow) a cs)
        \<le> length a + sum_list (map (\<lambda>(c, calls). length calls) cs)" for a cs
    proof (induction cs arbitrary: a)
      case (Cons x cs)
      obtain c calls where x: "x = (c, calls)" by force
      let ?a' = "if c \<in> set ?k then foldl push_new a (map sys calls) else a"
      have "length ?a' \<le> length a + length calls" using length_foldl_push [of a "map sys calls"] by simp
      then show ?case using Cons.IH [of ?a'] x by simp
    qed simp
    from this [of ?a CAP_CALLS]
    show "length (foldl (\<lambda>allow (c, calls). if c \<in> set ?k then foldl push_new allow (map sys calls) else allow) ?a CAP_CALLS) \<le> length ?a + 5"
      by (simp add: CAP_CALLS_def)
  qed
  have "length ?a \<le> 216 + 44"
    using length_foldl_push [of "BASE_ALLOWLIST sys" "extra_syscalls p"] assms(2)
    by (simp add: policy_ok_def BASE_ALLOWLIST_def BASE_SYS_def)
  moreover have "in_range nr" if "nr \<in> set allow" for nr
  proof -
    have names: "n \<in> set SYS_NAMES" if "n \<in> set BASE_SYS \<union> set ADDABLE_SYS \<union> opened (keep_caps p)" for n
      using that in_SYS_NAMES cap_calls_denied by (auto simp: opened_def split: if_splits)
    have "nr = SYS_MAP_SHADOW_STACK \<or> (\<exists>n \<in> set BASE_SYS \<union> set ADDABLE_SYS \<union> opened (keep_caps p). nr = sys n)"
      using \<open>nr \<in> set allow\<close> widened_for_ok(1) [OF allow] assms(2) by (auto simp: BASE_ALLOWLIST_def policy_ok_def)
    then show ?thesis
      using names sys_range(1) [OF assms(1)] by (auto simp: in_range_def SYS_MAP_SHADOW_STACK_def)
  qed
  ultimately show thesis using that [OF allow] len by (simp add: list_all_iff)
qed

text \<open>
  C29: A policy file that parses can be installed. Whatever it says, the filter it widens is built,
  without a panic and within the kernel's limit, and where the kernel takes filters the zone is
  confined by it.
\<close>

theorem policy_file_installs:
  assumes "sys_ok sys" "policy_parse sys dbg text source = Inr p" "an_nnp an = None" "an_seccomp an = Inr 0"
  shows "\<exists>f. confine_zone_with sys True an (extra_syscalls p) (p_sockets p) (keep_caps p) pr =
      (None, pr\<lparr>no_new_privs := True, filters := f # filters pr\<rparr>) \<and> length f \<le> 4096"
proof -
  have ok: "policy_ok sys p" by (rule parsed_policy_ok [OF assms(2)])
  then have small: "socket_small (p_sockets p)" by (simp add: policy_ok_def)
  obtain allow where a: "widened_for sys (extra_syscalls p) (keep_caps p) = Inr allow" "list_all in_range allow" "length allow \<le> 1850"
    by (rule policy_allowlist [OF assms(1) ok])
  obtain f where f: "build_program_full sys allow SECCOMP_RET_KILL_PROCESS (p_sockets p) = Inr f" "length f \<le> 4096"
    by (rule build_cases [OF small, of allow sys SECCOMP_RET_KILL_PROCESS]) (use a in \<open>auto simp: find_Some_iff list_all_iff\<close>)
  show ?thesis
    by (rule exI [of _ f])
       (simp add: confine_zone_with_def install_with_def attach_def unit_result_def a(1) f assms(3,4))
qed

lemma checked_caps:
  assumes "check_for_zone dbg p z = Inr u" "z_network z \<noteq> Net_Nic" "length (keep_caps p) = length (keep_cap_names p)"
  shows "set (keep_caps p) \<inter> set NIC_ONLY = {}"
proof -
  have n: "c \<notin> set NIC_ONLY" if "(c, n) \<in> set (zip (keep_caps p) (keep_cap_names p))" for c n
    using assms(1,2) that by (auto simp: check_for_zone_def find_None_iff split: option.splits prod.splits)
  have "\<exists>n. (c, n) \<in> set (zip (keep_caps p) (keep_cap_names p))" if "c \<in> set (keep_caps p)" for c
    using that assms(3) in_set_impl_in_set_zip1 [of "keep_caps p" "keep_cap_names p" c] by blast
  then show ?thesis using n by blast
qed

lemma parsed_cap_names:
  assumes "policy_parse sys dbg text source = Inr p"
  shows "length (keep_caps p) = length (keep_cap_names p)"
proof -
  obtain seen where "policy_lines sys dbg source 0 (lines text) (policy_default\<lparr>p_source := source\<rparr>, []) = Inr (p, seen)"
    using assms by (auto simp: policy_parse_def bind_res_eq_Inr Let_def split: if_splits)
  then have "policy_inv sys (p, seen)" by (rule policy_lines_inv [OF _ policy_inv_start])
  then show ?thesis by (auto simp: policy_inv_def tracks_def dest: list_all2_lengthD)
qed

text \<open>
  C11: No policy opens a denied call. In a zone that does not hold the network card, whose policy
  file parses and passes the zone's check, the filter that confines it allows no call of the denied
  list at all.
\<close>

theorem policy_never_opens_denied:
  assumes "sys_ok sys" "policy_parse sys dbg text source = Inr p" "check_for_zone dbg p z = Inr ()" "z_network z \<noteq> Net_Nic"
    and "confine_zone_with sys x86 an (extra_syscalls p) (p_sockets p) (keep_caps p) pr = (None, pr')"
    and "n \<in> set DENIED_SYS" "sd_nr c = word_of_int (sys n)"
  shows "\<exists>f a. filters pr' = f # filters pr \<and> evaluate_args f c = Some a \<and> a \<noteq> SECCOMP_RET_ALLOW"
proof -
  have small: "socket_small (p_sockets p)" using parsed_policy_ok [OF assms(2)] by (simp add: policy_ok_def)
  have "set (keep_caps p) \<inter> set NIC_ONLY = {}" by (rule checked_caps [OF assms(3,4) parsed_cap_names [OF assms(2)]])
  then have "n \<notin> opened (keep_caps p)" by (auto simp: opened_def CAP_CALLS_def NIC_ONLY_def split: if_splits)
  then show ?thesis by (rule denied_refused [OF assms(1,5) small assms(6) _ assms(7)])
qed

section \<open>At a concrete policy\<close>

definition demo_policy :: string where
  "demo_policy = ''# a camera zone'' @ [CHR 0x0A] @ ''allow-socket AF_VSOCK'' @ [CHR 0x0A] @ ''keep-capability CAP_KILL'' @ [CHR 0x0A]"

definition demo_zone :: zone where
  "demo_zone = \<lparr>z_name = ''dev'', z_description = [], z_network = Net_Routed, z_nic = None, z_local = False, z_storage = Persistent,
     z_volume = None, z_seccomp = None, z_landlock = None, z_size = None, z_memory_max = None, z_pids_max = None, z_cpu_max = None,
     z_io_max = None, z_border_color = ''#aa0000'', z_border_pattern = None, z_glyph = None, z_label = None, z_uid_base = None,
     z_transfer_to = [], z_transfer_max = None, z_images = [], z_sound = True, z_removable = True, z_camera = True, z_hold_awake = False\<rparr>"

lemma demo_policy_parses:
  obtains p where "policy_parse x86_64 in_quotes demo_policy ''dev.policy'' = Inr p" "keep_caps p = [5]" "keep_cap_names p = [''CAP_KILL'']"
proof -
  have "case policy_parse x86_64 in_quotes demo_policy ''dev.policy'' of
      Inr p \<Rightarrow> keep_caps p = [5] \<and> keep_cap_names p = [''CAP_KILL''] | Inl _ \<Rightarrow> False"
    by code_simp
  then show thesis using that by (auto split: sum.splits)
qed

theorem policy_file_adds_witness:
  "\<exists>p. policy_parse x86_64 in_quotes demo_policy ''dev.policy'' = Inr p \<and> keep_caps p = [5] \<and> policy_ok x86_64 p"
proof -
  obtain p where "policy_parse x86_64 in_quotes demo_policy ''dev.policy'' = Inr p" "keep_caps p = [5]"
    by (rule demo_policy_parses)
  then show ?thesis using policy_file_adds by (intro exI [of _ p]) simp
qed

theorem policy_file_installs_witness:
  "\<exists>p f. policy_parse x86_64 in_quotes demo_policy ''dev.policy'' = Inr p
    \<and> confine_zone_with x86_64 True demo_answers (extra_syscalls p) (p_sockets p) (keep_caps p) demo_process =
        (None, demo_process\<lparr>no_new_privs := True, filters := f # filters demo_process\<rparr>)
    \<and> length f \<le> 4096"
proof -
  obtain p where p: "policy_parse x86_64 in_quotes demo_policy ''dev.policy'' = Inr p" by (rule demo_policy_parses)
  show ?thesis
    using policy_file_installs [OF x86_64_ok p, of demo_answers demo_process] p by (simp add: demo_answers_def)
qed

theorem policy_never_opens_denied_witness:
  "\<exists>p f a. policy_parse x86_64 in_quotes demo_policy ''dev.policy'' = Inr p \<and> check_for_zone in_quotes p demo_zone = Inr ()
    \<and> evaluate_args f (demo_call (x86_64 ''mount'') 0) = Some a \<and> a \<noteq> SECCOMP_RET_ALLOW"
proof -
  obtain p where p: "policy_parse x86_64 in_quotes demo_policy ''dev.policy'' = Inr p" "keep_caps p = [5]" "keep_cap_names p = [''CAP_KILL'']"
    by (rule demo_policy_parses)
  have c: "check_for_zone in_quotes p demo_zone = Inr ()"
    by (simp add: check_for_zone_def demo_zone_def p NIC_ONLY_def cap_defs)
  have small: "socket_small (p_sockets p)" using parsed_policy_ok [OF p(1)] by (simp add: policy_ok_def)
  obtain allow where a: "widened_for x86_64 (extra_syscalls p) (keep_caps p) = Inr allow" "list_all in_range allow" "length allow \<le> 1850"
    by (rule policy_allowlist [OF x86_64_ok parsed_policy_ok [OF p(1)]])
  obtain f where f: "build_program_full x86_64 allow SECCOMP_RET_KILL_PROCESS (p_sockets p) = Inr f"
    by (rule build_cases [OF small, of allow x86_64 SECCOMP_RET_KILL_PROCESS]) (use a in \<open>auto simp: find_Some_iff list_all_iff\<close>)
  have conf: "confine_zone_with x86_64 True demo_answers (extra_syscalls p) (p_sockets p) (keep_caps p) demo_process =
      (None, demo_process\<lparr>no_new_privs := True, filters := [f]\<rparr>)"
    by (simp add: confine_zone_with_def install_with_def attach_def unit_result_def a(1) f demo_answers_def demo_process_def)
  have "\<exists>g a. filters (demo_process\<lparr>no_new_privs := True, filters := [f]\<rparr>) = g # filters demo_process
      \<and> evaluate_args g (demo_call (x86_64 ''mount'') 0) = Some a \<and> a \<noteq> SECCOMP_RET_ALLOW"
    by (rule policy_never_opens_denied [OF x86_64_ok p(1) c _ conf, of "''mount''"])
       (simp_all add: demo_zone_def DENIED_RATIONALE_def demo_call_def)
  then show ?thesis using p(1) c by (auto simp: demo_process_def)
qed

end
