(* ===== verification/Zone_Inv.thy ===== *)
theory Zone_Inv
  imports Zone
begin

text \<open>
  What a zone read from its file is, and what the set of zones is (\<open>compartments/kryptikd/src/zone.rs\<close>):
  a zone file that is accepted gives a well-formed zone, and a directory that is loaded gives zones
  that cannot be mistaken for one another, with one way to the network at most.
\<close>

section \<open>Helpers\<close>

lemma require_Inr [simp]: "require b e = Inr u \<longleftrightarrow> b"
  by (simp add: require_def)

lemma need_Inr [simp]: "need kv k = Inr v \<longleftrightarrow> hm_get kv k = Some v"
  by (simp add: need_def ok_or_eq_Inr)

lemma check_value_Inr [simp]: "check_value kv k ok e = Inr u \<longleftrightarrow> (\<forall>v. hm_get kv k = Some v \<longrightarrow> ok v)"
  by (auto simp: check_value_def split: option.split)

lemma check_all_Inr [simp]: "check_all f xs = Inr u \<longleftrightarrow> list_all (\<lambda>x. f x = Inr ()) xs"
  by (induction xs) (auto simp: bind_res_eq_Inr)

lemma parse_size_bounds: "parse_size s = Some n \<Longrightarrow> 0 < n \<and> n < 2 ^ 64"
  by (auto simp: parse_size_def Let_def split: if_splits prod.splits option.splits)

lemma parse_cpu_max_bounds: "parse_cpu_max s = Some n \<Longrightarrow> 0 < n \<and> n < 2 ^ 32"
  by (auto simp: parse_cpu_max_def split: if_splits option.splits dest: parse_uint_less)

lemma parse_bounded [simp]:
  "(\<exists>n. parse_size s = Some n \<and> 0 < n \<and> n < 2 ^ 64) \<longleftrightarrow> parse_size s \<noteq> None"
  "(\<exists>n. parse_cpu_max s = Some n \<and> 0 < n \<and> n < 2 ^ 32) \<longleftrightarrow> parse_cpu_max s \<noteq> None"
  using parse_size_bounds [of s] parse_cpu_max_bounds [of s] by blast+

section \<open>A well-formed zone\<close>

definition limits_ok :: "zone \<Rightarrow> bool" where
  "limits_ok z \<longleftrightarrow>
     (\<forall>m. z_memory_max z = Some m \<longrightarrow> (\<exists>n. parse_size m = Some n \<and> 0 < n \<and> n < 2 ^ 64))
     \<and> (\<forall>p. z_pids_max z = Some p \<longrightarrow> 0 < p \<and> p < 2 ^ 32)
     \<and> (\<forall>c. z_cpu_max z = Some c \<longrightarrow> (\<exists>n. parse_cpu_max c = Some n \<and> 0 < n \<and> n < 2 ^ 32))
     \<and> (\<forall>i. z_io_max z = Some i \<longrightarrow> z_storage z = Encrypted \<and> (\<exists>n. parse_size i = Some n \<and> 0 < n \<and> n < 2 ^ 64))"

definition storage_ok :: "zone \<Rightarrow> bool" where
  "storage_ok z \<longleftrightarrow> (case z_storage z of
       Encrypted \<Rightarrow> z_volume z \<noteq> None \<and> z_size z = None
     | Persistent \<Rightarrow> z_volume z = None \<and> z_size z = None
     | Ephemeral \<Rightarrow> (\<exists>v n. z_size z = Some v \<and> parse_size v = Some n \<and> 0 < n
         \<and> (\<forall>m mm. z_memory_max z = Some m \<and> parse_size m = Some mm \<longrightarrow> n \<le> mm)))"

definition devices_ok :: "zone \<Rightarrow> bool" where
  "devices_ok z \<longleftrightarrow>
     (z_network z = Net_Nic \<longrightarrow> \<not> z_sound z \<and> \<not> z_removable z \<and> \<not> z_camera z \<and> \<not> z_hold_awake z)
     \<and> (\<forall>n. z_nic z = Some n \<longrightarrow> z_network z = Net_Nic \<and> nic_name_ok n)
     \<and> (z_local z \<longrightarrow> z_network z = Net_Routed)"

definition sharing_ok :: "zone \<Rightarrow> bool" where
  "sharing_ok z \<longleftrightarrow>
     distinct (z_transfer_to z) \<and> z_name z \<notin> set (z_transfer_to z) \<and> list_all (list_all name_byte) (z_transfer_to z)
     \<and> (\<forall>m. z_transfer_max z = Some m \<longrightarrow> 1 \<le> m \<and> m \<le> TRANSFER_MAX)
     \<and> distinct (z_images z) \<and> list_all valid_name (z_images z)"

definition identity_ok :: "zone \<Rightarrow> bool" where
  "identity_ok z \<longleftrightarrow>
     z_name z \<noteq> [] \<and> length (z_name z) \<le> 12 \<and> list_all name_byte (z_name z)
     \<and> (\<forall>b. z_uid_base z = Some b \<longrightarrow> uid_base_ok b)
     \<and> length (z_border_color z) = 7 \<and> take 1 (z_border_color z) = ''#''
     \<and> list_all (\<lambda>b. is_ascii_hexdigit b \<and> \<not> is_ascii_uppercase b) (drop 1 (z_border_color z))"

definition zone_wf :: "zone \<Rightarrow> bool" where
  "zone_wf z \<longleftrightarrow> identity_ok z \<and> devices_ok z \<and> storage_ok z \<and> limits_ok z \<and> sharing_ok z"

lemma transfer_names_ok:
  assumes "transfer_names dbg name v ns out = Inr out'" "distinct out" "name \<notin> set out" "list_all (list_all name_byte) out"
  shows "distinct out' \<and> name \<notin> set out' \<and> list_all (list_all name_byte) out'"
  using assms
  by (induction dbg name v ns out rule: transfer_names.induct) (auto simp: all_chars_bytes split: if_splits)

lemma image_names_ok:
  assumes "image_names dbg name v ns out = Inr out'" "distinct out" "list_all valid_name out"
  shows "distinct out' \<and> list_all valid_name out'"
  using assms by (induction dbg name v ns out rule: image_names.induct) (auto split: if_splits)

lemma lower_not_upper: "list_all (\<lambda>b. \<not> is_ascii_uppercase b) (to_ascii_lowercase s)"
proof -
  have "\<not> is_ascii_uppercase (if is_ascii_uppercase b then char_of (of_char b + 32 :: nat) else b)" for b
    by (auto simp: is_ascii_uppercase_def byte_in_def)
  then show ?thesis unfolding to_ascii_lowercase_def by (induction s) (simp_all del: if_split)
qed

text \<open>The readers, one by one.\<close>

lemma read_device_ok: "read_device dbg kv name network key why = Inr d \<Longrightarrow> network = Net_Nic \<Longrightarrow> \<not> d"
  by (auto simp: read_device_def split: option.splits if_splits)

lemma zone_of_parts:
  assumes "zone_of dbg kv name network storage pids_max = Inr z"
  shows "z_name z = name \<and> z_network z = network \<and> z_storage z = storage \<and> z_pids_max z = pids_max
    \<and> z_size z = hm_get kv ''storage.size'' \<and> z_memory_max z = hm_get kv ''limits.memory_max''
    \<and> z_cpu_max z = hm_get kv ''limits.cpu_max'' \<and> z_io_max z = hm_get kv ''limits.io_max''
    \<and> devices_ok z \<and> sharing_ok z \<and> (\<forall>b. z_uid_base z = Some b \<longrightarrow> uid_base_ok b)
    \<and> list_all (\<lambda>b. \<not> is_ascii_uppercase b) (z_border_color z)"
proof -
  obtain uid_base local sound removable camera hold_awake transfer_to transfer_max images border_color where
    r: "read_uid_base kv = Inr uid_base" "check_nic dbg kv name network = Inr ()" "read_local dbg kv name network = Inr local"
      "read_device dbg kv name network ''sound.play'' ''the nic zone plays no sound'' = Inr sound"
      "read_device dbg kv name network ''storage.removable'' ''the nic zone is given no USB stick'' = Inr removable"
      "read_device dbg kv name network ''camera.use'' ''the nic zone is given no camera'' = Inr camera"
      "read_hold_awake dbg kv name network = Inr hold_awake" "read_transfer_to dbg kv name = Inr transfer_to"
      "read_transfer_max kv = Inr transfer_max" "read_images dbg kv name = Inr images"
    and z: "z_name z = name" "z_network z = network" "z_storage z = storage" "z_pids_max z = pids_max"
      "z_size z = hm_get kv ''storage.size''" "z_memory_max z = hm_get kv ''limits.memory_max''"
      "z_cpu_max z = hm_get kv ''limits.cpu_max''" "z_io_max z = hm_get kv ''limits.io_max''"
      "z_nic z = hm_get kv ''network.nic''" "z_local z = local" "z_sound z = sound" "z_removable z = removable"
      "z_camera z = camera" "z_hold_awake z = hold_awake" "z_transfer_to z = transfer_to" "z_transfer_max z = transfer_max"
      "z_images z = images" "z_uid_base z = uid_base" "z_border_color z = to_ascii_lowercase border_color"
    using assms by (auto simp: zone_of_def bind_res_eq_Inr)
  have "devices_ok z"
    using r(2,3,7) read_device_ok [OF r(4)] read_device_ok [OF r(5)] read_device_ok [OF r(6)]
    by (auto simp: devices_ok_def z check_nic_def read_local_def read_hold_awake_def bind_res_eq_Inr
        split: option.splits if_splits)
  moreover have "sharing_ok z"
    using r(8,9,10) transfer_names_ok [of dbg name _ _ "[]"] image_names_ok [of dbg name _ _ "[]"]
    by (auto simp: sharing_ok_def z read_transfer_to_def read_transfer_max_def read_images_def bind_res_eq_Inr Let_def
        split: option.splits if_splits)
  moreover have "uid_base_ok b" if "z_uid_base z = Some b" for b
    using r(1) that by (auto simp: z read_uid_base_def split: option.splits if_splits)
  ultimately show ?thesis by (simp add: z lower_not_upper)
qed

lemma validate_ok:
  assumes "validate dbg z = Inr u"
  shows "z_name z \<noteq> [] \<and> length (z_name z) \<le> 12 \<and> list_all name_byte (z_name z)
    \<and> (z_storage z = Encrypted \<longrightarrow> z_volume z \<noteq> None) \<and> (z_storage z = Persistent \<longrightarrow> z_volume z = None)
    \<and> length (z_border_color z) = 7 \<and> take 1 (z_border_color z) = ''#''
    \<and> list_all is_ascii_hexdigit (drop 1 (z_border_color z))"
  using assms by (auto simp: validate_def Let_def bind_res_eq_Inr all_chars_bytes is_hex_colour_def)

lemma zone_from_str_wf:
  assumes "from_str dbg text = Inr z"
  shows "zone_wf z"
proof -
  obtain kv name network storage pids_max where
    r: "read_pids_max kv = Inr pids_max" "check_limits dbg kv name storage = Inr ()" "check_size dbg kv name storage = Inr ()"
      "zone_of dbg kv name network storage pids_max = Inr z" "validate dbg z = Inr ()"
    using assms by (auto simp: from_str_def bind_res_eq_Inr)
  note p = zone_of_parts [OF r(4)] and v = validate_ok [OF r(5)]
  have "limits_ok z"
    unfolding limits_ok_def parse_bounded
    using r(1,2) p parse_uint_less [of 32] by (auto simp: check_limits_def read_pids_max_def bind_res_eq_Inr
        split: option.splits if_splits)
  moreover have "storage_ok z"
    using r(3) p v parse_size_bounds by (auto simp: storage_ok_def check_size_def
        split: storage_mode.splits option.splits)
  moreover have "identity_ok z" using p v by (auto simp: identity_ok_def list_all_iff dest: in_set_dropD)
  ultimately show ?thesis using p by (simp add: zone_wf_def)
qed

text \<open>
  C36: A zone file that is accepted gives a well-formed zone. Its name is 1 to 12 lower-case letters,
  digits or dashes; its colour is a lower-case #rrggbb; its uid base is aligned, high enough and has
  room for the whole range. A zone that holds the network card plays no sound, gets no stick and no
  camera and holds no screen awake; only it names an interface, and only a routed zone is local. A
  volume goes with an encrypted zone, a size with an ephemeral one, positive and within the memory
  limit, and neither with a persistent one. Every limit is positive and fits its width; the zones it
  sends to are different, well-named and not itself.
\<close>

theorem zone_file_well_formed:
  assumes "from_str dbg text = Inr z"
  shows "zone_wf z"
  using assms by (rule zone_from_str_wf)

section \<open>The set of zones\<close>

definition uid_range :: "zone \<Rightarrow> nat set" where
  "uid_range z = (case z_uid_base z of Some b \<Rightarrow> {b ..< b + IDENTITY_STRIDE} | None \<Rightarrow> {})"

definition zones_ok :: "zone list \<Rightarrow> bool" where
  "zones_ok zones \<longleftrightarrow>
     list_all zone_wf zones \<and> sorted_wrt (\<lambda>a b. str_le (z_name a) (z_name b)) zones
     \<and> distinct (map z_name zones) \<and> distinct (map z_border_color zones)
     \<and> (\<forall>i < length zones. \<forall>j < i. uid_range (zones ! i) \<inter> uid_range (zones ! j) = {})
     \<and> length (filter (\<lambda>z. z_network z = Net_Nic) zones) \<le> 1
     \<and> (list_ex (\<lambda>z. z_network z = Net_Routed) zones \<longrightarrow> list_ex (\<lambda>z. z_network z = Net_Nic) zones)
     \<and> (\<forall>z \<in> set zones. \<forall>d \<in> set (z_transfer_to z). \<exists>t \<in> set zones. z_name t = d \<and> t \<noteq> z \<and> z_network t \<noteq> Net_Nic)"

lemma check_names_ok: "check_names dbg zs seen = Inr u \<Longrightarrow> distinct (map z_name zs) \<and> set (map z_name zs) \<inter> set seen = {}"
  by (induction dbg zs seen rule: check_names.induct) (auto split: if_splits)

lemma check_colours_ok:
  "check_colours dbg zs colours = Inr u \<Longrightarrow> distinct (map z_border_color zs) \<and> set (map z_border_color zs) \<inter> fst ` set colours = {}"
  by (induction dbg zs colours rule: check_colours.induct) (auto split: option.splits simp: map_of_eq_None_iff dom_update)

definition bases_of :: "zone list \<Rightarrow> nat list" where
  "bases_of zs = concat (map (\<lambda>z. case z_uid_base z of Some b \<Rightarrow> [b] | None \<Rightarrow> []) zs)"

lemma check_bases_ok:
  "check_bases dbg zs bases = Inr u \<Longrightarrow> distinct (bases_of zs) \<and> set (bases_of zs) \<inter> fst ` set bases = {}"
  by (induction dbg zs bases rule: check_bases.induct) (auto split: option.splits simp: bases_of_def map_of_eq_None_iff dom_update)

lemma bases_apart:
  assumes "distinct (bases_of zs)" "i < length zs" "j < i" "z_uid_base (zs ! i) = Some a" "z_uid_base (zs ! j) = Some b"
  shows "a \<noteq> b"
  using assms
proof (induction zs arbitrary: i j)
  case (Cons z zs)
  have in_bases: "a \<in> set (bases_of zs)" if "k < length zs" "z_uid_base (zs ! k) = Some a" for k a
    using that by (auto simp: bases_of_def intro!: bexI [of _ "zs ! k"])
  obtain i' where i: "i = Suc i'" using Cons.prems(3) by (cases i) auto
  show ?case
  proof (cases j)
    case 0
    then show ?thesis using Cons.prems i in_bases [of i' a] by (auto simp: bases_of_def)
  next
    case (Suc j')
    then show ?thesis using Cons.IH [of i' j'] Cons.prems i by (simp add: bases_of_def split: option.splits)
  qed
qed simp

text \<open>Aligned bases are a whole range apart.\<close>

lemma ranges_disjoint:
  assumes "uid_base_ok a" "uid_base_ok b" "a \<noteq> b"
  shows "{a ..< a + IDENTITY_STRIDE} \<inter> {b ..< b + IDENTITY_STRIDE} = {}"
proof -
  obtain k where k: "a = IDENTITY_STRIDE * k" using assms(1) by (auto simp: uid_base_ok_def mod_eq_0_iff_dvd)
  obtain l where l: "b = IDENTITY_STRIDE * l" using assms(2) by (auto simp: uid_base_ok_def mod_eq_0_iff_dvd)
  have "k < l \<Longrightarrow> a + IDENTITY_STRIDE \<le> b" "l < k \<Longrightarrow> b + IDENTITY_STRIDE \<le> a"
    by (auto simp: k l IDENTITY_STRIDE_def)
  moreover have "k \<noteq> l" using assms(3) k l by auto
  ultimately show ?thesis by fastforce
qed

lemma set_insert_zone [simp]: "set (insert_zone z xs) = insert z (set xs)"
  by (induction xs) auto

lemma set_sort_zones [simp]: "set (sort_zones zs) = set zs"
  by (induction zs) (auto simp: sort_zones_def)

lemma str_le_total: "str_le s t \<or> str_le t s"
  by (induction s t rule: str_le.induct) auto

lemma str_le_trans: "str_le s t \<Longrightarrow> str_le t u \<Longrightarrow> str_le s u"
proof (induction s t arbitrary: u rule: str_le.induct)
  case (3 a s b t)
  then show ?case by (cases u) auto
qed auto

lemma sorted_insert_zone:
  "sorted_wrt (\<lambda>a b. str_le (z_name a) (z_name b)) xs \<Longrightarrow> sorted_wrt (\<lambda>a b. str_le (z_name a) (z_name b)) (insert_zone z xs)"
  by (induction xs) (use str_le_total in \<open>auto intro: str_le_trans\<close>)

lemma sorted_sort_zones: "sorted_wrt (\<lambda>a b. str_le (z_name a) (z_name b)) (sort_zones zs)"
  by (induction zs) (auto simp: sort_zones_def sorted_insert_zone)

lemma load_entries_wf: "load_entries dbg dir es = Inr zs \<Longrightarrow> list_all zone_wf zs"
  by (induction dbg dir es arbitrary: zs rule: load_entries.induct)
     (auto simp: bind_res_eq_Inr split: sum.splits prod.splits if_splits dest: zone_from_str_wf)

lemma nic_count:
  "check_one_nic zones = Inr u \<Longrightarrow> length (filter (\<lambda>z. z_network z = Net_Nic) zones) \<le> 1
     \<and> (list_ex (\<lambda>z. z_network z = Net_Routed) zones \<longrightarrow> list_ex (\<lambda>z. z_network z = Net_Nic) zones)"
  by (cases "filter (\<lambda>z. z_network z = Net_Nic) zones")
     (auto simp: check_one_nic_def Let_def list_ex_iff filter_empty_conv dest: filter_eq_ConsD split: if_splits)

lemma ranges_apart:
  assumes "list_all zone_wf zones" "check_bases dbg zones [] = Inr u" "i < length zones" "j < i"
  shows "uid_range (zones ! i) \<inter> uid_range (zones ! j) = {}"
proof (cases "z_uid_base (zones ! i)"; cases "z_uid_base (zones ! j)")
  fix a b
  assume ab: "z_uid_base (zones ! i) = Some a" "z_uid_base (zones ! j) = Some b"
  have "zone_wf (zones ! i)" "zone_wf (zones ! j)" using assms(1,3,4) by (simp_all add: list_all_length)
  then have "uid_base_ok a" "uid_base_ok b" using ab by (simp_all add: zone_wf_def identity_ok_def)
  moreover have "a \<noteq> b"
    using bases_apart [OF conjunct1 [OF check_bases_ok [OF assms(2)]] assms(3,4) ab] .
  ultimately show ?thesis using ab ranges_disjoint by (simp add: uid_range_def)
qed (simp_all add: uid_range_def)

lemma targets_ok:
  assumes "check_all (\<lambda>z. check_all (check_target dbg zones z) (z_transfer_to z)) zones = Inr u" "list_all zone_wf zones"
    "z \<in> set zones" "d \<in> set (z_transfer_to z)"
  shows "\<exists>t \<in> set zones. z_name t = d \<and> t \<noteq> z \<and> z_network t \<noteq> Net_Nic"
proof -
  have "check_target dbg zones z d = Inr ()" using assms(1,3,4) by (simp add: list_all_iff)
  then obtain t where t: "zone_named zones d = Some t" "z_network t \<noteq> Net_Nic"
    by (auto simp: check_target_def split: option.splits)
  then have "t \<in> set zones" "z_name t = d" by (auto simp: zone_named_def find_Some_iff)
  moreover have "z_name z \<noteq> d" using assms(2-4) by (auto simp: list_all_iff zone_wf_def sharing_ok_def)
  ultimately show ?thesis using t(2) by auto
qed

text \<open>
  C12: Zones that load can be told apart. When a directory of zone files loads, every zone is
  well-formed; no two have the same name, the same border colour or uid ranges that meet; at most one
  holds the network card, and one does if any is routed; and a zone sends only to other zones of the
  set, never to the one that holds the card.
\<close>

theorem loaded_zones_ok:
  assumes "load_all dbg dir found = Inr zones"
  shows "zones_ok zones"
proof -
  obtain es zs where e: "load_entries dbg dir es = Inr zs" "zones = sort_zones zs" "check_invariants dbg zones = Inr ()"
    using assms by (auto simp: load_all_def bind_res_eq_Inr Let_def split: sum.splits)
  have wf: "list_all zone_wf zones" using load_entries_wf [OF e(1)] e(2) by (simp add: list_all_iff)
  have c: "check_all (\<lambda>z. check_all (check_target dbg zones z) (z_transfer_to z)) zones = Inr ()" "check_one_nic zones = Inr ()"
      "check_names dbg zones [] = Inr ()" "check_bases dbg zones [] = Inr ()" "check_colours dbg zones [] = Inr ()"
    using e(3) by (simp_all add: check_invariants_def bind_res_eq_Inr del: check_all_Inr)
  have sorted: "sorted_wrt (\<lambda>a b. str_le (z_name a) (z_name b)) zones" unfolding e(2) by (rule sorted_sort_zones)
  note names = conjunct1 [OF check_names_ok [OF c(3)]] and colours = conjunct1 [OF check_colours_ok [OF c(5)]]
  note nic = conjunct1 [OF nic_count [OF c(2)]] conjunct2 [OF nic_count [OF c(2)]]
  show ?thesis
    unfolding zones_ok_def
    by (intro conjI allI impI ballI wf sorted names colours nic mp [OF nic(2)] ranges_apart [OF wf c(4)] targets_ok [OF c(1) wf])
qed

section \<open>At concrete files\<close>

definition demo_file :: "string \<Rightarrow> string \<Rightarrow> string" where
  "demo_file name colour = (let q = in_quotes; nl = [CHR 0x0A] in
     ''[zone]'' @ nl @ ''name='' @ q name @ nl @ ''[network]'' @ nl @ ''mode='' @ q ''none'' @ nl
     @ ''[storage]'' @ nl @ ''mode='' @ q ''persistent'' @ nl @ ''[ui]'' @ nl @ ''border_color='' @ q colour)"

theorem zone_file_well_formed_witness:
  "\<exists>z. from_str in_quotes (demo_file ''dev'' ''#A0b1c2'') = Inr z \<and> z_border_color z = ''#a0b1c2'' \<and> zone_wf z"
proof -
  have "case from_str in_quotes (demo_file ''dev'' ''#A0b1c2'') of Inr z \<Rightarrow> z_border_color z = ''#a0b1c2'' | Inl _ \<Rightarrow> False"
    by code_simp
  then obtain z where "from_str in_quotes (demo_file ''dev'' ''#A0b1c2'') = Inr z" "z_border_color z = ''#a0b1c2''"
    by (auto split: sum.splits)
  then show ?thesis using zone_file_well_formed by (intro exI [of _ z]) simp
qed

definition demo_dir :: "dir_entry list" where
  "demo_dir = [Inr (''work.toml'', Inr (demo_file ''work'' ''#aa0000'')), Inr (''README'', Inl ''unread''),
     Inr (''dev.toml'', Inr (demo_file ''dev'' ''#00aa00''))]"

theorem loaded_zones_ok_witness:
  "\<exists>zones. load_all in_quotes ''/etc/zones'' (Inr demo_dir) = Inr zones \<and> map z_name zones = [''dev'', ''work''] \<and> zones_ok zones"
proof -
  have "case load_all in_quotes ''/etc/zones'' (Inr demo_dir) of Inr zones \<Rightarrow> map z_name zones = [''dev'', ''work''] | Inl _ \<Rightarrow> False"
    by code_simp
  then obtain zones where "load_all in_quotes ''/etc/zones'' (Inr demo_dir) = Inr zones" "map z_name zones = [''dev'', ''work'']"
    by (auto split: sum.splits)
  then show ?thesis using loaded_zones_ok by (intro exI [of _ zones]) simp
qed

end
