(* ===== verification/Calendar.thy ===== *)
theory Calendar
  imports Rust_Str "HOL-Library.Signed_Division"
begin

text \<open>
  Dates (\<open>compartments/kryptikd/src/time.rs\<close>): the day numbers of the Gregorian calendar, ISO 8601
  dates read, and times shown. The reference they are proved against counts days one by one.
\<close>

section \<open>Day numbers\<close>

text \<open>An \<open>i64\<close> is an \<^typ>\<open>int\<close>, as no date read or shown comes near its bounds; \<open>/\<close> rounds toward zero.\<close>

definition days_from_civil :: "int \<Rightarrow> int \<Rightarrow> int \<Rightarrow> int" where
  "days_from_civil y m d =
     (let y = (if m \<le> 2 then y - 1 else y);
          era = (if y \<ge> 0 then y else y - 399) sdiv 400;
          yoe = y - era * 400;
          doy = (153 * (if m > 2 then m - 3 else m + 9) + 2) sdiv 5 + d - 1;
          doe = yoe * 365 + yoe sdiv 4 - yoe sdiv 100 + doy in
      era * 146097 + doe - 719468)"

definition civil_from_days :: "int \<Rightarrow> int \<times> int \<times> int" where
  "civil_from_days z =
     (let z = z + 719468;
          era = (if z \<ge> 0 then z else z - 146096) sdiv 146097;
          doe = z - era * 146097;
          yoe = (doe - doe sdiv 1460 + doe sdiv 36524 - doe sdiv 146096) sdiv 365;
          doy = doe - (365 * yoe + yoe sdiv 4 - yoe sdiv 100);
          mp = (5 * doy + 2) sdiv 153;
          d = doy - (153 * mp + 2) sdiv 5 + 1;
          m = (if mp < 10 then mp + 3 else mp - 9) in
      (yoe + era * 400 + (if m \<le> 2 then 1 else 0), m, d))"

section \<open>The calendar\<close>

definition leap :: "int \<Rightarrow> bool" where
  "leap y \<longleftrightarrow> y mod 4 = 0 \<and> (y mod 100 \<noteq> 0 \<or> y mod 400 = 0)"

definition month_days :: "int \<Rightarrow> int \<Rightarrow> int" where
  "month_days y m = (if m = 2 then (if leap y then 29 else 28) else if m = 4 \<or> m = 6 \<or> m = 9 \<or> m = 11 then 30 else 31)"

definition valid_date :: "int \<times> int \<times> int \<Rightarrow> bool" where
  "valid_date ymd \<longleftrightarrow> (case ymd of (y, m, d) \<Rightarrow> 1 \<le> m \<and> m \<le> 12 \<and> 1 \<le> d \<and> d \<le> month_days y m)"

fun next_day :: "int \<times> int \<times> int \<Rightarrow> int \<times> int \<times> int" where
  "next_day (y, m, d) = (if d < month_days y m then (y, m, d + 1) else if m < 12 then (y, m + 1, 1) else (y + 1, 1, 1))"

lemma sdiv_pos: "0 \<le> a \<Longrightarrow> 0 < b \<Longrightarrow> a sdiv b = a div b" for a b :: int
  by (cases "a = 0") (simp_all add: signed_divide_int_def)

lemma sdiv_floor:
  fixes a b :: int
  assumes "0 < b"
  shows "(if a \<ge> 0 then a else a - (b - 1)) sdiv b = a div b"
proof (cases "a \<ge> 0")
  case False
  have q: "b * (a div b) \<le> a" "a < b * (a div b) + b"
    using mult_div_mod_eq [of b a] pos_mod_sign [OF assms, of a] pos_mod_bound [OF assms, of a] by linarith+
  have "(b - 1 - a) div b = - (a div b)"
    by (rule int_div_pos_eq [where r = "a div b * b + b - 1 - a + 0"]) (use q in \<open>simp_all add: algebra_simps\<close>)
  then show ?thesis using False assms by (simp add: signed_divide_int_def)
qed (simp add: sdiv_pos assms)

text \<open>Days before March of year \<open>y\<close>, from year 0, and those of its months from March on.\<close>

definition year_days :: "int \<Rightarrow> int" where
  "year_days y = 365 * y + y div 4 - y div 100 + y div 400"

definition march_days :: "int \<Rightarrow> int" where
  "march_days mp = (153 * mp + 2) div 5"

lemma div_parts:
  fixes y :: int
  shows "(y - y div 400 * 400) div 4 = y div 4 - 100 * (y div 400)" "(y - y div 400 * 400) div 100 = y div 100 - 4 * (y div 400)"
  using div_mult_self1 [of 4 y "- (100 * (y div 400))"] div_mult_self1 [of 100 y "- (4 * (y div 400))"]
  by (simp_all add: algebra_simps)

lemma era_days:
  fixes y :: int
  assumes "era = y div 400"
  shows "era * 146097 + ((y - era * 400) * 365 + (y - era * 400) sdiv 4 - (y - era * 400) sdiv 100 + doy) = year_days y + doy"
proof -
  have "0 \<le> y - y div 400 * 400" by (simp add: minus_div_mult_eq_mod)
  then show ?thesis using assms div_parts [of y] by (simp add: sdiv_pos year_days_def algebra_simps)
qed

lemma days_from_civil_eq:
  assumes "1 \<le> m" "m \<le> 12"
  shows "days_from_civil y m d =
    (if m \<le> 2 then year_days (y - 1) + march_days (m + 9) else year_days y + march_days (m - 3)) + d - 1 - 719468"
proof -
  have f: "(if y \<ge> 0 then y else y - 399) sdiv 400 = y div 400" for y :: int using sdiv_floor [of 400 y] by (cases "0 \<le> y") simp_all
  have m: "(153 * x + 2) sdiv 5 = march_days x" if "0 \<le> x" for x using that by (simp add: march_days_def sdiv_pos)
  show ?thesis
    using assms m [of "m + 9"] m [of "m - 3"] era_days [OF refl, of "y - 1" "march_days (m + 9) + d - 1"] era_days [OF refl, of y "march_days (m - 3) + d - 1"]
    by (cases "m \<le> 2") (simp_all add: days_from_civil_def Let_def f)
qed

lemma div_pred:
  fixes y n :: int
  assumes "1 < n"
  shows "(y - 1) div n = y div n - (if y mod n = 0 then 1 else 0)"
proof (cases "y mod n = 0")
  case True
  then have "y - 1 = n * (y div n - 1) + (n - 1)" using mult_div_mod_eq [of n y] by (simp add: algebra_simps)
  then show ?thesis using True assms int_div_pos_eq [of "y - 1" n "y div n - 1" "n - 1"] by simp
next
  case False
  then have "0 < y mod n" using pos_mod_sign [of n y] assms by (simp add: order_less_le)
  moreover have "y - 1 = n * (y div n) + (y mod n - 1)" by simp
  moreover have "y mod n - 1 < n" using pos_mod_bound [of n y] assms by linarith
  ultimately show ?thesis
    using False assms int_div_pos_eq [of "y - 1" n "y div n" "y mod n - 1"] by simp
qed

lemma year_days_step: "year_days y - year_days (y - 1) = (if leap y then 366 else 365)"
proof -
  have gen: "365 * y + q4 - q100 + q400 - (365 * (y - 1) + (q4 - b4) - (q100 - b100) + (q400 - b400)) = 365 + b4 - b100 + b400"
    for q4 q100 q400 b4 b100 b400 :: int by simp
  have n: "(1 :: int) < 4" "(1 :: int) < 100" "(1 :: int) < 400" by simp_all
  have "y mod 400 = 0 \<Longrightarrow> y mod 100 = 0" "y mod 100 = 0 \<Longrightarrow> y mod 4 = 0"
    using dvd_trans [of 100 400 y] dvd_trans [of 4 100 y] by (simp_all add: mod_eq_0_iff_dvd)
  then show ?thesis
    unfolding year_days_def div_pred [OF n(1)] div_pred [OF n(2)] div_pred [OF n(3)] gen leap_def
    by (cases "y mod 4 = 0"; cases "y mod 100 = 0"; cases "y mod 400 = 0"; simp)
qed

lemma months: "1 \<le> m \<Longrightarrow> m \<le> 12 \<Longrightarrow> m \<in> {1, 2, 3, 4, 5, 6, 7, 8, 9, 10, 11, 12}" for m :: int
  unfolding insert_iff empty_iff by presburger

lemma days_next:
  assumes "valid_date (y, m, d)"
  shows "(case next_day (y, m, d) of (y', m', d') \<Rightarrow> days_from_civil y' m' d') = days_from_civil y m d + 1"
proof -
  have m: "m \<in> {1, 2, 3, 4, 5, 6, 7, 8, 9, 10, 11, 12}" and d: "1 \<le> d" "d \<le> month_days y m"
    using assms months by (auto simp: valid_date_def)
  show ?thesis
  proof (cases "d < month_days y m")
    case True
    then show ?thesis using m by (auto simp: days_from_civil_eq)
  next
    case False
    then have "d = month_days y m" using d by simp
    then show ?thesis
      using m year_days_step [of y]
      by (elim insertE emptyE) (simp_all add: days_from_civil_eq month_days_def march_days_def split: if_splits)
  qed
qed

section \<open>Dates of day numbers\<close>

lemma int_div_eq: "0 \<le> r \<Longrightarrow> r < b \<Longrightarrow> (b * q + r) div b = q" for b q r :: int
  by (simp add: int_div_pos_eq)

text \<open>The year of an era from the day of the era, a year of which is \<open>100 c + 4 q + r\<close>.\<close>

lemma year_of_era:
  fixes c q r doy :: int
  assumes "0 \<le> c" "c \<le> 3" "0 \<le> q" "q \<le> 24" "0 \<le> r" "r \<le> 3" "0 \<le> doy" "doy \<le> 365"
    and leap: "doy = 365 \<Longrightarrow> r = 3 \<and> (q = 24 \<longrightarrow> c = 3)"
  defines "doe \<equiv> 36524 * c + 1461 * q + 365 * r + doy"
  shows "(doe - doe div 1460 + doe div 36524 - doe div 146096) div 365 = 100 * c + 4 * q + r"
proof -
  define b1 where "b1 = (if 24 * c + q + 365 * r + doy \<ge> 1460 then 1 else 0 :: int)"
  define b2 where "b2 = (if 1461 * q + 365 * r + doy \<ge> 36524 then 1 else 0 :: int)"
  define b3 where "b3 = (if doe \<ge> 146096 then 1 else 0 :: int)"
  have "doe = 1460 * (25 * c + q + b1) + (24 * c + q + 365 * r + doy - 1460 * b1)" by (simp add: doe_def)
  then have 1: "doe div 1460 = 25 * c + q + b1" by (simp only:) (rule int_div_eq; use assms(1-8) in \<open>simp add: b1_def; linarith\<close>)
  have "doe = 36524 * (c + b2) + (1461 * q + 365 * r + doy - 36524 * b2)" by (simp add: doe_def algebra_simps)
  then have 2: "doe div 36524 = c + b2" by (simp only:) (rule int_div_eq; use assms(1-8) in \<open>simp add: b2_def\<close>)
  have "0 \<le> doe" "doe \<le> 146096" using assms(1-8) by (simp_all add: doe_def)
  then have 3: "doe div 146096 = b3" using int_div_eq [of "doe - 146096 * b3" 146096 b3] by (simp add: b3_def split: if_splits)
  have "doe - doe div 1460 + doe div 36524 - doe div 146096 = 365 * (100 * c + 4 * q + r) + (doy - b1 + b2 - b3)"
    unfolding 1 2 3 by (simp add: doe_def)
  moreover have "0 \<le> doy - b1 + b2 - b3 \<and> doy - b1 + b2 - b3 < 365"
  proof (cases "doy = 365")
    case True
    have "r = 3" "b1 = 1" using leap [OF True] assms(1,3) True by (simp_all add: b1_def)
    moreover have "b2 = b3"
      using leap [OF True] assms(1-4) True by (cases "q = 24") (simp_all add: b2_def b3_def doe_def)
    ultimately show ?thesis using True by simp
  next
    case False
    then have "b2 = 0" "b3 = 0" "b1 = 1 \<Longrightarrow> 0 < doy"
      using assms(1-8) by (auto simp: b1_def b2_def b3_def doe_def split: if_splits)
    then show ?thesis using False assms(7,8) by (auto simp: b1_def split: if_splits)
  qed
  ultimately show ?thesis by (simp only: int_div_eq)
qed

definition of_march :: "int \<Rightarrow> int \<Rightarrow> int \<times> int \<times> int" where
  "of_march y doy =
     (let mp = (5 * doy + 2) div 153; m = (if mp < 10 then mp + 3 else mp - 9) in
      (y + (if m \<le> 2 then 1 else 0), m, doy - march_days mp + 1))"

lemma civil_of_parts:
  fixes e c q r doy :: int
  assumes "0 \<le> c" "c \<le> 3" "0 \<le> q" "q \<le> 24" "0 \<le> r" "r \<le> 3" "0 \<le> doy" "doy \<le> 365"
    and "doy = 365 \<Longrightarrow> r = 3 \<and> (q = 24 \<longrightarrow> c = 3)"
  shows "civil_from_days (146097 * e + (36524 * c + 1461 * q + 365 * r + doy) - 719468)
    = of_march (400 * e + 100 * c + 4 * q + r) doy"
proof -
  define doe where "doe = 36524 * c + 1461 * q + 365 * r + doy"
  define yoe where "yoe = 100 * c + 4 * q + r"
  have doe: "0 \<le> doe" "doe < 146097" using assms(1-8) by (simp_all add: doe_def)
  have era: "(if 146097 * e + doe \<ge> 0 then 146097 * e + doe else 146097 * e + doe - 146096) sdiv 146097 = e"
    using sdiv_floor [of 146097 "146097 * e + doe"] int_div_eq [OF doe, of e] by (cases "0 \<le> 146097 * e + doe") simp_all
  have div: "yoe div 4 = 25 * c + q" "yoe div 100 = c"
    using int_div_eq [of r 4 "25 * c + q"] int_div_eq [of "4 * q + r" 100 c] assms(1-6) by (simp_all add: yoe_def)
  have yoe: "(doe - doe div 1460 + doe div 36524 - doe div 146096) div 365 = yoe"
    unfolding doe_def yoe_def by (rule year_of_era [OF assms])
  have "0 \<le> doe - doe div 1460 + doe div 36524 - doe div 146096"
    using yoe assms(1-6) by (metis (no_types) add_nonneg_nonneg mult_nonneg_nonneg pos_imp_zdiv_nonneg_iff yoe_def zero_le_numeral zero_less_numeral)
  then have yoe': "(doe - doe sdiv 1460 + doe sdiv 36524 - doe sdiv 146096) sdiv 365 = yoe" using doe yoe by (simp add: sdiv_pos)
  have "0 \<le> yoe" using assms(1-6) by (simp add: yoe_def)
  then have doy: "doe - (365 * yoe + yoe sdiv 4 - yoe sdiv 100) = doy" using div by (simp add: sdiv_pos) (simp add: doe_def yoe_def)
  have mp: "(5 * doy + 2) sdiv 153 = (5 * doy + 2) div 153" "0 \<le> (5 * doy + 2) div 153" using assms(7) by (simp_all add: sdiv_pos pos_imp_zdiv_nonneg_iff)
  have md: "(153 * ((5 * doy + 2) div 153) + 2) sdiv 5 = march_days ((5 * doy + 2) div 153)" using mp(2) by (simp add: sdiv_pos march_days_def)
  have z: "146097 * e + doe - 719468 + 719468 = 146097 * e + doe" "146097 * e + doe - e * 146097 = doe" by simp_all
  show ?thesis
    unfolding doe_def [symmetric] civil_from_days_def Let_def z era yoe' doy mp(1) md of_march_def by (simp add: yoe_def)
qed

lemma year_parts:
  fixes y :: int
  obtains e c q r where "y = 400 * e + 100 * c + 4 * q + r" "0 \<le> c" "c \<le> 3" "0 \<le> q" "q \<le> 24" "0 \<le> r" "r \<le> 3"
proof -
  define e where "e = y div 400"
  define w where "w = y mod 400"
  define c where "c = w div 100"
  define v where "v = w mod 100"
  have w: "y = 400 * e + w" "0 \<le> w" "w < 400" by (simp_all add: e_def w_def)
  have v: "w = 100 * c + v" "0 \<le> v" "v < 100" by (simp_all add: c_def v_def)
  have "v = 4 * (v div 4) + v mod 4" "0 \<le> v mod 4" "v mod 4 < 4" by simp_all
  then show thesis using w v by (intro that [of e c "v div 4" "v mod 4"]) linarith+
qed

lemma year_days_parts:
  assumes "0 \<le> c" "c \<le> 3" "0 \<le> q" "q \<le> 24" "0 \<le> r" "r \<le> 3"
  shows "year_days (400 * e + 100 * c + 4 * q + r) = 146097 * e + (36524 * c + 1461 * q + 365 * r)"
proof -
  have "(400 * e + 100 * c + 4 * q + r) div 4 = 100 * e + 25 * c + q" "(400 * e + 100 * c + 4 * q + r) div 100 = 4 * e + c"
    "(400 * e + 100 * c + 4 * q + r) div 400 = e"
    using int_div_eq [of r 4 "100 * e + 25 * c + q"] int_div_eq [of "4 * q + r" 100 "4 * e + c"] int_div_eq [of "100 * c + 4 * q + r" 400 e] assms
    by (simp_all add: algebra_simps)
  then show ?thesis by (simp add: year_days_def)
qed

lemma leap_parts:
  assumes "leap (400 * e + 100 * c + 4 * q + r + 1)" "0 \<le> c" "c \<le> 3" "0 \<le> q" "q \<le> 24" "0 \<le> r" "r \<le> 3"
  shows "r = 3 \<and> (q = 24 \<longrightarrow> c = 3)"
proof -
  have "400 * e + 100 * c + 4 * q + r + 1 = r + 1 + 4 * (100 * e + 25 * c + q)" by simp
  then have "(400 * e + 100 * c + 4 * q + r + 1) mod 4 = (r + 1) mod 4" by (simp only: mod_mult_self2)
  then have m: "(r + 1) mod 4 = 0" using assms(1) by (simp only: leap_def)
  have "r = 0 \<or> r = 1 \<or> r = 2 \<or> r = 3" using assms(6,7) by linarith
  then have r: "r = 3" using m by (elim disjE) simp_all
  have "c = 3" if "q = 24"
  proof -
    have eq: "400 * e + 100 * c + 4 * q + r + 1 = 100 * (c + 1) + 400 * e" using r that by simp
    then have "(100 * (c + 1) + 400 * e) mod 400 = 0" using assms(1) unfolding leap_def eq by auto
    then have "(100 * (c + 1)) mod 400 = 0" by simp
    then have "400 dvd 100 * (c + 1)" by (rule mod_0_imp_dvd)
    then have "4 dvd c + 1" using dvd_times_left_cancel_iff [of 100 4 "c + 1"] by simp
    moreover have "c = 0 \<or> c = 1 \<or> c = 2 \<or> c = 3" using assms(2,3) by linarith
    ultimately show "c = 3" by (elim disjE) simp_all
  qed
  then show ?thesis using r by simp
qed

lemma civil_days:
  assumes "valid_date (y, m, d)"
  shows "civil_from_days (days_from_civil y m d) = (y, m, d)"
proof -
  define Y where "Y = (if m \<le> 2 then y - 1 else y)"
  define mp where "mp = (if m \<le> 2 then m + 9 else m - 3)"
  define doy where "doy = march_days mp + d - 1"
  have m: "m \<in> {1, 2, 3, 4, 5, 6, 7, 8, 9, 10, 11, 12}" and d: "1 \<le> d" "d \<le> month_days y m"
    using assms months by (auto simp: valid_date_def)
  have doy: "0 \<le> doy" "doy \<le> 365" "doy = 365 \<Longrightarrow> m = 2 \<and> leap y"
    using m d by (auto simp: doy_def mp_def march_days_def month_days_def split: if_splits)
  have "0 \<le> 5 * doy + 2 - 153 * mp" "5 * doy + 2 - 153 * mp < 153"
    using m d by (auto simp: doy_def mp_def march_days_def month_days_def split: if_splits)
  from int_div_eq [OF this, of mp] have mp: "(5 * doy + 2) div 153 = mp" by simp
  obtain e c q r where p: "Y = 400 * e + 100 * c + 4 * q + r" "0 \<le> c" "c \<le> 3" "0 \<le> q" "q \<le> 24" "0 \<le> r" "r \<le> 3"
    by (rule year_parts)
  have "days_from_civil y m d = 146097 * e + (36524 * c + 1461 * q + 365 * r + doy) - 719468"
    using days_from_civil_eq [of m y d] m year_days_parts [OF p(2-7), of e] p(1) by (auto simp: Y_def mp_def doy_def)
  moreover have "r = 3 \<and> (q = 24 \<longrightarrow> c = 3)" if "doy = 365"
  proof (rule leap_parts [OF _ p(2-7)])
    have "y = Y + 1" using doy(3) [OF that] by (simp add: Y_def)
    then show "leap (400 * e + 100 * c + 4 * q + r + 1)" using doy(3) [OF that] p(1) by simp
  qed
  ultimately have "civil_from_days (days_from_civil y m d) = of_march Y doy"
    using civil_of_parts [OF p(2-7) doy(1,2), of e] p(1) by simp
  also have "\<dots> = (y, m, d)" using m by (auto simp: of_march_def mp Let_def) (auto simp: Y_def mp_def doy_def)
  finally show ?thesis .
qed

lemma next_day_valid: "valid_date ymd \<Longrightarrow> valid_date (next_day ymd)"
  by (cases ymd) (auto simp: valid_date_def month_days_def split: if_splits)

lemma days_reached:
  assumes "valid_date (y, m, d)"
  shows "\<exists>y' m' d'. valid_date (y', m', d') \<and> days_from_civil y' m' d' = days_from_civil y m d + int n"
proof (induction n)
  case (Suc n)
  then obtain y1 m1 d1 where 1: "valid_date (y1, m1, d1)" "days_from_civil y1 m1 d1 = days_from_civil y m d + int n" by blast
  obtain y2 m2 d2 where 2: "next_day (y1, m1, d1) = (y2, m2, d2)" by (cases "next_day (y1, m1, d1)")
  have "valid_date (y2, m2, d2)" using next_day_valid [OF 1(1)] 2 by simp
  moreover have "days_from_civil y2 m2 d2 = days_from_civil y m d + int (Suc n)" using days_next [OF 1(1)] 1(2) 2 by simp
  ultimately show ?case by blast
qed (use assms in auto)

lemma every_day:
  obtains y m d where "valid_date (y, m, d)" "days_from_civil y m d = z"
proof -
  define k where "k = z div 146097 - 10"
  have "days_from_civil (400 * k + 1) 1 1 = 146097 * k - 719162"
    using year_days_parts [of 0 0 0 k] by (simp add: days_from_civil_eq march_days_def)
  moreover have "146097 * k - 719162 \<le> z" using mult_div_mod_eq [of 146097 z] pos_mod_sign [of 146097 z] by (simp add: k_def)
  moreover have "valid_date (400 * k + 1, 1, 1)" by (simp add: valid_date_def month_days_def)
  ultimately show thesis using days_reached [of "400 * k + 1" 1 1 "nat (z - days_from_civil (400 * k + 1) 1 1)"] that by auto
qed

text \<open>
  C40: The clock's dates are those of the Gregorian calendar. Day 0 is 1970-01-01, the day after a date
  has the next number, for every valid date of any year, before 1970 and before year 0 too; and the two
  conversions undo each other, on every valid date and on every day number.
\<close>

theorem calendar_correct:
  "days_from_civil 1970 1 1 = 0
   \<and> (\<forall>y m d. valid_date (y, m, d) \<longrightarrow>
        (case next_day (y, m, d) of (y', m', d') \<Rightarrow> days_from_civil y' m' d') = days_from_civil y m d + 1
        \<and> civil_from_days (days_from_civil y m d) = (y, m, d))
   \<and> (\<forall>z. valid_date (civil_from_days z) \<and> (case civil_from_days z of (y, m, d) \<Rightarrow> days_from_civil y m d) = z)"
proof (intro conjI allI impI)
  show "days_from_civil 1970 1 1 = 0" by code_simp
next
  fix z
  obtain y m d where "valid_date (y, m, d)" "days_from_civil y m d = z" by (rule every_day)
  then show "valid_date (civil_from_days z)" "(case civil_from_days z of (y, m, d) \<Rightarrow> days_from_civil y m d) = z"
    using civil_days [of y m d] by auto
qed (simp_all only: days_next civil_days)

theorem calendar_correct_witness:
  "valid_date (2024, 2, 29) \<and> days_from_civil 2024 3 1 = days_from_civil 2024 2 29 + 1
   \<and> civil_from_days (days_from_civil 2024 2 29) = (2024, 2, 29)"
proof -
  have v: "valid_date (2024, 2, 29)" "next_day (2024, 2, 29) = (2024, 3, 1)" by code_simp+
  then show ?thesis using calendar_correct by (metis (no_types, lifting) case_prod_conv)
qed

end
