(* ===== verification/Rust_F64.thy ===== *)
theory Rust_F64
  imports Complex_Main Rust_Str
begin

text \<open>
  The \<open>f64\<close> of Rust, as far as the sources use it: a finite value is the real it denotes, and an
  operation's result is the exact one rounded to 53 significant bits, to the nearest and from halfway
  to the even one. The values of the sources, seconds and their sums and differences, stay far from the
  smallest and the largest \<open>f64\<close>, so neither the infinities nor the subnormals are part of it.
\<close>

definition round_even :: "real \<Rightarrow> int" where
  "round_even r = (let f = \<lfloor>r\<rfloor>; d = r - of_int f in if d < 1 / 2 \<or> d = 1 / 2 \<and> even f then f else f + 1)"

definition ulp :: "real \<Rightarrow> real" where
  "ulp x = 2 powr (of_int (\<lfloor>log 2 \<bar>x\<bar>\<rfloor> - 52))"

definition f64 :: "real \<Rightarrow> real" where
  "f64 x = (if x = 0 then 0 else of_int (round_even (x / ulp x)) * ulp x)"

lemma round_even_int [simp]: "round_even (of_int n) = n"
  by (simp add: round_even_def)

lemma round_even_numeral [simp]: "round_even (numeral n) = numeral n" "round_even 0 = 0"
  using round_even_int [of "numeral n"] round_even_int [of 0] by simp_all

lemma round_even_bounds: "of_int (round_even r) \<le> r + 1 / 2" "r - 1 / 2 \<le> of_int (round_even r)"
  unfolding round_even_def Let_def by (simp_all split: if_split) linarith+

lemma round_even_mono: "r \<le> s \<Longrightarrow> round_even r \<le> round_even s"
proof -
  assume rs: "r \<le> s"
  have f: "\<lfloor>r\<rfloor> \<le> \<lfloor>s\<rfloor>" using rs by (rule floor_mono)
  show ?thesis
  proof (cases "\<lfloor>r\<rfloor> = \<lfloor>s\<rfloor>")
    case True
    then show ?thesis using rs by (auto simp: round_even_def Let_def)
  next
    case False
    then have "\<lfloor>r\<rfloor> + 1 \<le> \<lfloor>s\<rfloor>" using f by simp
    then show ?thesis by (auto simp: round_even_def Let_def)
  qed
qed

lemma round_even_minus: "round_even (- r) = - round_even r"
proof (cases "r = of_int \<lfloor>r\<rfloor>")
  case True
  then show ?thesis by (metis of_int_minus round_even_int)
next
  case False
  then have "of_int \<lfloor>r\<rfloor> < r" using of_int_floor_le [of r] by linarith
  then have f: "\<lfloor>- r\<rfloor> = - \<lfloor>r\<rfloor> - 1" by linarith
  show ?thesis unfolding round_even_def Let_def f by auto
qed

lemma ulp_pos: "0 < ulp x"
  by (simp add: ulp_def)

lemma f64_0 [simp]: "f64 0 = 0"
  by (simp add: f64_def)

lemma f64_minus: "f64 (- x) = - f64 x"
  using round_even_minus [of "x / ulp x"] by (simp add: f64_def ulp_def)

text \<open>The binade of a value: its multiples of the last place, from \<open>2 ^ 52\<close> to below \<open>2 ^ 53\<close>.\<close>

lemma ulp_binade:
  assumes "x > 0"
  shows "2 ^ 52 \<le> x / ulp x" "x / ulp x < 2 ^ 53"
proof -
  define a where "a = real_of_int (\<lfloor>log 2 x\<rfloor> - 52)"
  have u: "ulp x = 2 powr a" using assms by (simp add: ulp_def a_def)
  have p: "2 powr (a + 52) = ulp x * 2 ^ 52" "2 powr (a + 53) = ulp x * 2 ^ 53" by (simp_all add: u powr_add)
  have a: "a + 52 \<le> log 2 x" "log 2 x < a + 53" unfolding a_def by linarith+
  have "2 powr (a + 52) \<le> 2 powr (log 2 x)" "2 powr (log 2 x) < 2 powr (a + 53)" using a by simp_all
  then have "ulp x * 2 ^ 52 \<le> x" "x < ulp x * 2 ^ 53" unfolding p using assms by simp_all
  then show "2 ^ 52 \<le> x / ulp x" "x / ulp x < 2 ^ 53" using ulp_pos [of x] by (simp_all add: field_simps)
qed

lemma ulp_less:
  assumes "0 < x" "x \<le> y" "ulp x \<noteq> ulp y"
  shows "2 * ulp x \<le> ulp y"
proof -
  have "\<lfloor>log 2 x\<rfloor> \<le> \<lfloor>log 2 y\<rfloor>" using assms(1,2) by (intro floor_mono) simp
  moreover have "\<lfloor>log 2 x\<rfloor> \<noteq> \<lfloor>log 2 y\<rfloor>" using assms by (auto simp: ulp_def)
  ultimately have le: "real_of_int (\<lfloor>log 2 x\<rfloor> - 52) + 1 \<le> real_of_int (\<lfloor>log 2 y\<rfloor> - 52)" by linarith
  have "2 * ulp x = 2 powr (real_of_int (\<lfloor>log 2 x\<rfloor> - 52) + 1)" unfolding powr_add using assms(1) by (simp add: ulp_def)
  also have "\<dots> \<le> 2 powr real_of_int (\<lfloor>log 2 y\<rfloor> - 52)" using le by (intro powr_mono) simp_all
  also have "\<dots> = ulp y" using assms(1,2) by (simp add: ulp_def)
  finally show ?thesis .
qed

lemma f64_mono_pos:
  assumes "0 < x" "x \<le> y"
  shows "f64 x \<le> f64 y"
proof (cases "ulp x = ulp y")
  case True
  then have "round_even (x / ulp x) \<le> round_even (y / ulp y)" using assms ulp_pos [of y] by (intro round_even_mono) (simp add: divide_right_mono)
  then show ?thesis using True assms ulp_pos [of y] by (simp add: f64_def)
next
  case False
  have "round_even (x / ulp x) \<le> 2 ^ 53"
    using ulp_binade(2) [OF assms(1)] round_even_mono [of "x / ulp x" "of_int (2 ^ 53)"] by simp
  then have "of_int (round_even (x / ulp x)) * ulp x \<le> of_int (2 ^ 53) * ulp x"
    using ulp_pos [of x] by (intro mult_right_mono) (simp_all only: of_int_le_iff less_imp_le)
  also have "\<dots> \<le> 2 ^ 52 * ulp y" using ulp_less [OF assms False] by simp
  also have "2 ^ 52 \<le> round_even (y / ulp y)"
    using ulp_binade(1) [of y] assms round_even_mono [of "of_int (2 ^ 52)" "y / ulp y"] by simp
  then have "real_of_int (2 ^ 52) \<le> of_int (round_even (y / ulp y))" by (simp only: of_int_le_iff)
  then have "2 ^ 52 * ulp y \<le> of_int (round_even (y / ulp y)) * ulp y" using ulp_pos [of y] by simp
  finally show ?thesis using assms by (simp add: f64_def)
qed

lemma f64_pos: "0 < x \<Longrightarrow> 0 \<le> f64 x"
  using ulp_binade(1) [of x] round_even_mono [of "of_int 0" "x / ulp x"] ulp_pos [of x] by (simp add: f64_def)

lemma f64_mono: "x \<le> y \<Longrightarrow> f64 x \<le> f64 y"
proof -
  assume xy: "x \<le> y"
  consider "0 < x" | "x \<le> 0" "0 \<le> y" | "y < 0" by linarith
  then show ?thesis
  proof cases
    case 2
    then show ?thesis using f64_pos [of y] f64_pos [of "- x"] f64_minus [of x] by (cases "x = 0"; cases "y = 0") auto
  next
    case 3
    then show ?thesis using f64_mono_pos [of "- y" "- x"] xy f64_minus by simp
  qed (rule f64_mono_pos [OF _ xy])
qed

text \<open>Values with 53 bits are left as they are.\<close>

lemma f64_exact:
  assumes "x = of_int m * 2 powr (of_int e)" "\<bar>m\<bar> < 2 ^ 53"
  shows "f64 x = x"
proof (cases "x = 0")
  case False
  define E where "E = \<lfloor>log 2 \<bar>x\<bar>\<rfloor> - 52"
  have u: "ulp x = 2 powr (of_int E)" by (simp add: ulp_def E_def)
  have "real_of_int \<bar>m\<bar> < of_int (2 ^ 53)" using assms(2) by (simp only: of_int_less_iff)
  then have "\<bar>x\<bar> < 2 powr 53 * 2 powr of_int e" unfolding assms(1) by (simp add: abs_mult)
  then have "\<bar>x\<bar> < 2 powr (53 + of_int e)" by (simp only: powr_add)
  then have "log 2 \<bar>x\<bar> < 53 + of_int e" using False log_less_iff [of 2 "\<bar>x\<bar>" "53 + of_int e"] by simp
  then have E: "E \<le> e" unfolding E_def by linarith
  have "x / ulp x = of_int m * 2 powr (of_int e - of_int E)" unfolding u by (subst assms(1)) (simp add: powr_diff)
  also have "of_int e - of_int E = real (nat (e - E))" using E by simp
  also have "2 powr real (nat (e - E)) = 2 ^ nat (e - E)" by (simp only: powr_realpow zero_less_numeral)
  finally have r: "x / ulp x = of_int (m * 2 ^ nat (e - E))" by simp
  then have "x = of_int (m * 2 ^ nat (e - E)) * ulp x" using ulp_pos [of x] by (simp add: field_simps)
  then show ?thesis using False by (simp only: f64_def r round_even_int if_False)
qed simp

lemma f64_of_int: "\<bar>m\<bar> < 2 ^ 53 \<Longrightarrow> f64 (of_int m) = of_int m"
  using f64_exact [of "of_int m" m 0] by simp

lemma f64_numeral: "numeral n < (2 ^ 53 :: int) \<Longrightarrow> f64 (numeral n) = numeral n"
  using f64_of_int [of "numeral n"] by simp

text \<open>Rounding again changes nothing.\<close>

lemma f64_idem: "f64 (f64 x) = f64 x"
proof (cases "x = 0")
  case False
  define n where "n = round_even (x / ulp x)"
  define e where "e = \<lfloor>log 2 \<bar>x\<bar>\<rfloor> - 52"
  have x: "f64 x = of_int n * 2 powr of_int e" using False by (simp add: f64_def n_def ulp_def e_def)
  have "ulp \<bar>x\<bar> = ulp x" by (simp add: ulp_def)
  then have "\<bar>x / ulp x\<bar> < 2 ^ 53" using ulp_binade(2) [of "\<bar>x\<bar>"] False ulp_pos [of x] by (simp add: abs_div)
  then have "x / ulp x \<le> of_int (2 ^ 53)" "of_int (- (2 ^ 53)) \<le> x / ulp x"
    unfolding abs_less_iff by (simp_all del: abs_divide)
  then have b: "n \<le> 2 ^ 53" "- (2 ^ 53) \<le> n"
    unfolding n_def using round_even_mono [of "x / ulp x" "of_int (2 ^ 53)"] round_even_mono [of "of_int (- (2 ^ 53))" "x / ulp x"]
    by (simp_all only: round_even_int)
  show ?thesis
  proof (cases "\<bar>n\<bar> < 2 ^ 53")
    case True
    show ?thesis by (rule f64_exact [OF x True])
  next
    case False
    then have "n = 2 ^ 53 \<or> n = - (2 ^ 53)" using b by linarith
    then obtain m where m: "n = m * 2" "\<bar>m\<bar> < 2 ^ 53" by (elim disjE) (auto intro: that [of "2 ^ 52"] that [of "- (2 ^ 52)"])
    have "f64 x = of_int m * 2 powr of_int (e + 1)" unfolding x m(1) by (simp add: powr_add)
    then show ?thesis by (rule f64_exact [OF _ m(2)])
  qed
qed simp

end
