(* ===== verification/Time.thy ===== *)
theory Time
  imports Calendar Rust_F64
begin

text \<open>
  Zone 0's clock (\<open>compartments/kryptikd/src/time.rs\<close>): the claims of the zone that holds the network
  card, the floor no claim crosses, the sum of corrections made unasked, and what is carried out of a
  claim.

  The values of \<open>f64\<close> are finite throughout: a claim's offset is read from at most sixteen digits and
  the clock from a \<open>timespec\<close>, so the checks of \<open>is_finite\<close> pass. What the system answers is a
  parameter: the clock's readings, the results of setting and saving, the person's answer.
\<close>

section \<open>Claims\<close>

definition SLEW_BELOW_SECS :: real where "SLEW_BELOW_SECS = 1"
definition IGNORE_BELOW_SECS :: real where "IGNORE_BELOW_SECS = f64 (5 / 1000)"
definition DEFAULT_BOUND_SECS :: int where "DEFAULT_BOUND_SECS = 3600"
definition CLAIM_INTERVAL_SECS :: nat where "CLAIM_INTERVAL_SECS = 600"

record claim =
  offset :: real
  c_sources :: nat

definition digits :: "string \<Rightarrow> bool" where
  "digits s \<longleftrightarrow> s \<noteq> [] \<and> list_all is_ascii_digit s"

text \<open>\<open>parse::<f64>\<close> of a sign, digits and decimals: the nearest value.\<close>

definition decimal :: "bool \<Rightarrow> string \<Rightarrow> string \<Rightarrow> real" where
  "decimal neg ds fr =
     (let v = real (digits_val (ds @ fr)) / 10 ^ length fr in f64 (if neg then - v else v))"

definition usage_claim :: string where
  "usage_claim = ''usage: time-offset <seconds> <sources>''"

definition parse_claim :: "(string \<Rightarrow> string) \<Rightarrow> string \<Rightarrow> string + claim" where
  "parse_claim dbg args = (case split_on CHR '' '' args of
       [secs, sources] \<Rightarrow>
         let neg = (case secs of c # _ \<Rightarrow> c = CHR ''-'' | [] \<Rightarrow> False);
             body = (case secs of c # r \<Rightarrow> if c = CHR ''-'' \<or> c = CHR ''+'' then r else secs | [] \<Rightarrow> secs);
             (ds, fr) = (case split_once CHR ''.'' body of Some p \<Rightarrow> p | None \<Rightarrow> (body, [])) in
         if \<not> digits ds \<or> length ds > 10 \<or> length fr > 6 \<or> (CHR ''.'' \<in> set body \<and> \<not> digits fr)
         then Inl (dbg secs @ '' is not an offset in seconds (sign, up to 10 digits, up to 6 decimals)'')
         else (case parse_uint 8 sources of
             Some n \<Rightarrow>
               if 1 \<le> n \<and> n \<le> 16 \<and> digits sources then Inr \<lparr>offset = decimal neg ds fr, c_sources = n\<rparr>
               else Inl (dbg sources @ '' is not a source count between 1 and 16'')
           | None \<Rightarrow> Inl (dbg sources @ '' is not a source count between 1 and 16''))
     | _ \<Rightarrow> Inl usage_claim)"

section \<open>Times shown and read\<close>

definition pad0 :: "nat \<Rightarrow> int \<Rightarrow> string" where
  "pad0 w n = (let ds = nat_to_string (nat \<bar>n\<bar>) in
     if n < 0 then ''-'' @ replicate (w - 1 - length ds) CHR ''0'' @ ds
     else replicate (w - length ds) CHR ''0'' @ ds)"

definition format_secs :: "int \<Rightarrow> string" where
  "format_secs secs =
     (let days = secs div 86400; rem = secs mod 86400; (y, m, d) = civil_from_days days in
      pad0 4 y @ ''-'' @ pad0 2 m @ ''-'' @ pad0 2 d @ '' '' @ pad0 2 (rem div 3600) @ '':'' @ pad0 2 (rem mod 3600 div 60) @ '' UTC'')"

text \<open>\<open>as i64\<close> stays at the bounds of the type.\<close>

definition to_i64 :: "int \<Rightarrow> int" where
  "to_i64 n = max (- (2 ^ 63)) (min (2 ^ 63 - 1) n)"

definition format_utc :: "real \<Rightarrow> string" where
  "format_utc t = format_secs (to_i64 \<lfloor>t\<rfloor>)"

text \<open>The digits of a range; \<^const>\<open>None\<close> outside the text or for anything else.\<close>

definition iso_num :: "string \<Rightarrow> nat \<Rightarrow> nat \<Rightarrow> int option" where
  "iso_num s a b = (let t = take (b - a) (drop a s) in
     if b \<le> length s \<and> list_all is_ascii_digit t then Some (int (digits_val t)) else None)"

definition iso_zone :: "string \<Rightarrow> int option" where
  "iso_zone s = (let z = drop 19 s in
     if z = ''Z'' then Some 0
     else if length z = 6 \<and> (hd z = CHR ''+'' \<or> hd z = CHR ''-'') \<and> z ! 3 = CHR '':''
     then Option.bind (iso_num s 20 22) (\<lambda>zh. Option.bind (iso_num s 23 25) (\<lambda>zm.
       if zh > 23 \<or> zm > 59 then None
       else let secs = zh * 3600 + zm * 60 in Some (if hd z = CHR ''-'' then - secs else secs)))
     else None)"

definition parse_iso8601 :: "string \<Rightarrow> int option" where
  "parse_iso8601 s =
     (if length s < 20 \<or> s ! 4 \<noteq> CHR ''-'' \<or> s ! 7 \<noteq> CHR ''-'' \<or> s ! 10 \<noteq> CHR ''T'' \<or> s ! 13 \<noteq> CHR '':'' \<or> s ! 16 \<noteq> CHR '':''
      then None
      else Option.bind (iso_num s 0 4) (\<lambda>y. Option.bind (iso_num s 5 7) (\<lambda>mo. Option.bind (iso_num s 8 10) (\<lambda>d.
           Option.bind (iso_num s 11 13) (\<lambda>h. Option.bind (iso_num s 14 16) (\<lambda>mi. Option.bind (iso_num s 17 19) (\<lambda>se.
             if \<not> (1 \<le> mo \<and> mo \<le> 12) \<or> \<not> (1 \<le> d \<and> d \<le> 31) \<or> h > 23 \<or> mi > 59 \<or> se > 60 then None
             else map_option (\<lambda>zone. days_from_civil y mo d * 86400 + h * 3600 + mi * 60 + se - zone) (iso_zone s))))))))"

fun find_str :: "string \<Rightarrow> string \<Rightarrow> nat option" where
  "find_str p s = (if take (length p) s = p then Some 0
     else case s of [] \<Rightarrow> None | _ # r \<Rightarrow> map_option Suc (find_str p r))"

declare find_str.simps [simp del]

definition floor_from_image_json :: "string \<Rightarrow> int option" where
  "floor_from_image_json text =
     (let key = CHR 0x22 # ''built_at'' @ [CHR 0x22] in
      Option.bind (find_str key text) (\<lambda>at0.
      Option.bind (strip_prefix '':'' (trim_start (drop (at0 + length key) text))) (\<lambda>rest.
      Option.bind (strip_prefix [CHR 0x22] (trim_start rest)) (\<lambda>rest.
      Option.bind (find_str [CHR 0x22] rest) (\<lambda>n. parse_iso8601 (take n rest))))))"

section \<open>Decisions\<close>

record knowledge =
  k_now :: real
  k_floor :: int
  k_bound :: int
  k_moved :: real

datatype decision = Ignore | Slew real | Step real | Ask real | Refuse_Claim string

text \<open>An \<open>i64\<close> of seconds as an \<open>f64\<close>.\<close>

abbreviation secs_f64 :: "int \<Rightarrow> real" where
  "secs_f64 n \<equiv> f64 (of_int n)"

definition decide_claim :: "knowledge \<Rightarrow> claim \<Rightarrow> decision" where
  "decide_claim k c =
     (let to = f64 (k_now k + offset c) in
      if to < secs_f64 (k_floor k)
      then Refuse_Claim (format_utc to @ '' is before the floor ('' @ format_utc (secs_f64 (k_floor k)) @ ''); not offered, not applied'')
      else let size = \<bar>offset c\<bar> in
        if size < IGNORE_BELOW_SECS then Ignore
        else if f64 (size + k_moved k) > secs_f64 (k_bound k) then Ask to
        else if size < SLEW_BELOW_SECS then Slew (offset c)
        else Step to)"

definition moved_after :: "knowledge \<Rightarrow> claim \<Rightarrow> decision \<Rightarrow> bool \<Rightarrow> real" where
  "moved_after k c d consented = (case d of
       Slew _ \<Rightarrow> f64 (k_moved k + \<bar>offset c\<bar>)
     | Step _ \<Rightarrow> f64 (k_moved k + \<bar>offset c\<bar>)
     | Ask _ \<Rightarrow> if consented then 0 else k_moved k
     | _ \<Rightarrow> k_moved k)"

definition clamp_to_floor :: "real \<Rightarrow> int \<Rightarrow> real option" where
  "clamp_to_floor now fl = (if now < secs_f64 fl then Some (secs_f64 fl) else None)"

section \<open>The floor\<close>

definition IMAGE_JSON :: string where "IMAGE_JSON = ''/etc/kryptik-image.json''"
definition MANIFEST_MAX :: nat where "MANIFEST_MAX = 64 * 1024"

text \<open>What \<open>symlink_metadata\<close> says of a path.\<close>

datatype file_meta = Meta_File nat | Meta_Other | Meta_Missing string | Meta_Error string

type_synonym release = "(string \<times> int) option"

definition parse_release :: "(string \<Rightarrow> string) \<Rightarrow> string \<Rightarrow> string + string \<times> int" where
  "parse_release dbg text =
     (let field = (\<lambda>k. case filter (\<lambda>l. strip_prefix k l \<noteq> None) (lines text) of l # _ \<Rightarrow> strip_prefix k l | [] \<Rightarrow> None) in
      bind_res (ok_or (Option.bind (field ''version: '') (\<lambda>v. if v = [] then None else Some v)) ''the check named no version'') (\<lambda>version.
      bind_res (ok_or (field ''created: '') ''the check named no date'') (\<lambda>created.
      bind_res (ok_or (parse_iso8601 created) (''created '' @ dbg created @ '' is not a date'')) (\<lambda>at0. Inr (version, at0)))))"

fun metas_ok :: "string \<Rightarrow> (string \<Rightarrow> file_meta) \<Rightarrow> string list \<Rightarrow> string + bool" where
  "metas_ok dir meta [] = Inr True"
| "metas_ok dir meta (name # names) = (case meta name of
       Meta_File n \<Rightarrow> if n \<le> MANIFEST_MAX then metas_ok dir meta names
                      else Inl (dir @ ''/'' @ name @ '' is not a file of a manifest's size'')
     | Meta_Other \<Rightarrow> Inl (dir @ ''/'' @ name @ '' is not a file of a manifest's size'')
     | Meta_Missing e \<Rightarrow> if name = ''manifest'' then Inr False else Inl (dir @ ''/'' @ name @ '': '' @ e)
     | Meta_Error e \<Rightarrow> Inl (dir @ ''/'' @ name @ '': '' @ e))"

definition release_in :: "(string \<Rightarrow> string) \<Rightarrow> string \<Rightarrow> (string \<Rightarrow> file_meta) \<Rightarrow> string + string \<Rightarrow> string + release" where
  "release_in dbg dir meta check =
     bind_res (metas_ok dir meta [''manifest'', ''manifest.sig'']) (\<lambda>present.
       if \<not> present then Inr None
       else bind_res check (\<lambda>text. map_sum (\<lambda>e. e) Some (parse_release dbg text)))"

definition floor_from :: "int \<Rightarrow> int option \<Rightarrow> int" where
  "floor_from built rel = (case rel of Some at0 \<Rightarrow> max at0 built | None \<Rightarrow> built)"

definition floor_of_this_system :: "string option \<Rightarrow> string + release \<Rightarrow> int option" where
  "floor_of_this_system image_json committed =
     Option.bind image_json (\<lambda>text. Option.bind (floor_from_image_json text) (\<lambda>built.
       Some (floor_from built (case committed of Inr (Some (_, at0)) \<Rightarrow> Some at0 | _ \<Rightarrow> None))))"

text \<open>A process's last reading of the kept release, with the stamp of the files and the time in milliseconds.\<close>

definition RETRY_FAILED :: nat where "RETRY_FAILED = 60000"

type_synonym 'stamp kept = "('stamp \<times> nat \<times> (string + release)) option"

definition kept_get :: "'stamp \<Rightarrow> nat \<Rightarrow> string + release \<Rightarrow> 'stamp kept \<Rightarrow> (string + release) \<times> 'stamp kept" where
  "kept_get files now fresh kept = (case kept of
       Some (seen, at0, ans) \<Rightarrow>
         if seen = files \<and> (case ans of Inr _ \<Rightarrow> True | Inl _ \<Rightarrow> now - at0 < RETRY_FAILED) then (ans, kept)
         else (fresh, Some (files, now, fresh))
     | None \<Rightarrow> (fresh, Some (files, now, fresh)))"

section \<open>Carrying a claim out\<close>

text \<open>The state file, as its values: each is printed so that it is read back as it was.\<close>

record time_state =
  ts_moved :: real
  ts_last :: "real option"

definition time_state_default :: time_state where
  "time_state_default = \<lparr>ts_moved = 0, ts_last = None\<rparr>"

datatype outcome_claim = Ignored | Slewed | Stepped | Stepped_After_Consent | Refused string

definition claim_reply :: "outcome_claim \<Rightarrow> string" where
  "claim_reply out = (case out of
       Ignored \<Rightarrow> ''ok ignored'' | Slewed \<Rightarrow> ''ok slewed'' | Stepped \<Rightarrow> ''ok stepped''
     | Stepped_After_Consent \<Rightarrow> ''ok stepped after consent'' | Refused why \<Rightarrow> ''refused: '' @ why)"

text \<open>What is done to the clock and to the files, in order.\<close>

datatype clock_act = Set_Clock real | Slew_Clock real | Set_Rtc | Save_State time_state | Record real string | Record_Claim real outcome_claim claim

text \<open>The system's answers: an error is a text; the readings are those of the clock at the start, when the
  person has answered, and afterwards.\<close>

record clock_io =
  v_now :: real
  v_answered :: real
  v_after :: real
  v_save :: "string option"
  v_save_last :: "string option"
  v_slew :: "string option"
  v_step :: "string option"
  v_rtc :: "string option"
  v_ask :: "string \<Rightarrow> string \<Rightarrow> nat \<Rightarrow> string + unit"

definition believes :: "decision \<Rightarrow> bool" where
  "believes d = (case d of Slew _ \<Rightarrow> True | Step _ \<Rightarrow> True | Ask _ \<Rightarrow> True | _ \<Rightarrow> False)"

definition ahead_of :: "knowledge \<Rightarrow> claim \<Rightarrow> decision \<Rightarrow> time_state" where
  "ahead_of k c d = \<lparr>ts_moved = moved_after k c d False, ts_last = Some (case d of Step to \<Rightarrow> to | _ \<Rightarrow> k_now k)\<rparr>"

definition carry_out :: "clock_io \<Rightarrow> claim \<Rightarrow> decision \<Rightarrow> outcome_claim \<times> clock_act list" where
  "carry_out io c d = (case d of
       Ignore \<Rightarrow> (Ignored, [])
     | Refuse_Claim why \<Rightarrow> (Refused why, [])
     | Slew off \<Rightarrow> (case v_slew io of
           None \<Rightarrow> (Slewed, [Slew_Clock off])
         | Some e \<Rightarrow> (Refused (''the clock could not be slewed: '' @ e), []))
     | Step to \<Rightarrow> (case v_step io of
           None \<Rightarrow> (Stepped, [Set_Clock to])
         | Some e \<Rightarrow> (Refused (''the clock could not be set: '' @ e), []))
     | Ask to \<Rightarrow> (case v_ask io (format_utc (v_now io)) (format_utc to) (c_sources c) of
           Inl why \<Rightarrow> (Refused (''not set without the person's consent: '' @ why), [])
         | Inr _ \<Rightarrow> (case v_step io of
               None \<Rightarrow> (Stepped_After_Consent, [Set_Clock (f64 (v_answered io + offset c))])
             | Some e \<Rightarrow> (Refused (''the clock could not be set: '' @ e), []))))"

definition was_applied :: "outcome_claim \<Rightarrow> bool" where
  "was_applied out = (case out of Slewed \<Rightarrow> True | Stepped \<Rightarrow> True | Stepped_After_Consent \<Rightarrow> True | _ \<Rightarrow> False)"

definition sync_rtc :: "clock_io \<Rightarrow> bool \<Rightarrow> clock_act list" where
  "sync_rtc io set_rtc =
     (if \<not> set_rtc then [Record (v_after io) ''the hardware clock was left alone: this boot's state is in memory'']
      else case v_rtc io of
        None \<Rightarrow> [Set_Rtc]
      | Some e \<Rightarrow> [Record (v_after io) (''the hardware clock was not updated: '' @ e)])"

text \<open>The result is the outcome, what was done, and the state file after it.\<close>

definition consider_with :: "clock_io \<Rightarrow> time_state \<Rightarrow> int option \<Rightarrow> int \<Rightarrow> claim \<Rightarrow> bool \<Rightarrow> outcome_claim \<times> clock_act list \<times> time_state" where
  "consider_with io disk flr bound c set_rtc = (case flr of
       None \<Rightarrow> (Refused (''no floor is known ('' @ IMAGE_JSON @ '' is missing or unreadable), so no claim can be judged''), [], disk)
     | Some fl \<Rightarrow>
         if (case ts_last disk of Some prev \<Rightarrow> \<bar>f64 (v_now io - prev)\<bar> < real CLAIM_INTERVAL_SECS | None \<Rightarrow> False)
         then (Refused (''one claim is considered every '' @ nat_to_string (CLAIM_INTERVAL_SECS div 60) @ '' minutes''), [], disk)
         else
           let k = \<lparr>k_now = v_now io, k_floor = fl, k_bound = bound, k_moved = ts_moved disk\<rparr>;
               d = decide_claim k c;
               ahead = ahead_of k c d in
           if believes d \<and> v_save io \<noteq> None
           then let out = Refused (''the clock's state could not be saved, so no claim is believed: '' @ the (v_save io)) in
             (out, [Record_Claim (v_now io) out c], disk)
           else
             let saved = (if believes d then [Save_State ahead] else []);
                 disk = (if believes d then ahead else disk);
                 (out, acts) = carry_out io c d;
                 consented = (out = Stepped_After_Consent);
                 st = (if was_applied out then \<lparr>ts_moved = moved_after k c d consented, ts_last = Some (v_after io)\<rparr>
                       else \<lparr>ts_moved = k_moved k, ts_last = Some (v_now io)\<rparr>);
                 rtc = (if was_applied out \<and> out \<noteq> Slewed then sync_rtc io set_rtc else []);
                 fin = (case v_save_last io of
                     None \<Rightarrow> [Save_State st]
                   | Some e \<Rightarrow> [Record (v_after io) (''the clock's state could not be saved: '' @ e)]) in
             (out, saved @ acts @ rtc @ [Record_Claim (v_after io) out c] @ fin, if v_save_last io = None then st else disk))"

definition clamp :: "clock_io \<Rightarrow> time_state \<Rightarrow> int option \<Rightarrow> (string + string) \<times> clock_act list \<times> time_state" where
  "clamp io disk flr = (case flr of
       None \<Rightarrow> (Inl (''no floor is known: '' @ IMAGE_JSON @ '' is missing or unreadable''), [], disk)
     | Some fl \<Rightarrow> (case clamp_to_floor (v_now io) fl of
         None \<Rightarrow> (Inr (''the clock ('' @ format_utc (v_now io) @ '') is not before the floor ('' @ format_utc (secs_f64 fl) @ ''); left alone''), [], disk)
       | Some to \<Rightarrow> (case v_step io of
           Some e \<Rightarrow> (Inl (''the clock could not be set to the floor: '' @ e), [], disk)
         | None \<Rightarrow>
             let st = disk\<lparr>ts_moved := 0\<rparr>;
                 rtc = (case v_rtc io of None \<Rightarrow> [Set_Rtc] | Some _ \<Rightarrow> []);
                 note = Record to (''set to the floor: the clock read '' @ format_utc (v_now io));
                 said = ''the clock read '' @ format_utc (v_now io) @ '', before the floor; set to '' @ format_utc to in
             (case v_save io of
                None \<Rightarrow> (Inr said, [Set_Clock to] @ rtc @ [Save_State st, note], st)
              | Some e \<Rightarrow> (Inr (said @ ''; the clock's state could not be saved: '' @ e), [Set_Clock to] @ rtc @ [note], disk)))))"

text \<open>
  The release a machine commits to: \<open>offered\<close> and \<open>kept\<close> are what \<^const>\<open>release_in\<close> says of the two
  directories, \<open>io\<close> answers each step of keeping the pair. The result lists the files written and the line
  the history gets.
\<close>

fun try_all :: "(string \<times> string option) list \<Rightarrow> string option" where
  "try_all [] = None"
| "try_all ((name, e) # es) = (case e of Some e \<Rightarrow> Some (name @ '': '' @ e) | None \<Rightarrow> try_all es)"

record keep_io =
  ki_dirs :: "(string \<times> string option) list"
  ki_sig :: "string + string"
  ki_sig_write :: "string option"
  ki_manifest :: "string + string"
  ki_manifest_write :: "string option"

definition keep_file :: "string \<Rightarrow> string + string \<Rightarrow> string option \<Rightarrow> string + (string \<times> string)" where
  "keep_file name bytes wr = (case bytes of
       Inl e \<Rightarrow> Inl (name @ '': '' @ e)
     | Inr b \<Rightarrow> (case wr of Some e \<Rightarrow> Inl (name @ '': '' @ e) | None \<Rightarrow> Inr (name, b)))"

definition keep_pair :: "string \<Rightarrow> int \<Rightarrow> real \<Rightarrow> keep_io \<Rightarrow> (string + string) \<times> (string \<times> string) list \<times> clock_act list" where
  "keep_pair version at0 now io = (case try_all (ki_dirs io) of
       Some e \<Rightarrow> (Inl e, [], [])
     | None \<Rightarrow> (case keep_file ''manifest.sig'' (ki_sig io) (ki_sig_write io) of
         Inl e \<Rightarrow> (Inl e, [], [])
       | Inr f1 \<Rightarrow> (case keep_file ''manifest'' (ki_manifest io) (ki_manifest_write io) of
           Inl e \<Rightarrow> (Inl e, [f1], [])
         | Inr f2 \<Rightarrow>
             let said = ''release '' @ version @ '' ('' @ format_utc (secs_f64 at0) @ '') is the floor now'' in
             (Inr said, [f1, f2], [Record now said]))))"

definition keep_release :: "string \<Rightarrow> string + release \<Rightarrow> string + release \<Rightarrow> string \<Rightarrow> real \<Rightarrow> keep_io \<Rightarrow>
    (string + string) \<times> (string \<times> string) list \<times> clock_act list" where
  "keep_release offered_dir offered kept running now io = (case offered of
       Inl e \<Rightarrow> (Inl e, [], [])
     | Inr None \<Rightarrow> (Inl (offered_dir @ '' holds no manifest''), [], [])
     | Inr (Some (version, at0)) \<Rightarrow>
         if version \<noteq> running
         then (Inl (offered_dir @ '' holds release '' @ version @ '', and this system runs '' @ running), [], [])
         else (case kept of
             Inr (Some (v, d)) \<Rightarrow>
               if d \<ge> at0 then (Inr (''release '' @ v @ '' ('' @ format_utc (secs_f64 d) @ '') stays the floor''), [], [])
               else keep_pair version at0 now io
           | _ \<Rightarrow> keep_pair version at0 now io))"

end
