(* ===== verification/Time_Safe.thy ===== *)
theory Time_Safe
  imports Time
begin

text \<open>
  What a hostile zone with the network card can do to zone 0's clock: over any sequence of claims the
  corrections made without asking stay within the bound, and nothing sets the clock below the floor.
\<close>

section \<open>One claim\<close>

lemma f64_nonneg: "0 \<le> x \<Longrightarrow> 0 \<le> f64 x"
  using f64_mono [of 0 x] by simp

lemma decide_floor:
  "decide_claim k c = Step to \<Longrightarrow> to = f64 (k_now k + offset c) \<and> secs_f64 (k_floor k) \<le> to"
  "decide_claim k c = Ask to \<Longrightarrow> to = f64 (k_now k + offset c) \<and> secs_f64 (k_floor k) \<le> to"
  by (auto simp: decide_claim_def Let_def split: if_splits)

lemma decide_unasked:
  assumes "decide_claim k c = Step to \<or> decide_claim k c = Slew off"
  shows "f64 (k_moved k + \<bar>offset c\<bar>) \<le> secs_f64 (k_bound k)"
  using assms by (auto simp: decide_claim_def Let_def add.commute split: if_splits)

lemma moved_after_bound:
  assumes "k_moved k \<le> secs_f64 (k_bound k)" "0 \<le> k_moved k"
  shows "moved_after k c (decide_claim k c) b \<le> secs_f64 (k_bound k)" "0 \<le> moved_after k c (decide_claim k c) b"
    "f64 (k_moved k) = k_moved k \<Longrightarrow> f64 (moved_after k c (decide_claim k c) b) = moved_after k c (decide_claim k c) b"
proof -
  show "f64 (k_moved k) = k_moved k \<Longrightarrow> f64 (moved_after k c (decide_claim k c) b) = moved_after k c (decide_claim k c) b"
    by (auto simp: moved_after_def f64_idem split: decision.splits)
  have "0 \<le> f64 (k_moved k + \<bar>offset c\<bar>)" using assms(2) by (intro f64_nonneg) simp
  then show "0 \<le> moved_after k c (decide_claim k c) b" using assms(2) by (auto simp: moved_after_def split: decision.splits)
  have "0 \<le> secs_f64 (k_bound k)" using assms by linarith
  then show "moved_after k c (decide_claim k c) b \<le> secs_f64 (k_bound k)"
    using assms(1) decide_unasked [of k c] by (auto simp: moved_after_def split: decision.splits)
qed

text \<open>What was moved unasked since the person last agreed, as a claim and its outcome add to it.\<close>

fun unasked :: "real \<Rightarrow> (claim \<times> outcome_claim) list \<Rightarrow> real" where
  "unasked m [] = m"
| "unasked m ((c, out) # rest) = unasked (case out of
       Slewed \<Rightarrow> f64 (m + \<bar>offset c\<bar>) | Stepped \<Rightarrow> f64 (m + \<bar>offset c\<bar>) | Stepped_After_Consent \<Rightarrow> 0 | _ \<Rightarrow> m) rest"

definition state_ok :: "int \<Rightarrow> time_state \<Rightarrow> bool" where
  "state_ok bound st \<longleftrightarrow> 0 \<le> ts_moved st \<and> ts_moved st \<le> secs_f64 bound \<and> f64 (ts_moved st) = ts_moved st"

definition knows :: "clock_io \<Rightarrow> time_state \<Rightarrow> int \<Rightarrow> int \<Rightarrow> knowledge" where
  "knows io disk fl bound = \<lparr>k_now = v_now io, k_floor = fl, k_bound = bound, k_moved = ts_moved disk\<rparr>"

definition clock_acts :: "clock_act list \<Rightarrow> clock_act set" where
  "clock_acts acts = {a \<in> set acts. case a of Set_Clock _ \<Rightarrow> True | Slew_Clock _ \<Rightarrow> True | _ \<Rightarrow> False}"

lemma consider_cases:
  assumes "consider_with io disk flr bound c rtc = (out, acts, disk')"
  obtains (refused) why where "out = Refused why" "clock_acts acts = {}" "disk' = disk"
  | (considered) fl d acts0 where "flr = Some fl" "d = decide_claim (knows io disk fl bound) c" "carry_out io c d = (out, acts0)"
      "clock_acts acts = clock_acts acts0"
      "ts_moved disk' = (if was_applied out then moved_after (knows io disk fl bound) c d (out = Stepped_After_Consent) else ts_moved disk)
       \<or> ts_moved disk' = (if believes d then moved_after (knows io disk fl bound) c d False else ts_moved disk)"
proof -
  consider "flr = None"
    | fl where "flr = Some fl" "case ts_last disk of Some prev \<Rightarrow> \<bar>f64 (v_now io - prev)\<bar> < real CLAIM_INTERVAL_SECS | None \<Rightarrow> False"
    | fl where "flr = Some fl" "\<not> (case ts_last disk of Some prev \<Rightarrow> \<bar>f64 (v_now io - prev)\<bar> < real CLAIM_INTERVAL_SECS | None \<Rightarrow> False)"
    by (cases flr) auto
  then show thesis
  proof cases
    case 1
    then show thesis using assms refused by (auto simp: consider_with_def clock_acts_def)
  next
    case 2
    then show thesis using assms refused by (auto simp: consider_with_def clock_acts_def)
  next
    case (3 fl)
    let ?k = "knows io disk fl bound"
    define d where "d = decide_claim ?k c"
    obtain o0 a0 where co: "carry_out io c d = (o0, a0)" by fastforce
    show thesis
    proof (cases "believes d \<and> v_save io \<noteq> None")
      case True
      then show thesis
        using assms 3 refused
        by (auto simp: consider_with_def clock_acts_def Let_def d_def knows_def)
    next
      case False
      have r: "out = o0 \<and> clock_acts acts = clock_acts a0
          \<and> disk' = (if v_save_last io = None
              then (if was_applied o0 then \<lparr>ts_moved = moved_after ?k c d (o0 = Stepped_After_Consent), ts_last = Some (v_after io)\<rparr>
                    else \<lparr>ts_moved = ts_moved disk, ts_last = Some (v_now io)\<rparr>)
              else if believes d then ahead_of ?k c d else disk)"
        using assms 3 False co
        unfolding consider_with_def Let_def d_def knows_def
        by (auto simp: clock_acts_def sync_rtc_def split: if_splits option.splits)
      then show thesis
        using 3 co by (intro considered [of fl d a0]) (auto simp: d_def ahead_of_def)
    qed
  qed
qed

lemma carry_out_acts:
  assumes "carry_out io c d = (out, acts)"
  shows "out = Slewed \<Longrightarrow> \<exists>off. d = Slew off" "out = Stepped \<Longrightarrow> \<exists>to. d = Step to" "out = Stepped_After_Consent \<Longrightarrow> \<exists>to. d = Ask to"
    "Set_Clock t \<in> set acts \<Longrightarrow> d = Step t \<or> (\<exists>to. d = Ask to) \<and> t = f64 (v_answered io + offset c)"
  using assms by (auto simp: carry_out_def split: decision.splits option.splits sum.splits)

lemma consider_ok:
  assumes c: "consider_with io disk flr bound c rtc = (out, acts, disk')" and ok: "state_ok bound disk"
  shows "state_ok bound disk' \<and> unasked (ts_moved disk) [(c, out)] \<le> ts_moved disk'"
  using c
proof (cases rule: consider_cases)
  case (considered fl d acts0)
  let ?k = "knows io disk fl bound"
  have k: "k_moved ?k = ts_moved disk" "k_bound ?k = bound" by (simp_all add: knows_def)
  note m = moved_after_bound [of ?k c, folded considered(2), unfolded k]
  have ok': "state_ok bound disk'" using considered(5) m ok by (auto simp: state_ok_def)
  have "unasked (ts_moved disk) [(c, out)] \<le> ts_moved disk'"
  proof (cases out)
    case Stepped_After_Consent
    then show ?thesis using ok' by (simp add: state_ok_def)
  next
    case Slewed
    then show ?thesis
      using considered(5) carry_out_acts(1) [OF considered(3)] by (auto simp: was_applied_def moved_after_def believes_def k)
  next
    case Stepped
    then show ?thesis
      using considered(5) carry_out_acts(2) [OF considered(3)] by (auto simp: was_applied_def moved_after_def believes_def k)
  next
    case Ignored
    then have "d = Ignore" using considered(3) by (auto simp: carry_out_def split: decision.splits option.splits sum.splits)
    then show ?thesis using Ignored considered(5) by (auto simp: was_applied_def believes_def)
  next
    case (Refused why)
    have "ts_moved disk \<le> f64 (ts_moved disk + \<bar>offset c\<bar>)"
      using f64_mono [of "ts_moved disk" "ts_moved disk + \<bar>offset c\<bar>"] ok by (simp add: state_ok_def)
    then show ?thesis using Refused considered(5) by (auto simp: was_applied_def moved_after_def k split: decision.splits if_splits)
  qed
  then show ?thesis using ok' by simp
qed (use ok in auto)

lemma consider_floor:
  assumes c: "consider_with io disk (Some fl) bound c rtc = (out, acts, disk')" and t: "v_now io \<le> v_answered io"
    and s: "Set_Clock to \<in> set acts"
  shows "secs_f64 fl \<le> to"
  using c
proof (cases rule: consider_cases)
  case (refused why)
  have "Set_Clock to \<in> clock_acts acts" using s by (simp add: clock_acts_def)
  then show ?thesis using refused(2) by simp
next
  case (considered fl' d acts0)
  have "Set_Clock to \<in> clock_acts acts" using s by (simp add: clock_acts_def)
  then have "Set_Clock to \<in> clock_acts acts0" by (simp only: considered(4))
  then have "Set_Clock to \<in> set acts0" by (simp add: clock_acts_def)
  moreover have "f64 (v_now io + offset c) \<le> f64 (v_answered io + offset c)" using t by (intro f64_mono) simp
  ultimately show ?thesis
    using carry_out_acts(4) [OF considered(3)] decide_floor [of "knows io disk fl bound" c] considered(1,2)
    by (fastforce simp: knows_def)
qed

section \<open>Any number of claims\<close>

fun claims :: "int option \<Rightarrow> int \<Rightarrow> (clock_io \<times> claim \<times> bool) list \<Rightarrow> time_state \<Rightarrow> (claim \<times> outcome_claim) list \<times> clock_act list \<times> time_state" where
  "claims flr bound [] disk = ([], [], disk)"
| "claims flr bound ((io, c, rtc) # rest) disk = (case consider_with io disk flr bound c rtc of (out, acts, disk1) \<Rightarrow>
     (case claims flr bound rest disk1 of (outs, acts', disk') \<Rightarrow> ((c, out) # outs, acts @ acts', disk')))"

lemma unasked_mono: "m \<le> m' \<Longrightarrow> unasked m cs \<le> unasked m' cs"
proof (induction m cs arbitrary: m' rule: unasked.induct)
  case (2 m c out rest)
  have "f64 (m + \<bar>offset c\<bar>) \<le> f64 (m' + \<bar>offset c\<bar>)" using 2(2) by (intro f64_mono) simp
  then show ?case using 2 by (auto split: outcome_claim.splits)
qed simp

lemma claims_ok:
  assumes "claims flr bound cs disk = (outs, acts, disk')" "state_ok bound disk"
  shows "state_ok bound disk' \<and> unasked (ts_moved disk) outs \<le> ts_moved disk'"
  using assms
proof (induction cs arbitrary: disk outs acts)
  case (Cons x cs)
  obtain io c rtc where x: "x = (io, c, rtc)" by (cases x)
  obtain out a1 disk1 where 1: "consider_with io disk flr bound c rtc = (out, a1, disk1)" by (metis prod_cases3)
  obtain outs1 a2 where 2: "claims flr bound cs disk1 = (outs1, a2, disk')" "outs = (c, out) # outs1"
    using Cons.prems(1) x 1 by (auto split: prod.splits)
  note ok1 = consider_ok [OF 1 Cons.prems(2)]
  have "unasked (unasked (ts_moved disk) [(c, out)]) outs1 \<le> unasked (ts_moved disk1) outs1" using ok1 by (intro unasked_mono) simp
  then show ?case using Cons.IH [OF 2(1)] ok1 2(2) by (auto intro: order_trans)
qed simp

lemma claims_floor:
  assumes "claims (Some fl) bound cs disk = (outs, acts, disk')" "list_all (\<lambda>(io, _). v_now io \<le> v_answered io) cs" "Set_Clock to \<in> set acts"
  shows "secs_f64 fl \<le> to"
  using assms
  by (induction cs arbitrary: disk outs acts) (auto split: prod.splits dest: consider_floor)

text \<open>
  C13: A zone that lies about the time moves the clock unasked by no more than the bound. Over any
  sequence of claims, whatever each says and however the person, the disk and the clock answer, the
  corrections carried out without asking since the person last agreed add up to at most what the state
  file counts, and that to at most the bound; and nothing sets the clock below the floor, provided the
  clock does not go back while a question is open.
\<close>

theorem claims_bounded:
  assumes "claims (Some fl) bound cs disk = (outs, acts, disk')" "state_ok bound disk"
    and "list_all (\<lambda>(io, _). v_now io \<le> v_answered io) cs"
  shows "unasked (ts_moved disk) outs \<le> ts_moved disk' \<and> ts_moved disk' \<le> secs_f64 bound
    \<and> (\<forall>to. Set_Clock to \<in> set acts \<longrightarrow> secs_f64 fl \<le> to)"
  using claims_ok [OF assms(1,2)] claims_floor [OF assms(1,3)] by (auto simp: state_ok_def)

text \<open>Three claims: half a second, an hour too much, and one more within ten minutes.\<close>

definition demo_clock :: "real \<Rightarrow> clock_io" where
  "demo_clock now = \<lparr>v_now = now, v_answered = now + 5, v_after = now + 5, v_save = None, v_save_last = None,
     v_slew = None, v_step = None, v_rtc = None, v_ask = (\<lambda>_ _ _. Inl ''no'')\<rparr>"

definition demo_claims :: "(clock_io \<times> claim \<times> bool) list" where
  "demo_claims = [(demo_clock 2000000000, \<lparr>offset = 2, c_sources = 4\<rparr>, True), (demo_clock 2000001000, \<lparr>offset = 4000, c_sources = 4\<rparr>, True)]"

lemma ignore_small: "IGNORE_BELOW_SECS \<le> 1"
  using f64_mono [of "5 / 1000" 1] f64_of_int [of 1] by (simp add: IGNORE_BELOW_SECS_def)

lemma demo_claims_run:
  "\<exists>acts disk'. claims (Some 1700000000) 3600 demo_claims time_state_default
     = ([(\<lparr>offset = 2, c_sources = 4\<rparr>, Stepped), (\<lparr>offset = 4000, c_sources = 4\<rparr>, Refused (''not set without the person's consent: '' @ ''no''))], acts, disk')
     \<and> Set_Clock 2000000002 \<in> set acts"
  using ignore_small
  by (simp add: demo_claims_def demo_clock_def time_state_default_def consider_with_def Let_def decide_claim_def f64_numeral
      carry_out_def believes_def was_applied_def moved_after_def ahead_of_def SLEW_BELOW_SECS_def CLAIM_INTERVAL_SECS_def)

theorem claims_bounded_witness:
  "\<exists>outs acts disk'. claims (Some 1700000000) 3600 demo_claims time_state_default = (outs, acts, disk')
     \<and> map snd outs = [Stepped, Refused (''not set without the person's consent: '' @ ''no'')]
     \<and> unasked 0 outs \<le> ts_moved disk' \<and> ts_moved disk' \<le> 3600"
proof -
  obtain acts disk' where r: "claims (Some 1700000000) 3600 demo_claims time_state_default
     = ([(\<lparr>offset = 2, c_sources = 4\<rparr>, Stepped), (\<lparr>offset = 4000, c_sources = 4\<rparr>, Refused (''not set without the person's consent: '' @ ''no''))], acts, disk')"
    using demo_claims_run by blast
  have ok: "state_ok 3600 time_state_default" by (simp add: state_ok_def time_state_default_def f64_numeral)
  have "list_all (\<lambda>(io, _). v_now io \<le> v_answered io) demo_claims" by (simp add: demo_claims_def demo_clock_def)
  from claims_bounded [OF r ok this] show ?thesis
    unfolding r by (simp add: time_state_default_def f64_numeral)
qed

end
