(* ===== verification/Consent.thy ===== *)
theory Consent
  imports Rust_Str
begin

text \<open>
  Questions for the person in zone 0 (\<open>compartments/kryptikd/src/consent.rs\<close>): the channel, the question,
  and the wait for the answer. What the directory holds is a parameter; the wait is the sequence of its
  looks at the answer's file, with the clock in milliseconds and what \<open>asking\<close> said.
\<close>

section \<open>Text from bytes\<close>

text \<open>
  \<open>String::from_utf8_lossy\<close>: each longest piece that begins a character and does not end it, and each
  other byte that begins none, becomes U+FFFD.
\<close>

definition bad_width :: "bytes \<Rightarrow> nat" where
  "bad_width s = (case s of [] \<Rightarrow> 0 | b # r \<Rightarrow> (let x = of_char b :: nat in
     if 0xE0 \<le> x \<and> x < 0xF0 then
       (case r of c # _ \<Rightarrow> if byte_in (if x = 0xE0 then 0xA0 else 0x80) (if x = 0xED then 0x9F else 0xBF) c then 2 else 1 | [] \<Rightarrow> 1)
     else if 0xF0 \<le> x \<and> x < 0xF5 then
       (case r of c # r' \<Rightarrow>
          if byte_in (if x = 0xF0 then 0x90 else 0x80) (if x = 0xF4 then 0x8F else 0xBF) c
          then (case r' of d # _ \<Rightarrow> if is_cont d then 3 else 2 | [] \<Rightarrow> 2) else 1
        | [] \<Rightarrow> 1)
     else 1))"

definition REPLACEMENT :: bytes where "REPLACEMENT = [CHR 0xEF, CHR 0xBF, CHR 0xBD]"

function utf8_lossy :: "bytes \<Rightarrow> bytes" where
  "utf8_lossy s = (if s = [] then []
     else if utf8_width s \<noteq> 0 then take (utf8_width s) s @ utf8_lossy (drop (utf8_width s) s)
     else REPLACEMENT @ utf8_lossy (drop (max 1 (bad_width s)) s))"
  by pat_completeness auto
termination
  by (relation "measure length") auto

declare utf8_lossy.simps [simp del]

section \<open>The channel\<close>

definition TIMEOUT_SECS :: nat where "TIMEOUT_SECS = 60"
definition ANSWER_MAX :: nat where "ANSWER_MAX = 64"
definition S_IWOTH :: nat where "S_IWOTH = 2"

text \<open>The directory as \<open>open\<close> and \<open>fstat\<close> give it: an error, or its owner and mode.\<close>

datatype channel = Unopened string | Unstated string | Channel nat nat

definition open_channel :: "string \<Rightarrow> nat \<Rightarrow> channel \<Rightarrow> string + unit" where
  "open_channel d me ch = (case ch of
       Unopened e \<Rightarrow> Inl (''no consent channel at '' @ d @ '': nothing in zone 0 can approve this request ('' @ e @ '')'')
     | Unstated e \<Rightarrow> Inl (''no consent channel at '' @ d @ '': '' @ e)
     | Channel uid mode \<Rightarrow>
         if uid \<noteq> 0 \<and> uid \<noteq> me then Inl (''no consent channel: '' @ d @ '' belongs to uid '' @ nat_to_string uid @ '', not to root; refused'')
         else if mode div S_IWOTH mod 2 = 1 then Inl (''no consent channel: '' @ d @ '' is writable by everyone; refused'')
         else Inr ())"

section \<open>The answer\<close>

datatype answer_file = No_File | Plain_File bytes | Not_Plain string

definition read_answer_file :: "answer_file \<Rightarrow> string + string option" where
  "read_answer_file f = (case f of
       No_File \<Rightarrow> Inr None
     | Plain_File bs \<Rightarrow> Inr (Some (utf8_lossy (take ANSWER_MAX bs)))
     | Not_Plain e \<Rightarrow> Inl e)"

definition answered :: "(string \<Rightarrow> string) \<Rightarrow> string \<Rightarrow> string + unit" where
  "answered dbg a =
     (let first = trim (case lines a of l # _ \<Rightarrow> l | [] \<Rightarrow> []) in
      if first = ''yes'' then Inr ()
      else if first = ''no'' then Inl ''refused by the user in zone 0''
      else Inl (''consent: malformed answer '' @ dbg first @ ''; treated as a refusal''))"

record look =
  lk_file :: answer_file
  lk_now :: nat
  lk_asking :: bool

text \<open>The wait; \<^const>\<open>None\<close> is still waiting.\<close>

fun await :: "(string \<Rightarrow> string) \<Rightarrow> nat \<Rightarrow> nat \<Rightarrow> look list \<Rightarrow> (string + unit) option" where
  "await dbg secs deadline [] = None"
| "await dbg secs deadline (l # ls) = (case read_answer_file (lk_file l) of
       Inr (Some a) \<Rightarrow> Some (answered dbg a)
     | Inl e \<Rightarrow> Some (Inl (''consent: the answer is not a plain file ('' @ e @ ''); treated as a refusal''))
     | Inr None \<Rightarrow>
         if lk_now l \<ge> deadline
         then Some (Inl (''no answer from zone 0 within '' @ nat_to_string secs @ '' s; treated as a refusal''))
         else if \<not> lk_asking l then Some (Inl ''the asking zone went away while the question was open; withdrawn'')
         else await dbg secs deadline ls)"

section \<open>Asking\<close>

record refusal =
  r_why :: string
  r_shown :: bool

text \<open>What the question meets: the channel, whether a window watches it, where it is placed, and the looks.\<close>

record consent_io =
  ci_dir :: string
  ci_me :: nat
  ci_channel :: channel
  ci_watched :: bool
  ci_placed :: "string + string"
  ci_start :: nat
  ci_looks :: "look list"

definition unseen :: "string \<Rightarrow> refusal" where
  "unseen why = \<lparr>r_why = why, r_shown = False\<rparr>"

definition ask_text :: "(string \<Rightarrow> string) \<Rightarrow> consent_io \<Rightarrow> string \<Rightarrow> (refusal + unit) option" where
  "ask_text dbg io text = (case open_channel (ci_dir io) (ci_me io) (ci_channel io) of
       Inl e \<Rightarrow> Some (Inl (unseen e))
     | Inr _ \<Rightarrow>
         if \<not> ci_watched io
         then Some (Inl (unseen (''no consent channel: no trusted window in zone 0 is watching '' @ ci_dir io @ ''; refused'')))
         else (case ci_placed io of
             Inl e \<Rightarrow> Some (Inl (unseen e))
           | Inr _ \<Rightarrow> map_option (\<lambda>r. case r of Inr _ \<Rightarrow> Inr () | Inl why \<Rightarrow> Inl \<lparr>r_why = why, r_shown = True\<rparr>)
               (await dbg TIMEOUT_SECS (ci_start io + 1000 * TIMEOUT_SECS) (ci_looks io))))"

definition transfer_question :: "string \<Rightarrow> string \<Rightarrow> string \<Rightarrow> nat \<Rightarrow> string" where
  "transfer_question from to name bytes =
     ''from='' @ from @ [CHR 0x0A] @ ''to='' @ to @ [CHR 0x0A] @ ''name='' @ name @ [CHR 0x0A] @ ''bytes='' @ nat_to_string bytes @ [CHR 0x0A]"

definition consent_ask :: "(string \<Rightarrow> string) \<Rightarrow> (string \<Rightarrow> consent_io) \<Rightarrow> string \<Rightarrow> string \<Rightarrow> string \<Rightarrow> nat \<Rightarrow> (refusal + unit) option" where
  "consent_ask dbg io from to name bytes =
     (let q = transfer_question from to name bytes in ask_text dbg (io q) q)"

definition clock_question :: "string \<Rightarrow> string \<Rightarrow> nat \<Rightarrow> string" where
  "clock_question now proposed sources =
     ''kind=clock'' @ [CHR 0x0A] @ ''now='' @ now @ [CHR 0x0A] @ ''proposed='' @ proposed @ [CHR 0x0A] @ ''sources='' @ nat_to_string sources @ [CHR 0x0A]"

definition ask_clock :: "(string \<Rightarrow> string) \<Rightarrow> (string \<Rightarrow> consent_io) \<Rightarrow> string \<Rightarrow> string \<Rightarrow> nat \<Rightarrow> (string + unit) option" where
  "ask_clock dbg io now proposed sources =
     (let q = clock_question now proposed sources in
      map_option (\<lambda>r. case r of Inr _ \<Rightarrow> Inr () | Inl e \<Rightarrow> Inl (r_why e)) (ask_text dbg (io q) q))"

section \<open>What a yes is\<close>

text \<open>A plain file in a place only zone 0 writes, whose first line says so, seen before the deadline.\<close>

definition said_yes :: "answer_file \<Rightarrow> bool" where
  "said_yes f \<longleftrightarrow> (case f of Plain_File bs \<Rightarrow> trim (case lines (utf8_lossy (take ANSWER_MAX bs)) of l # _ \<Rightarrow> l | [] \<Rightarrow> []) = ''yes'' | _ \<Rightarrow> False)"

lemma first_look:
  "(\<exists>before x after. y # ys = before @ x # after \<and> Q x \<and> list_all P before) \<longleftrightarrow>
     Q y \<or> P y \<and> (\<exists>before x after. ys = before @ x # after \<and> Q x \<and> list_all P before)"
proof
  assume "\<exists>before x after. y # ys = before @ x # after \<and> Q x \<and> list_all P before"
  then obtain before x after where h: "y # ys = before @ x # after" "Q x" "list_all P before" by blast
  then show "Q y \<or> P y \<and> (\<exists>before x after. ys = before @ x # after \<and> Q x \<and> list_all P before)"
    by (cases before) auto
next
  assume "Q y \<or> P y \<and> (\<exists>before x after. ys = before @ x # after \<and> Q x \<and> list_all P before)"
  then show "\<exists>before x after. y # ys = before @ x # after \<and> Q x \<and> list_all P before"
    by (elim disjE conjE exE) (rule exI [of _ "[]"], simp, rename_tac before x after, rule_tac x = "y # before" in exI, simp)
qed

lemma await_yes:
  "await dbg secs deadline ls = Some (Inr u) \<longleftrightarrow>
     (\<exists>before l after. ls = before @ l # after \<and> said_yes (lk_file l)
        \<and> list_all (\<lambda>b. lk_file b = No_File \<and> lk_now b < deadline \<and> lk_asking b) before)"
proof (induction ls)
  case (Cons l ls)
  show ?case
    unfolding first_look
    using Cons by (cases "lk_file l") (auto simp: read_answer_file_def said_yes_def answered_def Let_def)
qed simp

lemma await_returns: "(\<exists>l \<in> set ls. lk_now l \<ge> deadline) \<Longrightarrow> await dbg secs deadline ls \<noteq> None"
  by (induction ls) (auto split: sum.splits option.splits)

lemma map_yes: "map_option (case_sum (\<lambda>why. Inl (f why)) Inr) x = Some (Inr u) \<longleftrightarrow> x = Some (Inr u)"
  by (cases x) (auto split: sum.splits)

lemma ask_text_yes:
  "ask_text dbg io q = Some (Inr u) \<longleftrightarrow>
     (\<exists>uid mode. ci_channel io = Channel uid mode \<and> (uid = 0 \<or> uid = ci_me io) \<and> mode div S_IWOTH mod 2 \<noteq> 1)
     \<and> ci_watched io \<and> (\<exists>i. ci_placed io = Inr i)
     \<and> (\<exists>before l after. ci_looks io = before @ l # after \<and> said_yes (lk_file l)
        \<and> list_all (\<lambda>b. lk_file b = No_File \<and> lk_now b < ci_start io + 60000 \<and> lk_asking b) before)"
  using await_yes [of dbg TIMEOUT_SECS "ci_start io + 1000 * TIMEOUT_SECS" "ci_looks io" "()"]
  by (cases "ci_channel io"; cases "ci_placed io")
    (simp_all add: ask_text_def open_channel_def TIMEOUT_SECS_def map_yes del: map_option_eq_Some)

end
