(* ===== verification/Broker.thy ===== *)
theory Broker
  imports Zone Time Consent
begin

text \<open>
  The zone broker (\<open>compartments/kryptikd/src/broker.rs\<close>): the requests a zone may make of zone 0, and
  how a request's line is read.
\<close>

section \<open>Requests\<close>

definition CLIPBOARD_MAX :: nat where "CLIPBOARD_MAX = 2 ^ 20"
definition POINTER_MAX :: nat where "POINTER_MAX = 8 * 1024"
definition PUT_MAX :: nat where "PUT_MAX = 2 ^ 20"

definition MIME_TYPES :: "string list" where
  "MIME_TYPES = [''text/plain'', ''text/plain;charset=utf-8'', ''text/html'', ''text/uri-list'', ''image/png'', ''image/jpeg'',
     ''application/octet-stream'']"

datatype br_request =
    Version
  | Clipboard_Set string nat
  | Clipboard_Get
  | Not_A_Zone_Verb string
  | Transfer string string
  | Time_Offset claim
  | Update_Latest nat nat
  | Update_Poll
  | Update_Put string nat nat
  | Stick
  | Unknown string

definition request_name :: "br_request \<Rightarrow> string" where
  "request_name r = (case r of
       Version \<Rightarrow> ''version'' | Clipboard_Set _ _ \<Rightarrow> ''clipboard-set'' | Clipboard_Get \<Rightarrow> ''clipboard-get''
     | Not_A_Zone_Verb _ \<Rightarrow> ''zone 0 verb'' | Transfer _ _ \<Rightarrow> ''transfer'' | Time_Offset _ \<Rightarrow> ''time-offset''
     | Update_Latest _ _ \<Rightarrow> ''update-latest'' | Update_Poll \<Rightarrow> ''update-poll'' | Update_Put _ _ _ \<Rightarrow> ''update-put''
     | Stick \<Rightarrow> ''stick'' | Unknown _ \<Rightarrow> ''unknown verb'')"

definition check_zone_name :: "(string \<Rightarrow> string) \<Rightarrow> string \<Rightarrow> string + unit" where
  "check_zone_name dbg s =
     (if s = [] \<or> length s > 12 \<or> \<not> all_chars (\<lambda>c. is_ascii_lowercase c \<or> is_ascii_digit c \<or> c = CHR ''-'') s
      then Inl (dbg s @ '' is not a zone name'') else Inr ())"

definition check_transfer_name :: "(string \<Rightarrow> string) \<Rightarrow> string \<Rightarrow> string + unit" where
  "check_transfer_name dbg n =
     (if n = [] \<or> length n > 255 then Inl ''name must be 1 to 255 bytes''
      else if CHR ''/'' \<in> set n then Inl (''name '' @ dbg n @ '' must be a single path component'')
      else if n = ''.'' \<or> n = ''..'' then Inl (''name '' @ dbg n @ '' is not a file name'')
      else if hd n = CHR ''.'' then Inl (''name '' @ dbg n @ '' must not start with a dot'')
      else if \<not> list_all (byte_in 0x21 0x7E) n then Inl (''name '' @ dbg n @ '' must be printable ASCII without spaces'')
      else Inr ())"

definition update_size :: "(string \<Rightarrow> string) \<Rightarrow> string \<Rightarrow> string \<Rightarrow> string + nat" where
  "update_size dbg what w = (case parse_uint 64 w of
       Some n \<Rightarrow> if 1 \<le> n \<and> n \<le> POINTER_MAX then Inr n
                 else Inl (what @ '' length '' @ dbg w @ '' is not 1 to '' @ nat_to_string POINTER_MAX @ '' bytes'')
     | None \<Rightarrow> Inl (what @ '' length '' @ dbg w @ '' is not 1 to '' @ nat_to_string POINTER_MAX @ '' bytes''))"

definition req_clipboard_set :: "(string \<Rightarrow> string) \<Rightarrow> string list \<Rightarrow> string + br_request" where
  "req_clipboard_set dbg rest = (case rest of
       [mime, len] \<Rightarrow>
         if mime \<notin> set MIME_TYPES then Inl (''unsupported MIME type '' @ dbg mime)
         else bind_res (ok_or (parse_uint 64 len) (''bad length '' @ dbg len)) (\<lambda>n.
           if n > CLIPBOARD_MAX
           then Inl (''payload of '' @ nat_to_string n @ '' bytes exceeds the '' @ nat_to_string CLIPBOARD_MAX @ ''-byte clipboard limit'')
           else Inr (Clipboard_Set mime n))
     | _ \<Rightarrow> Inl ''usage: clipboard-set <mime> <len>'')"

definition req_transfer :: "(string \<Rightarrow> string) \<Rightarrow> string list \<Rightarrow> string + br_request" where
  "req_transfer dbg rest = (case rest of
       [dest, name] \<Rightarrow> bind_res (check_zone_name dbg dest) (\<lambda>_. bind_res (check_transfer_name dbg name) (\<lambda>_. Inr (Transfer dest name)))
     | _ \<Rightarrow> Inl ''usage: transfer <zone> <name>, with the file as one SCM_RIGHTS descriptor'')"

definition req_update_put :: "(string \<Rightarrow> string) \<Rightarrow> string list \<Rightarrow> string + br_request" where
  "req_update_put dbg rest = (case rest of
       [name, offs, len] \<Rightarrow> bind_res (check_transfer_name dbg name) (\<lambda>_.
         bind_res (ok_or (parse_uint 64 offs) (''bad offset '' @ dbg offs)) (\<lambda>o'.
         let bad = Inl (''length '' @ dbg len @ '' is not 1 to '' @ nat_to_string PUT_MAX @ '' bytes'') in
         (case parse_uint 64 len of
            Some n \<Rightarrow> if 1 \<le> n \<and> n \<le> PUT_MAX then Inr (Update_Put name o' n) else bad
          | None \<Rightarrow> bad)))
     | _ \<Rightarrow> Inl ''usage: update-put <name> <offset> <len>, then the bytes'')"

definition parse_request :: "(string \<Rightarrow> string) \<Rightarrow> string \<Rightarrow> string + br_request" where
  "parse_request dbg line =
     (let ws = split_whitespace line;
          verb = (case ws of w # _ \<Rightarrow> w | [] \<Rightarrow> []);
          rest = drop 1 ws in
      if verb = ''version'' \<and> rest = [] then Inr Version
      else if verb = ''clipboard-get'' \<and> rest = [] then Inr Clipboard_Get
      else if verb = ''clipboard-set'' then req_clipboard_set dbg rest
      else if verb = ''clipboard-move'' then Inr (Not_A_Zone_Verb verb)
      else if verb = ''transfer'' then req_transfer dbg rest
      else if verb = ''time-offset''
      then (case rest of [secs, sources] \<Rightarrow> map_sum (\<lambda>e. e) Time_Offset (parse_claim dbg (secs @ '' '' @ sources)) | _ \<Rightarrow> Inl usage_claim)
      else if verb = ''update-latest''
      then (case rest of
          [plen, slen] \<Rightarrow> bind_res (update_size dbg ''pointer'' plen) (\<lambda>p. bind_res (update_size dbg ''signature'' slen) (\<lambda>s. Inr (Update_Latest p s)))
        | _ \<Rightarrow> Inl ''usage: update-latest <pointer-len> <signature-len>, then the two'')
      else if verb = ''update-poll'' then (if rest = [] then Inr Update_Poll else Inl ''usage: update-poll'')
      else if verb = ''update-put'' then req_update_put dbg rest
      else if verb = ''stick'' then (if rest = [] then Inr Stick else Inl ''usage: stick'')
      else if verb = [] then Inl ''empty request''
      else Inr (Unknown verb))"

section \<open>What only the zone with the network card may ask\<close>

definition update_refusal :: "(string \<Rightarrow> string) \<Rightarrow> zone \<Rightarrow> string option" where
  "update_refusal dbg z =
     (if z_network z \<noteq> Net_Nic
      then Some (''zone '' @ dbg (z_name z) @ '' does not hold the network; only the zone that does may bring an update'') else None)"

text \<open>\<open>v_ask\<close> of \<open>io\<close> is the question \<open>ask_clock\<close> puts; \<open>set_rtc\<close> is false in a boot whose state is in memory.\<close>

definition time_offset_in :: "(string \<Rightarrow> string) \<Rightarrow> zone \<Rightarrow> claim \<Rightarrow> clock_io \<Rightarrow> time_state \<Rightarrow> int option \<Rightarrow> bool \<Rightarrow>
    outcome_claim \<times> clock_act list \<times> time_state" where
  "time_offset_in dbg z c io disk flr set_rtc =
     (if z_network z \<noteq> Net_Nic
      then (Refused (''zone '' @ dbg (z_name z) @ '' does not hold the network; only the zone that does may report the time''), [], disk)
      else consider_with io disk flr DEFAULT_BOUND_SECS c set_rtc)"

end
