(* ===== verification/Broker_Transfer.thy ===== *)
theory Broker_Transfer
  imports Broker
begin

text \<open>
  The transfer of a file between zones (\<open>handle_transfer\<close>, \<open>deliver\<close>, \<open>deliver_into\<close>, \<open>fill\<close>, \<open>copy_capped\<close>
  and \<open>write_all\<close> of \<open>compartments/kryptikd/src/broker.rs\<close>). The destination's \<open>incoming/\<close>, the thread's
  file-system identity and the pause after a refusal are explicit state; what the kernel and the
  registry answer is a record of the call.
\<close>

unbundle bit_operations_syntax

section \<open>Copying a file\<close>

text \<open>
  An answer of \<open>copy_file_range\<close> or \<open>pread\<close>: the file as it is at that call and how many bytes the call
  takes of what it was asked for, or an error number. With no answer left the file has ended; with
  none left of \<open>write\<close>, it takes all.
\<close>

datatype copy_answer = Copied bytes nat | Copy_Error int

datatype wrote = Wrote nat | Write_Intr | Write_Error string

record copy_io =
  cp_range :: "copy_answer list"
  cp_reads :: "copy_answer list"
  cp_writes :: "wrote list"
  cp_err :: "int \<Rightarrow> string"

definition EINTR_copy :: int where "EINTR_copy = 4"

definition no_range :: "int list" where
  "no_range = [18, 22, 38, 95]"

text \<open>The error or none, the file written so far, and the answers left.\<close>

fun write_all :: "wrote list \<Rightarrow> bytes \<Rightarrow> bytes \<Rightarrow> string option \<times> bytes \<times> wrote list" where
  "write_all [] data out = (None, out @ data, [])"
| "write_all (w # ws) data out =
     (if data = [] then (None, out, w # ws)
      else case w of
        Wrote n \<Rightarrow> write_all ws (drop n data) (out @ take n data)
      | Write_Intr \<Rightarrow> write_all ws data out
      | Write_Error e \<Rightarrow> (Some e, out, ws))"

text \<open>A size is an \<open>off_t\<close>, below \<open>2^63\<close>, so \<open>cap + 1\<close> does not wrap.\<close>

definition copy_want :: "nat \<Rightarrow> nat \<Rightarrow> nat" where
  "copy_want cap sofar = min (2 ^ 20) (cap + 1 - sofar)"

definition too_long :: "nat \<Rightarrow> string" where
  "too_long cap = ''the file is longer than the '' @ nat_to_string cap @ '' bytes checked; aborted''"

definition taken_at :: "bytes \<Rightarrow> nat \<Rightarrow> nat \<Rightarrow> nat \<Rightarrow> bytes" where
  "taken_at now sofar n want = take (min n want) (drop sofar now)"

definition PREAD_BUF :: nat where "PREAD_BUF = 2 ^ 16"

text \<open>The loop once it has fallen back, with its buffer of 65,536 bytes.\<close>

fun copy_reads :: "(int \<Rightarrow> string) \<Rightarrow> nat \<Rightarrow> copy_answer list \<Rightarrow> wrote list \<Rightarrow> nat \<Rightarrow> bytes \<Rightarrow> (string + nat) \<times> bytes" where
  "copy_reads err cap [] ws sofar out = (Inr sofar, out)"
| "copy_reads err cap (Copy_Error e # as) ws sofar out =
     (if e = EINTR_copy then copy_reads err cap as ws sofar out else (Inl (''read: '' @ err e), out))"
| "copy_reads err cap (Copied now n # as) ws sofar out =
     (let bs = taken_at now sofar n (min PREAD_BUF (copy_want cap sofar)) in
      if bs = [] then (Inr sofar, out)
      else case write_all ws bs out of
        (Some e, out', _) \<Rightarrow> (Inl (''write: '' @ e), out')
      | (None, out', ws') \<Rightarrow>
          if sofar + length bs > cap then (Inl (too_long cap), out')
          else copy_reads err cap as ws' (sofar + length bs) out')"

fun copy_range :: "nat \<Rightarrow> copy_io \<Rightarrow> copy_answer list \<Rightarrow> nat \<Rightarrow> bytes \<Rightarrow> (string + nat) \<times> bytes" where
  "copy_range cap io [] sofar out = (Inr sofar, out)"
| "copy_range cap io (Copy_Error e # as) sofar out =
     (if e = EINTR_copy then copy_range cap io as sofar out
      else if e \<in> set no_range \<and> sofar = 0 then copy_reads (cp_err io) cap (cp_reads io) (cp_writes io) sofar out
      else (Inl (''copy: '' @ cp_err io e), out))"
| "copy_range cap io (Copied now n # as) sofar out =
     (let bs = taken_at now sofar n (copy_want cap sofar) in
      if bs = [] then (Inr sofar, out)
      else if sofar + length bs > cap then (Inl (too_long cap), out @ bs)
      else copy_range cap io as (sofar + length bs) (out @ bs))"

definition copy_capped :: "copy_io \<Rightarrow> nat \<Rightarrow> (string + nat) \<times> bytes" where
  "copy_capped io cap = copy_range cap io (cp_range io) 0 []"

section \<open>Delivering it\<close>

text \<open>Where it lands: the identity. The root and the home's path go to \<open>openat2\<close> alone.\<close>

record target =
  t_uid :: nat
  t_gid :: nat

text \<open>
  \<open>dl_root\<close> is an effective uid of 0; a \<^typ>\<open>string option\<close> is a call's error, if it fails. \<open>dl_mkdir\<close> is an
  error other than \<open>EEXIST\<close>, \<open>dl_create\<close> one other than \<open>EEXIST\<close> for that name, \<open>dl_unlinked\<close> whether the
  unlink after a failed copy succeeds, which the code does not look at.
\<close>

record deliver_io =
  dl_home :: "string option"
  dl_root :: bool
  dl_mkdir :: "string option"
  dl_chown :: "string option"
  dl_open :: "string option"
  dl_owner :: "string + nat"
  dl_create :: "string \<Rightarrow> string option"
  dl_fchown :: "string option"
  dl_copy :: copy_io
  dl_fsync :: "string option"
  dl_unlinked :: bool

text \<open>A directory: its names and what each holds. Anything but a file, too, makes \<open>O_EXCL\<close> fail.\<close>

type_synonym dir_entries = "(string, bytes) hmap"

record broker_st =
  b_until :: "nat option"
  b_incoming :: "dir_entries option"
  b_fsids :: "nat \<times> nat"

definition fill :: "deliver_io \<Rightarrow> nat \<Rightarrow> (string + nat) \<times> bytes" where
  "fill io bytes = (case (if dl_root io then dl_fchown io else None) of
       Some e \<Rightarrow> (Inl (''ownership: '' @ e), [])
     | None \<Rightarrow> (case copy_capped (dl_copy io) bytes of
         (Inl e, out) \<Rightarrow> (Inl e, out)
       | (Inr n, out) \<Rightarrow>
           if n \<noteq> bytes
           then (Inl (''the file shrank to '' @ nat_to_string n @ '' of the '' @ nat_to_string bytes @ '' bytes checked; aborted''), out)
           else (case dl_fsync io of Some e \<Rightarrow> (Inl (''fsync: '' @ e), out) | None \<Rightarrow> (Inr n, out))))"

definition candidate :: "string \<Rightarrow> nat \<Rightarrow> string" where
  "candidate name i = (if i = 1 then name else name @ ''-'' @ nat_to_string i)"

definition numbers :: "nat list" where "numbers = [1 ..< 101]"

fun try_names :: "deliver_io \<Rightarrow> string \<Rightarrow> nat \<Rightarrow> nat list \<Rightarrow> dir_entries \<Rightarrow> (string + string \<times> nat) \<times> dir_entries" where
  "try_names io name bytes [] inc = (Inl (''incoming/ already holds '' @ name @ '' and 99 numbered variants of it''), inc)"
| "try_names io name bytes (i # is) inc =
     (let cand = candidate name i in
      if hm_contains inc cand then try_names io name bytes is inc
      else case dl_create io cand of
        Some e \<Rightarrow> (Inl (''incoming/'' @ cand @ '': '' @ e), inc)
      | None \<Rightarrow> (case fill io bytes of
          (Inr n, out) \<Rightarrow> (Inr (cand, n), hm_insert cand out inc)
        | (Inl e, out) \<Rightarrow>
            (Inl e, if dl_unlinked io then hm_remove cand (hm_insert cand out inc) else hm_insert cand out inc)))"

definition deliver_into :: "deliver_io \<Rightarrow> target \<Rightarrow> string \<Rightarrow> nat \<Rightarrow> dir_entries option \<Rightarrow>
    (string + string \<times> nat) \<times> dir_entries option" where
  "deliver_into io t name bytes inc = (case dl_mkdir io of
       Some e \<Rightarrow> (Inl (''incoming/: '' @ e), inc)
     | None \<Rightarrow>
         let made = (inc = None); entries = (case inc of Some es \<Rightarrow> es | None \<Rightarrow> []) in
         (case (if made \<and> dl_root io then dl_chown io else None) of
            Some e \<Rightarrow> (Inl (''incoming/ ownership: '' @ e), Some entries)
          | None \<Rightarrow> (case dl_open io of
              Some e \<Rightarrow> (Inl (''incoming/ is not a plain directory: '' @ e), Some entries)
            | None \<Rightarrow> (case dl_owner io of
                Inl e \<Rightarrow> (Inl (''incoming/: '' @ e), Some entries)
              | Inr uid \<Rightarrow>
                  if uid \<noteq> t_uid t then (Inl ''incoming/ is not owned by the destination zone'', Some entries)
                  else map_prod (\<lambda>r. r) Some (try_names io name bytes numbers entries)))))"

definition deliver :: "deliver_io \<Rightarrow> target \<Rightarrow> string \<Rightarrow> nat \<Rightarrow> broker_st \<Rightarrow> (string + string \<times> nat) \<times> broker_st" where
  "deliver io t name bytes st = (case dl_home io of
       Some e \<Rightarrow> (Inl (''destination home is not reachable: '' @ e), st)
     | None \<Rightarrow>
         let st = (if dl_root io then st\<lparr>b_fsids := (t_uid t, t_gid t)\<rparr> else st);
             (r, inc) = deliver_into io t name bytes (b_incoming st);
             st = st\<lparr>b_incoming := inc\<rparr> in
         (r, if dl_root io then st\<lparr>b_fsids := (0, 0)\<rparr> else st))"

section \<open>The checks\<close>

definition REFUSAL_PAUSE :: nat where "REFUSAL_PAUSE = 60000"
definition S_IFMT :: "32 word" where "S_IFMT = 0xF000"
definition S_IFREG :: "32 word" where "S_IFREG = 0x8000"
definition O_PATH_fl :: "32 word" where "O_PATH_fl = 0x200000"
definition O_ACCMODE_fl :: "32 word" where "O_ACCMODE_fl = 3"
definition O_RDONLY_fl :: "32 word" where "O_RDONLY_fl = 0"

record file_stat =
  st_mode :: "32 word"
  st_dev :: nat
  st_size :: nat

text \<open>
  What the broker serves a transfer with: the zone and its limits, and the answers of the request.
  \<open>sv_resolve_first\<close> and \<open>sv_resolve\<close> are the two look-ups of the destination, before and after the
  question; \<open>sv_zone_text\<close> reads a zone file, \<open>sv_now\<close> and \<open>sv_refused_at\<close> are the clock before and after it.
\<close>

record served_zone =
  sv_zone :: zone
  sv_auto_approve :: bool
  sv_max_bytes :: nat
  sv_home_dev :: "nat option"
  sv_zone_text :: "string \<Rightarrow> string + string"
  sv_fstat :: "string + file_stat"
  sv_getfl :: "string + 32 word"
  sv_resolve_first :: "string + target"
  sv_resolve :: "string + target"
  sv_now :: nat
  sv_refused_at :: nat
  sv_consent :: "string \<Rightarrow> consent_io"
  sv_deliver :: deliver_io

definition from_file :: "(string \<Rightarrow> string) \<Rightarrow> string + string \<Rightarrow> zone_error + zone" where
  "from_file dbg text = (case text of Inl e \<Rightarrow> Inl (Z_Io e) | Inr t \<Rightarrow> from_str dbg t)"

definition lower_limit :: "(string \<Rightarrow> string) \<Rightarrow> zone \<Rightarrow> nat \<times> string \<Rightarrow> nat \<times> string" where
  "lower_limit dbg z lw = (case z_transfer_max z of
       Some m \<Rightarrow> if m < fst lw then (m, '' ([transfer] max_bytes of zone '' @ dbg (z_name z) @ '')'') else lw
     | None \<Rightarrow> lw)"

definition check_descriptor :: "served_zone \<Rightarrow> string + file_stat" where
  "check_descriptor s =
     bind_res (map_sum (\<lambda>e. ''descriptor: '' @ e) (\<lambda>st. st) (sv_fstat s)) (\<lambda>st.
     if st_mode st AND S_IFMT \<noteq> S_IFREG then Inl ''descriptor is not a regular file''
     else bind_res (map_sum (\<lambda>e. ''descriptor flags: '' @ e) (\<lambda>fl. fl) (sv_getfl s)) (\<lambda>fl.
     if fl AND O_PATH_fl \<noteq> 0 then Inl ''descriptor is O_PATH, not an open file''
     else if fl AND O_ACCMODE_fl \<noteq> O_RDONLY_fl then Inl ''descriptor is not opened read-only''
     else case sv_home_dev s of
       None \<Rightarrow> Inl (''the sender'' @ [CHR 0x27] @ ''s data mount is unknown; refusing'')
     | Some d \<Rightarrow>
         if d \<noteq> st_dev st then Inl (''file is not on the zone'' @ [CHR 0x27] @ ''s data mount (/home/<zone>)'')
         else Inr st))"

definition check_size_limit :: "(string \<Rightarrow> string) \<Rightarrow> served_zone \<Rightarrow> zone \<Rightarrow> nat \<Rightarrow> string + nat" where
  "check_size_limit dbg s dz bytes =
     (let lw = lower_limit dbg dz (lower_limit dbg (sv_zone s) (sv_max_bytes s, [])) in
      if bytes > fst lw
      then Inl (''file is '' @ nat_to_string bytes @ '' bytes; the transfer limit is '' @ nat_to_string (fst lw) @ snd lw)
      else Inr bytes)"

definition check_transfer :: "(string \<Rightarrow> string) \<Rightarrow> served_zone \<Rightarrow> string \<Rightarrow> fd list \<Rightarrow> string + nat" where
  "check_transfer dbg s dest fds =
     (let sender = z_name (sv_zone s) in
      if length fds \<noteq> 1 then Inl (''transfer needs exactly one descriptor attached (got '' @ nat_to_string (length fds) @ '')'')
      else if dest = sender then Inl ''a zone cannot transfer to itself''
      else if dest \<notin> set (z_transfer_to (sv_zone s))
      then Inl (''[transfer] to in zone '' @ dbg sender @ '' does not name '' @ dbg dest @ ''; a zone sends only where its file says'')
      else bind_res (map_sum (\<lambda>e. ''destination zone '' @ dbg dest @ '': '' @ zone_error_fmt dbg e) (\<lambda>z. z)
          (from_file dbg (sv_zone_text s dest))) (\<lambda>dz.
        if z_network dz = Net_Nic then Inl (''zone '' @ dbg dest @ '' holds the NIC and receives nothing, ever'')
        else bind_res (check_descriptor s) (\<lambda>st. check_size_limit dbg s dz (st_size st))))"

section \<open>The question and the transfer\<close>

text \<open>\<^const>\<open>None\<close>: still asking.\<close>

definition ask_transfer :: "(string \<Rightarrow> string) \<Rightarrow> served_zone \<Rightarrow> string \<Rightarrow> string \<Rightarrow> nat \<Rightarrow> broker_st \<Rightarrow> ((string + unit) \<times> broker_st) option" where
  "ask_transfer dbg s dest name bytes st =
     (if sv_auto_approve s then Some (Inr (), st)
      else case sv_resolve_first s of
        Inl e \<Rightarrow> Some (Inl e, st)
      | Inr _ \<Rightarrow>
          if (case b_until st of Some t \<Rightarrow> sv_now s < t | None \<Rightarrow> False)
          then Some (Inl ''a transfer from this zone was refused less than a minute ago; not asking again yet'', st)
          else (case consent_ask dbg (sv_consent s) (z_name (sv_zone s)) dest name bytes of
              None \<Rightarrow> None
            | Some (Inl r) \<Rightarrow> Some (Inl (r_why r), if r_shown r then st\<lparr>b_until := Some (sv_refused_at s + REFUSAL_PAUSE)\<rparr> else st)
            | Some (Inr _) \<Rightarrow> Some (Inr (), st)))"

definition handle_transfer :: "(string \<Rightarrow> string) \<Rightarrow> served_zone \<Rightarrow> string \<Rightarrow> string \<Rightarrow> fd list \<Rightarrow> broker_st \<Rightarrow>
    ((string + string \<times> nat) \<times> broker_st) option" where
  "handle_transfer dbg s dest name fds st = (case check_transfer dbg s dest fds of
       Inl e \<Rightarrow> Some (Inl e, st)
     | Inr bytes \<Rightarrow> (case ask_transfer dbg s dest name bytes st of
         None \<Rightarrow> None
       | Some (Inl e, st) \<Rightarrow> Some (Inl e, st)
       | Some (Inr _, st) \<Rightarrow> (case sv_resolve s of
           Inl e \<Rightarrow> Some (Inl e, st)
         | Inr t \<Rightarrow> Some (deliver (sv_deliver s) t name bytes st))))"

section \<open>Finding the destination\<close>

text \<open>
  A zone's registry entry as \<open>registry::state\<close> reads it, with the pid of a running zone's init, if known;
  \<open>rg_alive\<close> is \<open>still_alive\<close> at the two times it is asked.
\<close>

datatype zone_state = Running "nat option" | Stale | Absent

record registry_io =
  rg_state :: "string + zone_state"
  rg_alive :: "bool \<times> bool"
  rg_identity :: "string + string"
  rg_open :: "string option"

definition registry_target :: "(string \<Rightarrow> string) \<Rightarrow> registry_io \<Rightarrow> string \<Rightarrow> string + target" where
  "registry_target dbg io dest =
     (let zone = ''destination zone '' @ dbg dest in
      case rg_state io of
        Inl e \<Rightarrow> Inl (zone @ '': '' @ e)
      | Inr Stale \<Rightarrow> Inl (zone @ '' is not running'')
      | Inr Absent \<Rightarrow> Inl (zone @ '' is not running'')
      | Inr (Running init) \<Rightarrow>
          if init = None \<or> \<not> fst (rg_alive io) then Inl (zone @ '' is still starting'')
          else bind_res (map_sum (\<lambda>e. zone @ '': identity unknown: '' @ e) (\<lambda>t. t) (rg_identity io)) (\<lambda>ident.
            case split_whitespace ident of
              u # g # _ \<Rightarrow> (case (parse_uint 32 u, parse_uint 32 g) of
                  (Some uid, Some gid) \<Rightarrow> (case rg_open io of
                      Some e \<Rightarrow> Inl (zone @ '': cannot reach its root: '' @ e)
                    | None \<Rightarrow>
                        if \<not> snd (rg_alive io) then Inl (zone @ '' stopped while it was being reached'')
                        else Inr \<lparr>t_uid = uid, t_gid = gid\<rparr>)
                | _ \<Rightarrow> Inl (zone @ '': identity file is malformed''))
            | _ \<Rightarrow> Inl (zone @ '': identity file is malformed'')))"

end
