(* ===== verification/Broker_Safe.thy ===== *)
theory Broker_Safe
  imports Broker_Transfer
begin

text \<open>
  What a transfer may do: it happens only when every check and the user in zone 0 agree, the file
  delivered holds the bytes checked under a name that was free, and no file already in \<open>incoming/\<close>
  changes whatever happens.
\<close>

section \<open>The copy\<close>

text \<open>Every answer read from a file that holds \<open>f\<close> throughout.\<close>

definition reads_of :: "bytes \<Rightarrow> copy_answer list \<Rightarrow> bool" where
  "reads_of f as \<longleftrightarrow> list_all (\<lambda>a. case a of Copied now _ \<Rightarrow> now = f | Copy_Error _ \<Rightarrow> True) as"

definition unchanged :: "bytes \<Rightarrow> copy_io \<Rightarrow> bool" where
  "unchanged f io \<longleftrightarrow> reads_of f (cp_range io) \<and> reads_of f (cp_reads io)"

lemma reads_of_simps [simp]:
  "reads_of f (Copied now n # as) \<longleftrightarrow> now = f \<and> reads_of f as"
  "reads_of f (Copy_Error e # as) \<longleftrightarrow> reads_of f as"
  by (simp_all add: reads_of_def)

lemma write_all_out: "write_all ws data out = (None, out', ws') \<Longrightarrow> out' = out @ data"
proof (induction ws data out rule: write_all.induct)
  case (2 w ws data out)
  then show ?case by (cases w) (auto split: if_splits)
qed simp

lemma taken_extends: "out = take sofar f \<Longrightarrow> out @ taken_at f sofar n want = take (sofar + length (taken_at f sofar n want)) f"
  by (simp add: taken_at_def take_add min_def)

text \<open>What the loop keeps: as many bytes written as counted, within the cap, a prefix of the file.\<close>

definition copied_ok :: "nat \<Rightarrow> bytes \<Rightarrow> bool \<Rightarrow> nat \<Rightarrow> bytes \<Rightarrow> bool" where
  "copied_ok cap f same n out \<longleftrightarrow> length out = n \<and> n \<le> cap \<and> (same \<longrightarrow> out = take n f)"

lemma copied_ok_step:
  assumes "copied_ok cap f same sofar out" "same \<longrightarrow> now = f" "sofar + length (taken_at now sofar n want) \<le> cap"
  shows "copied_ok cap f same (sofar + length (taken_at now sofar n want)) (out @ taken_at now sofar n want)"
  using assms taken_extends [of out sofar f n want] by (auto simp: copied_ok_def)

lemma copied_ok_weaken: "copied_ok cap f same n out \<Longrightarrow> (same' \<longrightarrow> same) \<Longrightarrow> copied_ok cap f same' n out"
  by (auto simp: copied_ok_def)

lemma copy_reads_ok:
  "copy_reads err cap as ws sofar out = (Inr n, out') \<Longrightarrow> copied_ok cap f same sofar out \<Longrightarrow> (same \<longrightarrow> reads_of f as)
    \<Longrightarrow> copied_ok cap f same n out'"
proof (induction err cap as ws sofar out rule: copy_reads.induct)
  case (3 err cap now m as ws sofar out)
  let ?bs = "taken_at now sofar m (min PREAD_BUF (copy_want cap sofar))"
  show ?case
  proof (cases "?bs = []")
    case True
    then show ?thesis using "3.prems" by simp
  next
    case False
    obtain r out1 ws1 where w: "write_all ws ?bs out = (r, out1, ws1)" by (cases "write_all ws ?bs out")
    from "3.prems"(1) False w have r: "r = None" and le: "sofar + length ?bs \<le> cap"
      and rest: "copy_reads err cap as ws1 (sofar + length ?bs) out1 = (Inr n, out')"
      by (auto simp: Let_def split: option.splits if_splits)
    have out1: "out1 = out @ ?bs" using w r write_all_out by blast
    have "copied_ok cap f same (sofar + length ?bs) out1"
      unfolding out1 using "3.prems"(2,3) le by (intro copied_ok_step) auto
    then show ?thesis using "3.IH" [OF refl False w [symmetric] r refl] le rest "3.prems"(3) by auto
  qed
qed (auto split: if_splits)

lemma copy_range_ok:
  "copy_range cap io as sofar out = (Inr n, out') \<Longrightarrow> copied_ok cap f same sofar out
    \<Longrightarrow> (same \<longrightarrow> reads_of f as \<and> reads_of f (cp_reads io)) \<Longrightarrow> copied_ok cap f same n out'"
proof (induction cap io as sofar out rule: copy_range.induct)
  case (2 cap io e as sofar out)
  then show ?case by (auto split: if_splits intro: copy_reads_ok)
next
  case (3 cap io now m as sofar out)
  let ?bs = "taken_at now sofar m (copy_want cap sofar)"
  show ?case
  proof (cases "?bs = []")
    case True
    then show ?thesis using "3.prems" by simp
  next
    case False
    with "3.prems"(1) have le: "sofar + length ?bs \<le> cap"
      and rest: "copy_range cap io as (sofar + length ?bs) (out @ ?bs) = (Inr n, out')"
      by (auto simp: Let_def split: if_splits)
    have "copied_ok cap f same (sofar + length ?bs) (out @ ?bs)"
      using "3.prems"(2,3) le by (intro copied_ok_step) auto
    then show ?thesis using "3.IH" [OF refl False] le rest "3.prems"(3) by auto
  qed
qed simp

lemma fill_ok:
  assumes "fill io bytes = (Inr n, out)"
  shows "n = bytes" "length out = bytes" "unchanged f (dl_copy io) \<Longrightarrow> out = take bytes f"
proof -
  from assms have c: "copy_capped (dl_copy io) bytes = (Inr n, out)" and n: "n = bytes"
    by (auto simp: fill_def split: option.splits if_splits prod.splits sum.splits)
  have "copied_ok bytes f (unchanged f (dl_copy io)) n out"
    by (rule copy_range_ok [OF c [unfolded copy_capped_def]]) (auto simp: copied_ok_def unchanged_def)
  then show "n = bytes" "length out = bytes" "unchanged f (dl_copy io) \<Longrightarrow> out = take bytes f"
    using n by (auto simp: copied_ok_def)
qed

section \<open>The delivery\<close>

lemma try_names_ok:
  "try_names io name bytes is inc = (Inr (cand, n), inc') \<Longrightarrow>
     cand \<in> candidate name ` set is \<and> hm_get inc cand = None \<and> (\<exists>out. fill io bytes = (Inr n, out) \<and> inc' = hm_insert cand out inc)"
proof (induction "is")
  case (Cons i "is")
  then show ?case by (auto simp: Let_def split: if_splits option.splits prod.splits sum.splits)
qed simp

lemma try_names_kept:
  "try_names io name bytes is inc = (r, inc') \<Longrightarrow> hm_get inc k = Some v \<Longrightarrow> hm_get inc' k = Some v"
proof (induction "is")
  case (Cons i "is")
  then show ?case by (auto simp: Let_def split: if_splits option.splits prod.splits sum.splits)
qed simp

lemma try_names_failed:
  "try_names io name bytes is inc = (Inl e, inc') \<Longrightarrow> dl_unlinked io \<Longrightarrow> hm_get inc' k = hm_get inc k"
proof (induction "is")
  case (Cons i "is")
  then show ?case by (auto simp: Let_def split: if_splits option.splits prod.splits sum.splits)
qed simp

definition entry :: "broker_st \<Rightarrow> string \<Rightarrow> bytes option" where
  "entry st k = (case b_incoming st of Some es \<Rightarrow> hm_get es k | None \<Rightarrow> None)"

lemma deliver_into_ok:
  assumes "deliver_into io t name bytes inc = (Inr (cand, n), inc')"
  shows "dl_owner io = Inr (t_uid t)"
    and "\<exists>es. inc' = Some es \<and> try_names io name bytes numbers (case inc of Some es \<Rightarrow> es | None \<Rightarrow> []) = (Inr (cand, n), es)"
  using assms by (auto simp: deliver_into_def Let_def map_prod_def split: option.splits sum.splits if_splits prod.splits)

lemma deliver_into_entries:
  "deliver_into io t name bytes inc = (r, inc') \<Longrightarrow>
     inc' = inc \<and> isl r \<or> (\<exists>es. inc' = Some es \<and>
       (es = (case inc of Some es \<Rightarrow> es | None \<Rightarrow> []) \<and> isl r
        \<or> try_names io name bytes numbers (case inc of Some es \<Rightarrow> es | None \<Rightarrow> []) = (r, es)))"
  by (auto simp: deliver_into_def Let_def map_prod_def split: option.splits sum.splits if_splits prod.splits)

lemma deliver_cases:
  assumes "deliver io t name bytes st = (r, st')"
  shows "st' = st \<and> isl r \<or>
    (\<exists>inc. deliver_into io t name bytes (b_incoming st) = (r, inc)
       \<and> st' = st\<lparr>b_incoming := inc, b_fsids := if dl_root io then (0, 0) else b_fsids st\<rparr>)"
  using assms by (auto simp: deliver_def Let_def split: option.splits if_splits prod.splits)

lemma deliver_entries:
  assumes "deliver io t name bytes st = (r, st')"
  shows "entry st k = Some v \<Longrightarrow> entry st' k = Some v"
    and "isl r \<Longrightarrow> dl_unlinked io \<Longrightarrow> entry st' k = entry st k"
    and "b_until st' = b_until st" and "b_fsids st = (0, 0) \<Longrightarrow> b_fsids st' = (0, 0)"
proof -
  let ?es = "case b_incoming st of Some es \<Rightarrow> es | None \<Rightarrow> []"
  have old: "entry st k = hm_get ?es k" by (simp add: entry_def split: option.splits)
  from deliver_cases [OF assms] consider (same) "st' = st" "isl r"
    | (into) inc where "deliver_into io t name bytes (b_incoming st) = (r, inc)"
        "st' = st\<lparr>b_incoming := inc, b_fsids := if dl_root io then (0, 0) else b_fsids st\<rparr>" by blast
  note c = this
  show "b_until st' = b_until st" by (rule c) simp_all
  show "b_fsids st' = (0, 0)" if "b_fsids st = (0, 0)" using that by - (rule c, simp_all)
  show "entry st' k = Some v" if "entry st k = Some v"
  proof (rule c)
    fix inc assume h: "deliver_into io t name bytes (b_incoming st) = (r, inc)"
      "st' = st\<lparr>b_incoming := inc, b_fsids := if dl_root io then (0, 0) else b_fsids st\<rparr>"
    from deliver_into_entries [OF h(1)] show ?thesis
      using that h(2) try_names_kept [of io name bytes _ ?es r _ k v]
      by (elim disjE exE conjE) (auto simp: old entry_def split: option.splits)
  qed (use that in simp)
  show "entry st' k = entry st k" if l: "isl r" "dl_unlinked io"
  proof (rule c)
    fix inc assume h: "deliver_into io t name bytes (b_incoming st) = (r, inc)"
      "st' = st\<lparr>b_incoming := inc, b_fsids := if dl_root io then (0, 0) else b_fsids st\<rparr>"
    obtain e where e: "r = Inl e" using l(1) by (cases r) auto
    from deliver_into_entries [OF h(1)] show ?thesis
      using l(2) h(2) try_names_failed [of io name bytes _ ?es e _ k] unfolding e
      by (elim disjE exE conjE) (auto simp: old entry_def split: option.splits)
  qed simp
qed

section \<open>The checks\<close>

lemma map_sum_Inr: "map_sum f (\<lambda>x. x) r = Inr y \<longleftrightarrow> r = Inr y"
  by (cases r) auto

lemma lower_limit_le:
  "fst (lower_limit dbg z lw) \<le> fst lw" "z_transfer_max z = Some m \<Longrightarrow> fst (lower_limit dbg z lw) \<le> m"
  by (auto simp: lower_limit_def split: option.splits)

lemma check_size_limit_ok:
  assumes "check_size_limit dbg s dz bytes = Inr n"
  shows "n = bytes" "bytes \<le> sv_max_bytes s" "z_transfer_max (sv_zone s) = Some m \<Longrightarrow> bytes \<le> m" "z_transfer_max dz = Some m \<Longrightarrow> bytes \<le> m"
proof -
  let ?a = "lower_limit dbg (sv_zone s) (sv_max_bytes s, [])"
  from assms show "n = bytes" by (simp add: check_size_limit_def Let_def split: if_splits)
  from assms have le: "bytes \<le> fst (lower_limit dbg dz ?a)" by (simp add: check_size_limit_def Let_def split: if_splits)
  have a: "bytes \<le> fst ?a" using le lower_limit_le(1) [of dbg dz ?a] by simp
  show "bytes \<le> sv_max_bytes s" using a lower_limit_le(1) [of dbg "sv_zone s" "(sv_max_bytes s, [])"] by simp
  show "bytes \<le> m" if "z_transfer_max (sv_zone s) = Some m"
    using a lower_limit_le(2) [OF that, of dbg "(sv_max_bytes s, [])"] by simp
  show "bytes \<le> m" if "z_transfer_max dz = Some m" using le lower_limit_le(2) [OF that, of dbg ?a] by simp
qed

text \<open>A descriptor that may cross: a regular file, open for reading only, on the sender's own data mount.\<close>

definition may_cross :: "served_zone \<Rightarrow> file_stat \<Rightarrow> bool" where
  "may_cross s st \<longleftrightarrow> sv_fstat s = Inr st \<and> st_mode st AND S_IFMT = S_IFREG
     \<and> (\<exists>fl. sv_getfl s = Inr fl \<and> fl AND O_PATH_fl = 0 \<and> fl AND O_ACCMODE_fl = O_RDONLY_fl)
     \<and> sv_home_dev s = Some (st_dev st)"

lemma check_descriptor_ok: "check_descriptor s = Inr st \<Longrightarrow> may_cross s st"
  by (auto simp: check_descriptor_def may_cross_def bind_res_eq_Inr map_sum_Inr split: if_splits option.splits)

text \<open>Both zones' files allow \<open>n\<close> bytes from the one to the other.\<close>

definition files_allow :: "served_zone \<Rightarrow> string \<Rightarrow> zone \<Rightarrow> nat \<Rightarrow> bool" where
  "files_allow s dest dz n \<longleftrightarrow> dest \<noteq> z_name (sv_zone s) \<and> dest \<in> set (z_transfer_to (sv_zone s)) \<and> z_network dz \<noteq> Net_Nic
     \<and> n \<le> sv_max_bytes s \<and> (\<forall>z \<in> {sv_zone s, dz}. \<forall>m. z_transfer_max z = Some m \<longrightarrow> n \<le> m)"

lemma check_transfer_ok:
  assumes "check_transfer dbg s dest fds = Inr n"
  shows "length fds = 1 \<and> (\<exists>text dz st. sv_zone_text s dest = Inr text \<and> from_str dbg text = Inr dz
    \<and> files_allow s dest dz n \<and> may_cross s st \<and> st_size st = n)"
proof -
  from assms obtain dz st where h: "length fds = 1" "dest \<noteq> z_name (sv_zone s)" "dest \<in> set (z_transfer_to (sv_zone s))"
    "from_file dbg (sv_zone_text s dest) = Inr dz" "z_network dz \<noteq> Net_Nic" "check_descriptor s = Inr st"
    and lim: "check_size_limit dbg s dz (st_size st) = Inr n"
    by (auto simp: check_transfer_def Let_def bind_res_eq_Inr map_sum_Inr split: if_splits)
  obtain tx where t: "sv_zone_text s dest = Inr tx" "from_str dbg tx = Inr dz"
    using h(4) by (auto simp: from_file_def split: sum.splits)
  have "files_allow s dest dz n" using h check_size_limit_ok [OF lim] by (auto simp: files_allow_def)
  then show ?thesis using h(1) t check_descriptor_ok [OF h(6)] check_size_limit_ok(1) [OF lim] by auto
qed

section \<open>The question\<close>

text \<open>The user agreed: in a channel only zone 0 writes, watched by its window, a yes before the deadline.\<close>

definition agreed :: "consent_io \<Rightarrow> bool" where
  "agreed io \<longleftrightarrow> (\<exists>uid mode. ci_channel io = Channel uid mode \<and> (uid = 0 \<or> uid = ci_me io) \<and> mode div S_IWOTH mod 2 \<noteq> 1)
     \<and> ci_watched io \<and> (\<exists>i. ci_placed io = Inr i)
     \<and> (\<exists>before l after. ci_looks io = before @ l # after \<and> said_yes (lk_file l)
        \<and> list_all (\<lambda>b. lk_file b = No_File \<and> lk_now b < ci_start io + 60000 \<and> lk_asking b) before)"

lemma ask_transfer_ok:
  assumes "ask_transfer dbg s dest name n st = Some (Inr u, st')"
  shows "st' = st \<and> (sv_auto_approve s \<or> agreed (sv_consent s (transfer_question (z_name (sv_zone s)) dest name n)))"
  using assms ask_text_yes [of dbg "sv_consent s (transfer_question (z_name (sv_zone s)) dest name n)" "transfer_question (z_name (sv_zone s)) dest name n" "()"]
  by (auto simp: ask_transfer_def consent_ask_def Let_def agreed_def split: if_splits sum.splits option.splits)

lemma ask_transfer_same: "ask_transfer dbg s dest name n st = Some (r, st') \<Longrightarrow> b_incoming st' = b_incoming st \<and> b_fsids st' = b_fsids st"
  by (auto simp: ask_transfer_def split: if_splits sum.splits option.splits)

lemma handle_transfer_ok:
  assumes "handle_transfer dbg s dest name fds st = Some (Inr got, st')"
  obtains n t where "check_transfer dbg s dest fds = Inr n" "ask_transfer dbg s dest name n st = Some (Inr (), st)"
    "sv_resolve s = Inr t" "deliver (sv_deliver s) t name n st = (Inr got, st')"
proof -
  from assms obtain n st1 t where h: "check_transfer dbg s dest fds = Inr n" "ask_transfer dbg s dest name n st = Some (Inr (), st1)"
    "sv_resolve s = Inr t" "deliver (sv_deliver s) t name n st1 = (Inr got, st')"
    by (auto simp: handle_transfer_def split: sum.splits option.splits)
  moreover have "st1 = st" using ask_transfer_ok [OF h(2)] by simp
  ultimately show thesis using that by simp
qed

lemma handle_transfer_cases:
  assumes "handle_transfer dbg s dest name fds st = Some (r, st')"
  shows "isl r \<and> b_incoming st' = b_incoming st \<and> b_fsids st' = b_fsids st
    \<or> (\<exists>n t st1. b_incoming st1 = b_incoming st \<and> b_fsids st1 = b_fsids st \<and> deliver (sv_deliver s) t name n st1 = (r, st'))"
proof (cases "check_transfer dbg s dest fds")
  case (Inl e)
  then show ?thesis using assms by (auto simp: handle_transfer_def)
next
  case (Inr n)
  then obtain a st1 where a: "ask_transfer dbg s dest name n st = Some (a, st1)"
    using assms by (auto simp: handle_transfer_def split: option.splits)
  note same = ask_transfer_same [OF a]
  show ?thesis
  proof (cases a)
    case (Inl e)
    then show ?thesis using assms Inr a same by (auto simp: handle_transfer_def)
  next
    case a': (Inr u)
    show ?thesis
      using assms Inr a a' same by (cases "sv_resolve s") (auto simp: handle_transfer_def)
  qed
qed

lemma delivered:
  assumes "deliver io t name n st = (Inr (cand, m), st')"
  shows "cand \<in> candidate name ` {1 ..< 101} \<and> entry st cand = None
    \<and> (\<exists>out. fill io n = (Inr m, out) \<and> (\<forall>k. entry st' k = (if k = cand then Some out else entry st k)))"
proof -
  let ?es = "case b_incoming st of Some es \<Rightarrow> es | None \<Rightarrow> []"
  from deliver_cases [OF assms] obtain inc where d: "deliver_into io t name n (b_incoming st) = (Inr (cand, m), inc)"
    "b_incoming st' = inc" by auto
  from deliver_into_ok(2) [OF d(1)] obtain es where es: "inc = Some es" "try_names io name n numbers ?es = (Inr (cand, m), es)"
    by blast
  have "\<And>k. entry st k = hm_get ?es k" by (simp add: entry_def split: option.splits)
  then show ?thesis using try_names_ok [OF es(2)] d(2) es(1) by (auto simp: entry_def numbers_def)
qed

end
