(* ===== verification/Broker_Clipboard.thy ===== *)
theory Broker_Clipboard
  imports Broker
begin

text \<open>
  A zone's clipboard: the payload in its registry entry (\<open>clipboard_read\<close>, \<open>clipboard_write\<close>, \<open>clipboard_move\<close>
  and \<open>move_between\<close> of \<open>compartments/kryptikd/src/broker.rs\<close>) and the atomic write it rests on (\<open>write_atomic\<close>
  of \<open>compartments/kryptikd/src/files.rs\<close>). A directory is its names and what they hold; what may fail is a
  parameter.
\<close>

section \<open>Writing a file whole\<close>

type_synonym directory = "(string, bytes) hmap"

text \<open>
  \<open>at_listing\<close> is what \<open>read_dir\<close> gave, \<open>at_alive\<close> the processes, \<open>at_stuck\<close> the names whose removal fails, which the
  code does not look at. A failed write leaves so many bytes; the other steps have their error, if any.
\<close>

record atomic_io =
  at_pid :: nat
  at_listing :: "string + string list"
  at_alive :: "nat \<Rightarrow> bool"
  at_stuck :: "string \<Rightarrow> bool"
  at_exists :: string
  at_create :: "string option"
  at_write :: "(string \<times> nat) option"
  at_chmod :: "string option"
  at_chown :: "string option"
  at_sync :: "string option"
  at_rename :: "string option"

definition discard :: "atomic_io \<Rightarrow> string \<Rightarrow> directory \<Rightarrow> directory" where
  "discard io k d = (if at_stuck io k then d else hm_remove k d)"

definition stem_of :: "string \<Rightarrow> string" where
  "stem_of name = ''.'' @ name @ ''.''"

definition temporary :: "string \<Rightarrow> nat \<Rightarrow> string" where
  "temporary name pid = stem_of name @ nat_to_string pid"

text \<open>A temporary of a process that is gone.\<close>

definition stranded :: "atomic_io \<Rightarrow> string \<Rightarrow> string \<Rightarrow> bool" where
  "stranded io name n = (case strip_prefix (stem_of name) n of
       None \<Rightarrow> False
     | Some p \<Rightarrow> (case parse_uint 32 p of Some pid \<Rightarrow> \<not> at_alive io pid | None \<Rightarrow> False))"

fun sweep_stranded :: "atomic_io \<Rightarrow> string \<Rightarrow> string list \<Rightarrow> directory \<Rightarrow> directory" where
  "sweep_stranded io name [] d = d"
| "sweep_stranded io name (n # ns) d = sweep_stranded io name ns (if stranded io name n then discard io n d else d)"

definition first_error :: "string option list \<Rightarrow> string option" where
  "first_error es = (case filter (\<lambda>e. e \<noteq> None) es of e # _ \<Rightarrow> e | [] \<Rightarrow> None)"

text \<open>The closure: the temporary is made, filled, synced and renamed over \<open>name\<close>.\<close>

definition write_temporary :: "atomic_io \<Rightarrow> string \<Rightarrow> bytes list \<Rightarrow> bool \<Rightarrow> directory \<Rightarrow> (string + unit) \<times> directory" where
  "write_temporary io name parts owner d =
     (let tmp = temporary name (at_pid io) in
      if hm_contains d tmp then (Inl (at_exists io), d)
      else case at_create io of
        Some e \<Rightarrow> (Inl e, d)
      | None \<Rightarrow> (case at_write io of
          Some (e, n) \<Rightarrow> (Inl e, hm_insert tmp (take n (concat parts)) d)
        | None \<Rightarrow> (case first_error [at_chmod io, if owner then at_chown io else None, at_sync io, at_rename io] of
            Some e \<Rightarrow> (Inl e, hm_insert tmp (concat parts) d)
          | None \<Rightarrow> (Inr (), hm_insert name (concat parts) (hm_remove tmp d)))))"

definition write_atomic :: "atomic_io \<Rightarrow> string \<Rightarrow> bytes list \<Rightarrow> bool \<Rightarrow> directory \<Rightarrow> (string + unit) \<times> directory" where
  "write_atomic io name parts owner d = (case at_listing io of
       Inl e \<Rightarrow> (Inl e, d)
     | Inr ns \<Rightarrow>
         let tmp = temporary name (at_pid io);
             d = discard io tmp (sweep_stranded io name ns d) in
         (case write_temporary io name parts owner d of
            (Inl e, d) \<Rightarrow> (Inl e, discard io tmp d)
          | (Inr u, d) \<Rightarrow> (Inr u, d)))"

section \<open>The clipboard\<close>

definition CLIPBOARD_FILE :: string where "CLIPBOARD_FILE = ''clipboard''"

text \<open>\<open>ck_open\<close> is an error other than a file that is not there.\<close>

record clip_io =
  ck_open :: "string option"
  ck_read :: "string option"
  ck_atomic :: atomic_io
  ck_remove :: "string option"

definition clipboard_read :: "(string \<Rightarrow> string) \<Rightarrow> clip_io \<Rightarrow> directory \<Rightarrow> string + (string \<times> bytes) option" where
  "clipboard_read dbg io d = (case ck_open io of
       Some e \<Rightarrow> Inl e
     | None \<Rightarrow> (case hm_get d CLIPBOARD_FILE of
         None \<Rightarrow> Inr None
       | Some f \<Rightarrow> (case ck_read io of
           Some e \<Rightarrow> Inl e
         | None \<Rightarrow>
             let whole = take (CLIPBOARD_MAX + 256) f;
                 head = takeWhile (\<lambda>b. b \<noteq> CHR 0x0A) whole;
                 mime = utf8_lossy head;
                 bytes = drop (length head + 1) whole in
             if CHR 0x0A \<notin> set whole then Inl ''clipboard file has no MIME line''
             else if mime \<notin> set MIME_TYPES then Inl (''clipboard file carries an unsupported MIME type '' @ dbg mime)
             else if length bytes > CLIPBOARD_MAX then Inl ''clipboard file is over the limit''
             else Inr (Some (mime, bytes)))))"

definition clipboard_write :: "(string \<Rightarrow> string) \<Rightarrow> clip_io \<Rightarrow> string \<Rightarrow> bytes \<Rightarrow> directory \<Rightarrow> (string + unit) \<times> directory" where
  "clipboard_write dbg io mime bytes d =
     (if mime \<notin> set MIME_TYPES then (Inl (''unsupported MIME type '' @ dbg mime), d)
      else if length bytes > CLIPBOARD_MAX then (Inl ''payload over the clipboard limit'', d)
      else write_atomic (ck_atomic io) CLIPBOARD_FILE [mime, [CHR 0x0A], bytes] False d)"

text \<open>The entries of the zones, by name; an entry that is not there has no file.\<close>

type_synonym entries = "(string, directory) hmap"

definition entry_dir :: "entries \<Rightarrow> string \<Rightarrow> directory" where
  "entry_dir es z = (case hm_get es z of Some d \<Rightarrow> d | None \<Rightarrow> [])"

definition clipboard_move :: "(string \<Rightarrow> string) \<Rightarrow> clip_io \<Rightarrow> string \<Rightarrow> string \<Rightarrow> entries \<Rightarrow> (string + string \<times> nat) \<times> entries" where
  "clipboard_move dbg io from to es = (case clipboard_read dbg io (entry_dir es from) of
       Inl e \<Rightarrow> (Inl e, es)
     | Inr None \<Rightarrow> (Inl (''nothing on the source zone'' @ [CHR 0x27] @ ''s clipboard''), es)
     | Inr (Some (mime, bytes)) \<Rightarrow>
         (case clipboard_write dbg io mime bytes (entry_dir es to) of
            (Inl e, d) \<Rightarrow> (Inl e, hm_insert to d es)
          | (Inr _, d) \<Rightarrow>
              let es = hm_insert to d es in
              if hm_get (entry_dir es from) CLIPBOARD_FILE = None then (Inr (mime, length bytes), es)
              else case ck_remove io of
                Some e \<Rightarrow> (Inl (''the payload reached the destination but is still on the source: '' @ e), es)
              | None \<Rightarrow> (Inr (mime, length bytes), hm_insert from (hm_remove CLIPBOARD_FILE (entry_dir es from)) es)))"

datatype run_state = Zone_Running | Zone_Stale | Zone_Absent

fun all_running :: "(string \<Rightarrow> string) \<Rightarrow> (string \<Rightarrow> string + run_state) \<Rightarrow> string list \<Rightarrow> string + unit" where
  "all_running dbg state [] = Inr ()"
| "all_running dbg state (z # zs) = (case state z of
       Inr Zone_Running \<Rightarrow> all_running dbg state zs
     | Inr Zone_Stale \<Rightarrow> Inl (''clipboard: zone '' @ dbg z @ '' is not running (stale entry)'')
     | Inr Zone_Absent \<Rightarrow> Inl (''clipboard: zone '' @ dbg z @ '' is not running'')
     | Inl e \<Rightarrow> Inl (''clipboard: '' @ e))"

definition move_between :: "(string \<Rightarrow> string) \<Rightarrow> (string \<Rightarrow> string + run_state) \<Rightarrow> clip_io \<Rightarrow> string \<Rightarrow> string \<Rightarrow> entries \<Rightarrow> (string + string) \<times> entries" where
  "move_between dbg state io from to es = (case all_running dbg state [from, to] of
       Inl e \<Rightarrow> (Inl e, es)
     | Inr _ \<Rightarrow> (case clipboard_move dbg io from to es of
         (Inr (mime, n), es) \<Rightarrow> (Inr (''clipboard: moved '' @ nat_to_string n @ '' bytes of '' @ mime @ '' from '' @ from @ '' to '' @ to), es)
       | (Inl e, es) \<Rightarrow> (Inl (''clipboard: '' @ e), es)))"

section \<open>The write is whole or not at all\<close>

lemma temporary_other: "temporary name pid \<noteq> name"
proof
  assume "temporary name pid = name"
  then have "length (temporary name pid) = length name" by simp
  then show False by (simp add: temporary_def stem_of_def)
qed

lemma stranded_other: "stranded io name n \<Longrightarrow> n \<noteq> name"
proof
  assume s: "stranded io name n" and "n = name"
  then have "take (length (stem_of name)) name = stem_of name"
    by (auto simp: stranded_def strip_prefix_def split: if_splits)
  then have "length (stem_of name) \<le> length name" by (metis length_take min.cobounded1)
  then show False by (simp add: stem_of_def)
qed

lemma discard_get [simp]: "hm_get (discard io n d) k = (if k = n \<and> \<not> at_stuck io n then None else hm_get d k)"
  by (simp add: discard_def)

lemma sweep_stranded_name: "hm_get (sweep_stranded io name ns d) name = hm_get d name"
  by (induction ns arbitrary: d) (auto dest: stranded_other)

lemma sweep_stranded_other: "\<not> stranded io name k \<Longrightarrow> hm_get (sweep_stranded io name ns d) k = hm_get d k"
  by (induction ns arbitrary: d) auto

lemma write_temporary_other:
  assumes "write_temporary io name parts owner d = (r, d')" "k \<noteq> name" "k \<noteq> temporary name (at_pid io)"
  shows "hm_get d' k = hm_get d k"
  using assms by (auto simp: write_temporary_def Let_def split: if_splits option.splits)

lemma write_temporary_name:
  assumes "write_temporary io name parts owner d = (r, d')"
  shows "hm_get d' name = (if isl r then hm_get d name else Some (concat parts))"
  using assms temporary_other [of name "at_pid io"] by (auto simp: write_temporary_def Let_def split: if_splits option.splits)

lemma write_temporary_tmp:
  assumes "write_temporary io name parts owner d = (Inr u, d')"
  shows "hm_get d' (temporary name (at_pid io)) = None"
  using assms temporary_other [of name "at_pid io"] by (auto simp: write_temporary_def Let_def split: if_splits option.splits)

lemma write_atomic_name:
  assumes "write_atomic io name parts owner d = (r, d')"
  shows "hm_get d' name = (if isl r then hm_get d name else Some (concat parts))"
  using assms temporary_other [of name "at_pid io"]
  by (auto simp: write_atomic_def Let_def sweep_stranded_name dest!: write_temporary_name split: sum.splits prod.splits)

lemma write_atomic_other:
  assumes "write_atomic io name parts owner d = (r, d')" "k \<noteq> name" "k \<noteq> temporary name (at_pid io)" "\<not> stranded io name k"
  shows "hm_get d' k = hm_get d k"
  using assms
  by (auto simp: write_atomic_def Let_def sweep_stranded_other dest!: write_temporary_other [OF _ assms(2,3)] split: sum.splits prod.splits)

lemma write_atomic_tmp:
  assumes "write_atomic io name parts owner d = (r, d')" "\<not> at_stuck io (temporary name (at_pid io))" "at_listing io = Inr ns"
  shows "hm_get d' (temporary name (at_pid io)) = None"
  using assms by (auto simp: write_atomic_def Let_def dest: write_temporary_tmp split: sum.splits prod.splits)

section \<open>A payload is read as it was written\<close>

lemma mime_types_plain: "list_all (\<lambda>m. utf8_lossy m = m \<and> CHR 0x0A \<notin> set m \<and> length m < 255) MIME_TYPES"
  by code_simp

lemma mime_plain:
  assumes "m \<in> set MIME_TYPES"
  shows "utf8_lossy m = m" "CHR 0x0A \<notin> set m" "length m < 255"
  using mime_types_plain assms by (auto simp: list_all_iff)

lemma takeWhile_line: "c \<notin> set m \<Longrightarrow> takeWhile (\<lambda>b. b \<noteq> c) (m @ c # r) = m"
  by (induction m) auto

lemma clipboard_read_payload:
  assumes "hm_get d CLIPBOARD_FILE = Some (mime @ CHR 0x0A # bytes)" "mime \<in> set MIME_TYPES" "length bytes \<le> CLIPBOARD_MAX"
    and "ck_open io = None" "ck_read io = None"
  shows "clipboard_read dbg io d = Inr (Some (mime, bytes))"
proof -
  note m = mime_plain [OF assms(2)]
  have whole: "take (CLIPBOARD_MAX + 256) (mime @ CHR 0x0A # bytes) = mime @ CHR 0x0A # bytes"
    using m(3) assms(3) by (intro take_all) simp
  show ?thesis
    using assms m by (simp add: clipboard_read_def Let_def whole takeWhile_line del: take_append)
qed

lemma clipboard_write_ok:
  assumes "clipboard_write dbg io mime bytes d = (Inr u, d')"
  shows "mime \<in> set MIME_TYPES" "length bytes \<le> CLIPBOARD_MAX" "hm_get d' CLIPBOARD_FILE = Some (mime @ CHR 0x0A # bytes)"
  using assms write_atomic_name [of "ck_atomic io" CLIPBOARD_FILE "[mime, [CHR 0x0A], bytes]" False d "Inr u" d']
  by (auto simp: clipboard_write_def split: if_splits)

lemma clipboard_write_failed:
  assumes "clipboard_write dbg io mime bytes d = (Inl e, d')"
  shows "hm_get d' CLIPBOARD_FILE = hm_get d CLIPBOARD_FILE"
  using assms write_atomic_name [of "ck_atomic io" CLIPBOARD_FILE "[mime, [CHR 0x0A], bytes]" False d "Inl e" d']
  by (auto simp: clipboard_write_def split: if_splits)

lemma clipboard_read_ok: "clipboard_read dbg io d = Inr (Some p) \<Longrightarrow> ck_open io = None \<and> ck_read io = None"
  by (auto simp: clipboard_read_def Let_def split: option.splits if_splits)

section \<open>A move\<close>

lemma entry_dir_insert [simp]: "entry_dir (hm_insert z d es) y = (if y = z then d else entry_dir es y)"
  by (simp add: entry_dir_def)

lemma clipboard_move_other:
  "clipboard_move dbg io from to es = (r, es') \<Longrightarrow> z \<noteq> from \<Longrightarrow> z \<noteq> to \<Longrightarrow> entry_dir es' z = entry_dir es z"
  by (auto simp: clipboard_move_def Let_def split: sum.splits option.splits prod.splits if_splits)

lemma clipboard_move_failed:
  assumes "clipboard_move dbg io from to es = (Inl e, es')" "from \<noteq> to"
  shows "entry_dir es' from = entry_dir es from"
  using assms by (auto simp: clipboard_move_def Let_def split: sum.splits option.splits prod.splits if_splits)

lemma clipboard_move_ok:
  assumes "clipboard_move dbg io from to es = (Inr (mime, n), es')" "from \<noteq> to"
  obtains bytes where "clipboard_read dbg io (entry_dir es from) = Inr (Some (mime, bytes))" "n = length bytes"
    "clipboard_read dbg io (entry_dir es' to) = Inr (Some (mime, bytes))" "hm_get (entry_dir es' from) CLIPBOARD_FILE = None"
proof -
  from assms obtain bytes d where r: "clipboard_read dbg io (entry_dir es from) = Inr (Some (mime, bytes))"
    and w: "clipboard_write dbg io mime bytes (entry_dir es to) = (Inr (), d)"
    and n: "n = length bytes" and to: "entry_dir es' to = d" and gone: "hm_get (entry_dir es' from) CLIPBOARD_FILE = None"
    by (auto simp: clipboard_move_def Let_def split: sum.splits option.splits prod.splits if_splits)
  have "clipboard_read dbg io d = Inr (Some (mime, bytes))"
    using clipboard_write_ok [OF w] clipboard_read_ok [OF r] by (intro clipboard_read_payload) auto
  then show thesis using that r n to gone by simp
qed

end
