(* ===== verification/Broker_Runs.thy ===== *)
theory Broker_Runs
  imports Broker_Safe Broker_Clipboard Zone_Inv
begin

text \<open>
  What the broker lets cross between zones: files, each with the user's consent and whole, and a
  clipboard payload, one at a time, each with a scenario it holds in.
\<close>

section \<open>Files\<close>


text \<open>C14: A transfer of a file that does not change meanwhile delivers it byte for byte, under its name or that
  name and a number up to 100, where nothing was; every other name in \<open>incoming/\<close> holds what it held.\<close>

theorem delivered_exactly:
  assumes "handle_transfer dbg s dest name fds st = Some (Inr (cand, n), st')"
    and "unchanged f (dl_copy (sv_deliver s))" "sv_fstat s = Inr fs" "st_size fs = length f"
  shows "n = length f \<and> cand \<in> candidate name ` {1 ..< 101} \<and> entry st cand = None
    \<and> (\<forall>k. entry st' k = (if k = cand then Some f else entry st k))"
proof -
  from handle_transfer_ok [OF assms(1)] obtain m t where h: "check_transfer dbg s dest fds = Inr m"
    "deliver (sv_deliver s) t name m st = (Inr (cand, n), st')" by blast
  have m: "m = length f" using check_transfer_ok [OF h(1)] assms(3,4) by (auto simp: may_cross_def)
  from delivered [OF h(2)] obtain out where d: "fill (sv_deliver s) m = (Inr n, out)" "cand \<in> candidate name ` {1 ..< 101}"
    "entry st cand = None" "\<forall>k. entry st' k = (if k = cand then Some out else entry st k)" by blast
  have "n = m" "out = f" using fill_ok(1,3) [OF d(1)] assms(2) m by auto
  then show ?thesis using d m by simp
qed

text \<open>C37: Whatever comes of a transfer, a file already in \<open>incoming/\<close> keeps its bytes and the broker is left with the
  file-system identity it had as root; a transfer that fails leaves no name behind it, when the unlink of what it had
  begun succeeds.\<close>

theorem incoming_kept:
  assumes "handle_transfer dbg s dest name fds st = Some (r, st')" "b_fsids st = (0, 0)"
  shows "b_fsids st' = (0, 0) \<and> (\<forall>k v. entry st k = Some v \<longrightarrow> entry st' k = Some v)
    \<and> (isl r \<and> dl_unlinked (sv_deliver s) \<longrightarrow> entry st' = entry st)"
proof -
  have same: "entry st1 = entry st" if "b_incoming st1 = b_incoming st" for st1
    using that by (simp add: entry_def fun_eq_iff)
  from handle_transfer_cases [OF assms(1)] consider (early) "b_incoming st' = b_incoming st" "b_fsids st' = b_fsids st"
    | (into) n t st1 where "b_incoming st1 = b_incoming st" "b_fsids st1 = b_fsids st" "deliver (sv_deliver s) t name n st1 = (r, st')"
    by blast
  then show ?thesis
  proof cases
    case early
    then show ?thesis using assms(2) same [OF early(1)] by simp
  next
    case into
    note d = deliver_entries [OF into(3)] and e = same [OF into(1)]
    have "entry st' = entry st" if "isl r" "dl_unlinked (sv_deliver s)" using d(2) [OF that] e by (simp add: fun_eq_iff)
    then show ?thesis using d(1) d(4) into(2) assms(2) unfolding e by simp
  qed
qed

section \<open>The clipboard\<close>


text \<open>C39: Moving the clipboard between two zones leaves the payload in exactly one of them when it succeeds, read
  there with the type and bytes it was read with; when it fails the source still has its own; no third zone changes.\<close>

theorem clipboard_crosses_once:
  assumes "clipboard_move dbg io from to es = (r, es')" "from \<noteq> to"
  shows "(case r of
      Inr (mime, n) \<Rightarrow> \<exists>bytes. clipboard_read dbg io (entry_dir es from) = Inr (Some (mime, bytes)) \<and> n = length bytes
        \<and> clipboard_read dbg io (entry_dir es' to) = Inr (Some (mime, bytes))
        \<and> clipboard_read dbg io (entry_dir es' from) = Inr None
    | Inl _ \<Rightarrow> entry_dir es' from = entry_dir es from)
    \<and> (z \<noteq> from \<and> z \<noteq> to \<longrightarrow> entry_dir es' z = entry_dir es z)"
proof (cases r)
  case (Inl e)
  then show ?thesis using clipboard_move_failed [of dbg io "from" to es e es'] clipboard_move_other [OF assms(1)] assms by simp
next
  case (Inr p)
  obtain mime n where p: "p = (mime, n)" by (cases p)
  obtain bytes where b: "clipboard_read dbg io (entry_dir es from) = Inr (Some (mime, bytes))" "n = length bytes"
    "clipboard_read dbg io (entry_dir es' to) = Inr (Some (mime, bytes))" "hm_get (entry_dir es' from) CLIPBOARD_FILE = None"
    using clipboard_move_ok [of dbg io "from" to es mime n es'] assms Inr p by blast
  then have "clipboard_read dbg io (entry_dir es' from) = Inr None"
    using clipboard_read_ok [OF b(1)] by (simp add: clipboard_read_def)
  then show ?thesis using b Inr p clipboard_move_other [OF assms(1)] by simp
qed

section \<open>A scenario\<close>

text \<open>
  The zone \<open>work\<close> sends \<open>dev\<close> a file of five bytes; \<open>incoming/\<close> already has one of that name. The kernel
  refuses \<open>copy_file_range\<close> between the two file systems, and the user says yes at the second look.
\<close>

definition demo_copy :: copy_io where
  "demo_copy = \<lparr>cp_range = [Copy_Error EINTR_copy, Copy_Error 18], cp_reads = [Copied ''hello'' 3, Copied ''hello'' 9],
     cp_writes = [Wrote 1, Write_Intr], cp_err = (\<lambda>_. ''failed'')\<rparr>"

definition demo_deliver :: deliver_io where
  "demo_deliver = \<lparr>dl_home = None, dl_root = True, dl_mkdir = None, dl_chown = None, dl_open = None, dl_owner = Inr 7,
     dl_create = (\<lambda>_. None), dl_fchown = None, dl_copy = demo_copy, dl_fsync = None, dl_unlinked = True\<rparr>"

definition demo_consent :: consent_io where
  "demo_consent = \<lparr>ci_dir = ''/run/kryptik-consent'', ci_me = 0, ci_channel = Channel 0 504, ci_watched = True, ci_placed = Inr ''1'',
     ci_start = 0, ci_looks = [\<lparr>lk_file = No_File, lk_now = 1, lk_asking = True\<rparr>, \<lparr>lk_file = Plain_File ''yes'', lk_now = 2, lk_asking = True\<rparr>]\<rparr>"

definition demo_sender :: zone where
  "demo_sender = (projr (from_str in_quotes (demo_file ''work'' ''#aa0000'')))\<lparr>z_transfer_to := [''dev'']\<rparr>"

definition demo_served :: served_zone where
  "demo_served = \<lparr>sv_zone = demo_sender, sv_auto_approve = False, sv_max_bytes = 100, sv_home_dev = Some 3,
     sv_zone_text = (\<lambda>z. Inr (demo_file z ''#00aa00'')), sv_fstat = Inr \<lparr>st_mode = 0x8180, st_dev = 3, st_size = 5\<rparr>, sv_getfl = Inr 0,
     sv_resolve_first = Inr \<lparr>t_uid = 7, t_gid = 7\<rparr>, sv_resolve = Inr \<lparr>t_uid = 7, t_gid = 7\<rparr>, sv_now = 0, sv_refused_at = 0,
     sv_consent = (\<lambda>_. demo_consent), sv_deliver = demo_deliver\<rparr>"

definition demo_before :: broker_st where
  "demo_before = \<lparr>b_until = None, b_incoming = Some [(''note'', ''old'')], b_fsids = (0, 0)\<rparr>"

definition demo_after :: broker_st where
  "demo_after = \<lparr>b_until = None, b_incoming = Some [(''note'', ''old''), (''note-2'', ''hello'')], b_fsids = (0, 0)\<rparr>"

lemma demo_check: "check_transfer in_quotes demo_served ''dev'' [4] = Inr 5"
  by code_simp

lemma demo_ask: "ask_transfer in_quotes demo_served ''dev'' ''note'' 5 demo_before = Some (Inr (), demo_before)"
  by code_simp

lemma demo_fill: "fill demo_deliver 5 = (Inr 5, ''hello'')"
  by (simp add: fill_def demo_deliver_def demo_copy_def copy_capped_def EINTR_copy_def no_range_def taken_at_def copy_want_def PREAD_BUF_def)

lemma demo_names: "candidate ''note'' 1 = ''note''" "candidate ''note'' 2 = ''note-2''"
  by code_simp+

lemma demo_numbers: "\<exists>is. numbers = 1 # 2 # is"
  by (simp add: numbers_def upt_conv_Cons)

lemma demo_try: "try_names demo_deliver ''note'' 5 numbers [(''note'', ''old'')] = (Inr (''note-2'', 5), [(''note'', ''old''), (''note-2'', ''hello'')])"
proof -
  obtain more where n: "numbers = 1 # 2 # more" using demo_numbers by blast
  have "dl_create demo_deliver k = None" for k by (simp add: demo_deliver_def)
  then show ?thesis unfolding n using demo_names by (simp add: Let_def demo_fill)
qed

lemma demo_delivered: "deliver demo_deliver \<lparr>t_uid = 7, t_gid = 7\<rparr> ''note'' 5 demo_before = (Inr (''note-2'', 5), demo_after)"
proof -
  have io: "dl_home demo_deliver = None" "dl_root demo_deliver" "dl_mkdir demo_deliver = None" "dl_chown demo_deliver = None"
    "dl_open demo_deliver = None" "dl_owner demo_deliver = Inr 7"
    by (simp_all add: demo_deliver_def)
  have "deliver_into demo_deliver \<lparr>t_uid = 7, t_gid = 7\<rparr> ''note'' 5 (Some [(''note'', ''old'')])
      = (Inr (''note-2'', 5), Some [(''note'', ''old''), (''note-2'', ''hello'')])"
    by (simp add: deliver_into_def io demo_try)
  then show ?thesis by (simp add: deliver_def io demo_before_def demo_after_def)
qed

lemma demo_transfer: "handle_transfer in_quotes demo_served ''dev'' ''note'' [4] demo_before = Some (Inr (''note-2'', 5), demo_after)"
proof -
  have "sv_resolve demo_served = Inr \<lparr>t_uid = 7, t_gid = 7\<rparr>" "sv_deliver demo_served = demo_deliver"
    by (simp_all add: demo_served_def)
  then show ?thesis by (simp add: handle_transfer_def demo_check demo_ask demo_delivered)
qed


theorem delivered_exactly_witness: "entry demo_before ''note-2'' = None \<and> entry demo_after ''note-2'' = Some ''hello'' \<and> entry demo_after ''note'' = Some ''old''"
proof -
  have u: "unchanged ''hello'' (dl_copy (sv_deliver demo_served))"
    by (simp add: demo_served_def demo_deliver_def demo_copy_def unchanged_def reads_of_def)
  have f: "sv_fstat demo_served = Inr \<lparr>st_mode = 0x8180, st_dev = 3, st_size = 5\<rparr>" by (simp add: demo_served_def)
  note d = delivered_exactly [OF demo_transfer u f]
  have "entry demo_before ''note'' = Some ''old''" by (simp add: demo_before_def entry_def)
  then show ?thesis using d by simp
qed

theorem incoming_kept_witness: "b_fsids demo_after = (0, 0) \<and> entry demo_after ''note'' = Some ''old''"
proof -
  have "b_fsids demo_before = (0, 0)" "entry demo_before ''note'' = Some ''old''" by (simp_all add: demo_before_def entry_def)
  then show ?thesis using incoming_kept [OF demo_transfer] by blast
qed

definition demo_atomic :: atomic_io where
  "demo_atomic = \<lparr>at_pid = 12, at_listing = Inr [''.clipboard.9'', ''launcher''], at_alive = (\<lambda>p. p = 12), at_stuck = (\<lambda>_. False),
     at_exists = ''exists'', at_create = None, at_write = None, at_chmod = None, at_chown = None, at_sync = None, at_rename = None\<rparr>"

definition demo_clip :: clip_io where
  "demo_clip = \<lparr>ck_open = None, ck_read = None, ck_atomic = demo_atomic, ck_remove = None\<rparr>"

definition demo_text :: bytes where
  "demo_text = ''text/html'' @ [CHR 0x0A] @ ''hi''"

lemma demo_write: "write_atomic demo_atomic CLIPBOARD_FILE [demo_text] False [(''.clipboard.9'', ''x''), (''launcher'', ''y'')]
    = (Inr (), [(''launcher'', ''y''), (''clipboard'', demo_text)])"
  by code_simp


definition demo_entries :: entries where
  "demo_entries = [(''work'', [(''clipboard'', demo_text)]), (''dev'', [(''clipboard'', ''old'')])]"

lemma demo_read: "clipboard_read in_quotes demo_clip (entry_dir demo_entries ''work'') = Inr (Some (''text/html'', ''hi''))"
proof -
  have "hm_get (entry_dir demo_entries ''work'') CLIPBOARD_FILE = Some (''text/html'' @ CHR 0x0A # ''hi'')"
    by (simp add: entry_dir_def demo_entries_def CLIPBOARD_FILE_def demo_text_def)
  then show ?thesis by (rule clipboard_read_payload) (simp_all add: MIME_TYPES_def CLIPBOARD_MAX_def demo_clip_def)
qed

lemma demo_written: "write_atomic demo_atomic CLIPBOARD_FILE [''text/html'', [CHR 0x0A], ''hi''] False (entry_dir demo_entries ''dev'')
    = (Inr (), [(''clipboard'', demo_text)])"
  by code_simp

lemma demo_moved: "clipboard_move in_quotes demo_clip ''work'' ''dev'' demo_entries
    = (Inr (''text/html'', 2), [(''work'', []), (''dev'', [(''clipboard'', demo_text)])])"
proof -
  have "clipboard_write in_quotes demo_clip ''text/html'' ''hi'' (entry_dir demo_entries ''dev'') = (Inr (), [(''clipboard'', demo_text)])"
    using demo_written by (simp add: clipboard_write_def MIME_TYPES_def CLIPBOARD_MAX_def demo_clip_def)
  then show ?thesis
    by (simp add: clipboard_move_def demo_read Let_def) (simp add: demo_entries_def entry_dir_def CLIPBOARD_FILE_def demo_clip_def)
qed

theorem clipboard_crosses_once_witness:
  "clipboard_read in_quotes demo_clip (entry_dir [(''work'', []), (''dev'', [(''clipboard'', demo_text)])] ''dev'') = Inr (Some (''text/html'', ''hi''))
    \<and> clipboard_read in_quotes demo_clip (entry_dir [(''work'', []), (''dev'', [(''clipboard'', demo_text)])] ''work'') = Inr None"
proof -
  have "''work'' \<noteq> ''dev''" by simp
  from clipboard_crosses_once [OF demo_moved this] show ?thesis unfolding demo_read by auto
qed

end
