(* ===== verification/Spec2Isabelle.thy ===== *)
theory Spec2Isabelle
  imports Proxy_Runs Policy_Safe Zone_Inv Time_Safe Broker_Runs
begin

text \<open>
  A model of the security-critical Rust programs of KryptikOS, translated from the sources, with the
  theorems that make them correct. Paths are under \<open>src/\<close>.

  \<^bold>\<open>The program.\<close> Zone 0 runs \<open>kryptikd\<close> (\<open>compartments/kryptikd/src\<close>), which reads what the zones are,
  confines each, and carries requests out of a zone; and, for each zone, a window proxy
  (\<open>compositor/wlproxy/src\<close>) between the zone's clients and the compositor. A zone is untrusted: the
  theorems quantify over everything it sends, and over what the kernel answers.

  \<^bold>\<open>The language.\<close> \<open>Rust_Prelude\<close> and \<open>Rust_Str\<close> hold what the sources use of Rust and its library: byte
  order, checked arithmetic, hash maps as association lists, results and early returns, UTF-8, the string
  methods. \<open>Rust_F64\<close> is rounding to \<open>f64\<close>. A place where the code could panic is a value of the model.

  \<^bold>\<open>The window proxy.\<close>
  \<^item> \<open>Wire\<close> is \<open>wire.rs\<close>: headers, the argument reader, the message writer, and that each reads what the
    other writes. \<open>Protocol\<close> and \<open>Protocol_Tables\<close> are \<open>protocol.rs\<close> and \<open>protocol_tables.rs\<close>: signatures, the
    decoder, which accepts exactly the bodies its signature describes, and the consistency of the tables.
  \<^item> \<open>Proxy_Policy\<close> is \<open>policy.rs\<close>: what may be bound, and titles and app ids that carry the zone's name.
    \<open>Clipboard\<close> is \<open>clipboard.rs\<close>, the selection shared by a zone's sessions.
  \<^item> \<open>session.rs\<close>: \<open>Endpoint\<close> is a socket with its queues, refining a first-in first-out channel; \<open>Objects\<close> the
    table of objects; \<open>Session_State\<close>, \<open>Pools\<close>, \<open>Serve\<close> and \<open>Pump\<close> the session and the handling of every
    message both ways. \<open>Session_Inv\<close>, \<open>Pump_Inv\<close>, \<open>Pump_Safe\<close>, \<open>Pump_Loop\<close> and \<open>Proxy_Session\<close> prove its
    invariant, that pumping returns without a panic, its budgets, and that no descriptor is lost.
    \<open>Proxy_Stream\<close> shows all the compositor can be sent, \<open>Proxy_Events\<close> all a client can be told.
    \<open>Proxy_Scenario\<close> holds a connection these are applied to.
  \<^item> \<open>Control\<close> is \<open>control.rs\<close>, the requests of zone 0 and the writer of a paste. \<open>Proxy_Opts\<close> and \<open>Proxy_Turn\<close>
    are \<open>main.rs\<close>: options, the log, and a turn of the loop. \<open>Turn_Safe\<close> and \<open>Proxy_Runs\<close> show that no run of
    the loop panics and that a zone stays within its bounds, and what passing a budget does.

  \<^bold>\<open>Confinement.\<close>
  \<^item> \<open>Bpf\<close> is the machine that runs a filter. \<open>Seccomp_Names\<close>, \<open>Seccomp\<close> and \<open>Caps\<close> are \<open>seccomp.rs\<close> and \<open>caps.rs\<close>.
    \<open>Seccomp_Filters\<close> proves the emitted programs equal to a decision that names no jump; \<open>Seccomp_Safety\<close> and
    \<open>Seccomp_Others\<close> what the zone's, the proxy's and the supplicant's filters allow.
  \<^item> \<open>Zone\<close> and \<open>Zone_Policy\<close> are \<open>zone.rs\<close> and \<open>policy.rs\<close>: the files that define a zone and widen its filter.
    \<open>Zone_Inv\<close> shows that zones that load are well-formed and told apart, \<open>Policy_Safe\<close> that no policy opens a
    denied call and that every policy that parses can be installed.

  \<^bold>\<open>What crosses from a zone.\<close>
  \<^item> \<open>Calendar\<close> and \<open>Time\<close> are \<open>time.rs\<close>: dates, claims about the clock, the floor. \<open>Calendar\<close> proves the closed
    forms equal to counting days, \<open>Time_Safe\<close> that claims move the clock unasked within a bound.
  \<^item> \<open>Consent\<close> is \<open>consent.rs\<close>: a question to the user in zone 0 and exactly when it is answered yes.
  \<^item> \<open>Broker\<close> is the request line of \<open>broker.rs\<close>, \<open>Broker_Transfer\<close> its transfer of files, \<open>Broker_Clipboard\<close> its
    clipboard with \<open>write_atomic\<close> of \<open>files.rs\<close>. \<open>Broker_Safe\<close> and \<open>Broker_Runs\<close> show that a file crosses only when
    every check and the user allow it, whole and under a free name, and that a clipboard payload crosses once.

  \<^bold>\<open>Parameters and bounds.\<close> Code outside the repository is a parameter: the kernel's answers are arguments
  of each operation, as records or as lists in the order of the calls, and \<open>{:?}\<close> of a string is the function
  \<open>dbg\<close>. Where a list of answers ends, the text of the definition says what that means (a file has ended, a
  write takes all, a question is still open). Loops of the code are structural recursions over such lists or
  over the bytes held, or have a termination proof; the filter machine runs forward only, so the length of a
  program bounds its run. Times are milliseconds. Sizes are \<^typ>\<open>nat\<close> with the checks against \<open>2^64\<close> written out
  where the code could reach it.

  \<^bold>\<open>Not modelled.\<close>
  \<^item> In \<open>broker.rs\<close> the socket (\<open>listen_at\<close>, \<open>serve_one\<close>, \<open>serve_connection\<close> and its reads and replies) and
    \<open>handle_update\<close>; in \<open>time.rs\<close> the text of the state file (\<open>load_state\<close>, \<open>save_state\<close>) and \<open>SystemClock\<close>; in
    \<open>consent.rs\<close> the watcher's lock, the placing of a question and the removal of its files; in \<open>files.rs\<close>
    \<open>private_dir\<close>.
  \<^item> Of \<open>kryptikd\<close>: \<open>spawn.rs\<close>, \<open>isolate.rs\<close>, \<open>rootfs.rs\<close>, \<open>cgroup.rs\<close>, \<open>landlock.rs\<close>, \<open>netzone.rs\<close>, \<open>netlink.rs\<close>,
    \<open>volume.rs\<close>, \<open>images.rs\<close>, \<open>camera.rs\<close>, \<open>stick.rs\<close>, \<open>registry.rs\<close>, whose effects are the kernel's or an outside
    tool's; \<open>serve.rs\<close>, \<open>main.rs\<close>, \<open>wifi.rs\<close>, \<open>supplicant.rs\<close>, \<open>desktop.rs\<close>, \<open>password.rs\<close>, \<open>suspend.rs\<close>, \<open>proxy.rs\<close>
    and \<open>sound.rs\<close>, which start and watch processes. \<open>update.rs\<close>, the request parsing of \<open>serve.rs\<close> and the
    message encoding of \<open>netlink.rs\<close> are logic that is not translated yet.
  \<^item> \<open>compositor/zoneid\<close>, an audit of colours in floating point, and \<open>tools/stick\<close>, a reader of FAT through an
    outside crate and of exFAT; the programs in C, the build and the scripts.
\<close>

end
